theory Spec2Isabelle
  imports Main "HOL-Library.Word"
begin

unbundle bit_operations_syntax

section \<open>Values of the C program\<close>

text \<open>
  \<^verbatim>\<open>install.c\<close> is one translation unit: \<^verbatim>\<open>fatal\<close>, \<^verbatim>\<open>mkparents\<close> and \<^verbatim>\<open>main\<close>.
  The model fixes the LP64 data model of the platforms the program is written for:
  \<^verbatim>\<open>unsigned long\<close> has 64 bits, \<^verbatim>\<open>mode_t\<close>, \<^verbatim>\<open>uid_t\<close> and \<^verbatim>\<open>gid_t\<close> are
  unsigned and have 32 bits. A C string is a \<open>string\<close>; a byte of a file is a \<open>char\<close>.
  Octal constants of the source are written in decimal: \<open>0755 = 493\<close>, \<open>0777 = 511\<close>,
  \<open>0600 = 384\<close>, \<open>07777 = 4095\<close>, \<open>06000 = 3072\<close>, \<open>02000 = 1024\<close>.
\<close>

type_synonym path = string
type_synonym mode_t = "32 word"
type_synonym uid_t = "32 word"
type_synonym gid_t = "32 word"
type_synonym ulong = "64 word"

datatype errno =
  EACCES | EBADF | EEXIST | EINVAL | EIO | EISDIR | ELOOP | ENOENT | ENOMEM
  | ENOSPC | ENOTDIR | EOVERFLOW | EPERM | ERANGE | EROFS

text \<open>
  The arguments of a \<^verbatim>\<open>printf\<close>-style call: \<^verbatim>\<open>%s\<close> takes \<open>S\<close>, \<^verbatim>\<open>%c\<close> takes \<open>C\<close>,
  \<^verbatim>\<open>%u\<close> takes \<open>U\<close>, and \<open>E e\<close> stands for the string \<^verbatim>\<open>strerror(e)\<close>, whose text is
  the C library's.
\<close>

datatype farg = S string | C char | U mode_t | E errno

datatype out = Stdout string "farg list" | Stderr string "farg list"

datatype ftype = S_IFREG | S_IFDIR | S_IFLNK | S_IFCHR | S_IFBLK | S_IFIFO | S_IFSOCK

text \<open>
  A file of the file system: its type, permission bits, owner, group, and its bytes
  (the content of a regular file, the target text of a symbolic link).
\<close>

record inode =
  ftype :: ftype
  perm :: mode_t
  fuid :: uid_t
  fgid :: gid_t
  bytes :: string

datatype syscall =
  Sys_mkdir path
  | Sys_symlink path path
  | Sys_lstat path
  | Sys_open path
  | Sys_creat path
  | Sys_read path nat
  | Sys_write path nat
  | Sys_chmod path
  | Sys_lchown path
  | Sys_rename path path

text \<open>
  Everything outside the program that it reads or changes. \<open>fs\<close> maps a path name to
  the file it names; \<open>heap_free\<close> is what \<^verbatim>\<open>malloc\<close> can still hand out; \<open>passwd\<close> and
  \<open>groupdb\<close> are the user and group databases behind \<^verbatim>\<open>getpwnam\<close> and \<^verbatim>\<open>getgrnam\<close>;
  \<open>ruid\<close> and \<open>rgid\<close> are what \<^verbatim>\<open>getuid\<close> and \<^verbatim>\<open>getgid\<close> return; \<open>euid\<close>, \<open>egid\<close>
  and \<open>supp_gids\<close> decide permissions; \<open>blksize\<close> is the preferred I/O block size
  that \<^verbatim>\<open>lstat\<close> reports; \<open>fault\<close> makes a system call fail for a reason the file
  system model does not derive (an I/O error, a denied permission, a full disk);
  \<open>optopt0\<close> is the initial value of \<^verbatim>\<open>optopt\<close>.
\<close>

record world =
  fs :: "path \<Rightarrow> inode option"
  heap_free :: nat
  passwd :: "string \<Rightarrow> uid_t option"
  groupdb :: "string \<Rightarrow> gid_t option"
  ruid :: uid_t
  rgid :: gid_t
  euid :: uid_t
  egid :: gid_t
  supp_gids :: "gid_t list"
  umask :: mode_t
  blksize :: nat
  fault :: "syscall \<Rightarrow> errno option"
  optopt0 :: char

text \<open>How a run of the program ends: its exit status, what it printed, and the world it leaves.\<close>

record result =
  exit_status :: int
  printed :: "out list"
  final :: world

section \<open>fatal and the help text\<close>

definition install_help :: string where
  "install_help =
    ''usage: %s [-Dghlmor] <src> <dst>\<newline>'' @
    ''\<newline>'' @
    ''Options:\<newline>'' @
    '' -D           Create parent directories of <dst>. Directories are created\<newline>'' @
    ''              with the default umask(1).\<newline>'' @
    '' -g <gid>     Set the group of the installed file to <gid>. This may be\<newline>'' @
    ''              either a numeric group ID or a group name.\<newline>'' @
    '' -h           Display this help text.\<newline>'' @
    '' -l           Install as a symbolic link.\<newline>'' @
    '' -m <mode>    Set the permissions of the installed file to <mode>. This\<newline>'' @
    ''              must be a valid octal mode.\<newline>'' @
    '' -o <uid>     Set the owner of the installed file to <uid>. This may be\<newline>'' @
    ''              either a numeric user ID or a user name.\<newline>''"

text \<open>
  \<^verbatim>\<open>fatal(fmt, ...)\<close>: \<^verbatim>\<open>snprintf(buf, 4096, "fatal: %s\n", fmt)\<close> builds the format
  (cut to the 4095 characters the buffer holds), \<^verbatim>\<open>vfprintf(stderr, buf, args)\<close> prints
  it, \<^verbatim>\<open>exit(1)\<close> ends the program. Nothing is cleaned up.
\<close>

definition fatal :: "string \<Rightarrow> farg list \<Rightarrow> world \<Rightarrow> result" where
  "fatal fmt args w =
     \<lparr>exit_status = 1,
      printed = [Stderr (take 4095 (''fatal: '' @ fmt @ ''\<newline>'')) args],
      final = w\<rparr>"

section \<open>strtoul\<close>

text \<open>
  \<^verbatim>\<open>strtoul(nptr, &err, base)\<close> of ISO C, for the bases the program uses (0 and 8):
  leading white space is skipped, a sign is accepted, base 0 takes a \<^verbatim>\<open>0x\<close> prefix for
  hexadecimal and a leading \<^verbatim>\<open>0\<close> for octal, and the longest run of digits of the base
  is converted. With no digit there is no conversion: the value is 0 and \<^verbatim>\<open>err\<close> is
  \<^verbatim>\<open>nptr\<close>. A value beyond \<^verbatim>\<open>ULONG_MAX\<close> gives \<^verbatim>\<open>ULONG_MAX\<close> and sets \<^verbatim>\<open>errno\<close> to
  \<^verbatim>\<open>ERANGE\<close>; a minus sign negates the value in \<^verbatim>\<open>unsigned long\<close>. The result is the
  value, the text \<^verbatim>\<open>err\<close> points to, and whether \<^verbatim>\<open>errno\<close> was set.
\<close>

definition isspace :: "char \<Rightarrow> bool" where
  "isspace c = (c \<in> set [CHR '' '', CHR 0x09, CHR 0x0A, CHR 0x0B, CHR 0x0C, CHR 0x0D])"

fun index_of :: "char \<Rightarrow> string \<Rightarrow> nat option" where
  "index_of c [] = None"
| "index_of c (d # ds) = (if c = d then Some 0 else map_option Suc (index_of c ds))"

definition digit_of :: "char \<Rightarrow> nat option" where
  "digit_of c =
     (case index_of c ''0123456789'' of
        Some d \<Rightarrow> Some d
      | None \<Rightarrow>
         (case index_of c ''abcdefghijklmnopqrstuvwxyz'' of
            Some d \<Rightarrow> Some (d + 10)
          | None \<Rightarrow> map_option (\<lambda>d. d + 10) (index_of c ''ABCDEFGHIJKLMNOPQRSTUVWXYZ'')))"

fun digits :: "nat \<Rightarrow> nat \<Rightarrow> string \<Rightarrow> nat \<times> string" where
  "digits b acc [] = (acc, [])"
| "digits b acc (c # cs) =
     (case digit_of c of
        None \<Rightarrow> (acc, c # cs)
      | Some d \<Rightarrow> if d < b then digits b (acc * b + d) cs else (acc, c # cs))"

definition has_hex_prefix :: "string \<Rightarrow> bool" where
  "has_hex_prefix s =
     (case s of
        c0 # c1 # c2 # _ \<Rightarrow>
          c0 = CHR ''0'' \<and> (c1 = CHR ''x'' \<or> c1 = CHR ''X'') \<and>
          (case digit_of c2 of None \<Rightarrow> False | Some d \<Rightarrow> d < 16)
      | _ \<Rightarrow> False)"

definition ULONG_MAX :: nat where
  "ULONG_MAX = 2 ^ 64 - 1"

definition strtoul :: "string \<Rightarrow> nat \<Rightarrow> ulong \<times> string \<times> bool" where
  "strtoul nptr base =
     (let s1 = dropWhile isspace nptr;
          neg = (case s1 of [] \<Rightarrow> False | c # _ \<Rightarrow> c = CHR ''-'');
          s2 = (case s1 of [] \<Rightarrow> s1 | c # cs \<Rightarrow> if c = CHR ''-'' \<or> c = CHR ''+'' then cs else s1);
          hex = ((base = 0 \<or> base = 16) \<and> has_hex_prefix s2);
          b = (if hex then 16
               else if base = 0 then (case s2 of [] \<Rightarrow> 10 | c # _ \<Rightarrow> if c = CHR ''0'' then 8 else 10)
               else base);
          s3 = (if hex then drop 2 s2 else s2);
          (v, rest) = digits b 0 s3
      in if length rest = length s3 then (0, nptr, False)
         else if ULONG_MAX < v then (of_nat ULONG_MAX, rest, True)
         else (if neg then - of_nat v else of_nat v, rest, False))"

section \<open>getopt\<close>

text \<open>
  POSIX \<^verbatim>\<open>getopt(argc, argv, ":Dg:hlm:o:r")\<close>. Its position in \<^verbatim>\<open>argv\<close> is the pair of
  the characters of the current element that are still to be read (empty between
  elements) and the elements after it. Scanning ends at the end of \<^verbatim>\<open>argv\<close>, at \<^verbatim>\<open>--\<close>
  (which is skipped), and at the first element that is not an option (one that does
  not start with \<^verbatim>\<open>-\<close>, or is \<^verbatim>\<open>-\<close> alone); elements are not permuted. The argument of
  \<^verbatim>\<open>g\<close>, \<^verbatim>\<open>m\<close> and \<^verbatim>\<open>o\<close> is the rest of the element or, when that is empty, the next
  element. As the option string starts with a colon, a missing argument returns
  \<^verbatim>\<open>':'\<close>; an unknown character returns \<^verbatim>\<open>'?'\<close>; both set \<^verbatim>\<open>optopt\<close>.
\<close>

datatype gres =
  G_done
  | G_flag char
  | G_arg char string
  | G_missing char
  | G_unknown char

definition getopt_char :: "char \<Rightarrow> string \<Rightarrow> string list \<Rightarrow> gres \<times> string \<times> string list" where
  "getopt_char c cs args =
     (if c \<in> set ''Dhlr'' then (G_flag c, cs, args)
      else if c \<in> set ''gmo'' then
        (if cs \<noteq> [] then (G_arg c cs, [], args)
         else (case args of
                 [] \<Rightarrow> (G_missing c, [], [])
               | a # args' \<Rightarrow> (G_arg c a, [], args')))
      else (G_unknown c, cs, args))"

fun getopt :: "string \<Rightarrow> string list \<Rightarrow> gres \<times> string \<times> string list" where
  "getopt [] [] = (G_done, [], [])"
| "getopt [] (a # args) =
     (if a = ''--'' then (G_done, [], args)
      else (case a of
              c0 # c # cs \<Rightarrow> if c0 = CHR ''-'' then getopt_char c cs args else (G_done, [], a # args)
            | _ \<Rightarrow> (G_done, [], a # args)))"
| "getopt (c # cs) args = getopt_char c cs args"

section \<open>The option loop of main\<close>

text \<open>The local variables of \<^verbatim>\<open>main\<close> that the options set.\<close>

record opts =
  mkdirp :: bool
  symbolic :: bool
  owner :: uid_t
  group :: gid_t
  mode :: mode_t

text \<open>
  The formats \<^verbatim>\<open>"invalid group: '%s'"\<close> and \<^verbatim>\<open>"invalid user: '%s'"\<close>; the character
  \<open>0x27\<close> is the single quote.
\<close>

definition invalid_group :: string where
  "invalid_group = ''invalid group: '' @ [CHR 0x27] @ ''%s'' @ [CHR 0x27]"

definition invalid_user :: string where
  "invalid_user = ''invalid user: '' @ [CHR 0x27] @ ''%s'' @ [CHR 0x27]"

text \<open>
  The body of the \<^verbatim>\<open>switch\<close>: one option, in the state the earlier options left.
  \<open>Inl\<close> is the end of the program (\<^verbatim>\<open>fatal\<close>, or \<^verbatim>\<open>exit(0)\<close> after the help text).
  \<^verbatim>\<open>errno\<close> is set to 0 before each \<^verbatim>\<open>strtoul\<close>, so \<^verbatim>\<open>errno != 0\<close> after it is the
  conversion's \<^verbatim>\<open>ERANGE\<close>; \<^verbatim>\<open>err\<close> is never null after the call. The assignments
  \<^verbatim>\<open>group = strtoul(...)\<close>, \<^verbatim>\<open>owner = strtoul(...)\<close> and \<^verbatim>\<open>mode = strtoul(...)\<close> convert
  \<^verbatim>\<open>unsigned long\<close> to a 32-bit type (\<open>ucast\<close>). The option \<^verbatim>\<open>r\<close> is in the option string
  and has no \<^verbatim>\<open>case\<close>: it takes the \<^verbatim>\<open>default\<close> branch, where \<^verbatim>\<open>optopt\<close> still has its
  initial value.
\<close>

definition opt_case :: "string \<Rightarrow> world \<Rightarrow> opts \<Rightarrow> gres \<Rightarrow> result + opts" where
  "opt_case argv0 w st ev =
     (case ev of
        G_flag c \<Rightarrow>
          if c = CHR ''D'' then Inr (st\<lparr>mkdirp := True\<rparr>)
          else if c = CHR ''h'' then
            Inl \<lparr>exit_status = 0, printed = [Stdout install_help [S argv0]], final = w\<rparr>
          else if c = CHR ''l'' then Inr (st\<lparr>symbolic := True\<rparr>)
          else Inl (fatal ''invalid option: -%c'' [C (optopt0 w)] w)
      | G_arg c optarg \<Rightarrow>
          if c = CHR ''g'' then
            (case strtoul optarg 0 of
               (v, err, erange) \<Rightarrow>
                 if erange \<or> err \<noteq> [] then
                   (case groupdb w optarg of
                      None \<Rightarrow> Inl (fatal invalid_group [S optarg] w)
                    | Some gid \<Rightarrow> Inr (st\<lparr>group := gid\<rparr>))
                 else if erange then
                   Inl (fatal invalid_group [S optarg] w)
                 else Inr (st\<lparr>group := ucast v\<rparr>))
          else if c = CHR ''m'' then
            (case strtoul optarg 8 of
               (v, err, erange) \<Rightarrow>
                 if erange \<or> err \<noteq> [] then Inl (fatal ''invalid mode: %s'' [S optarg] w)
                 else Inr (st\<lparr>mode := ucast v\<rparr>))
          else
            (case strtoul optarg 0 of
               (v, err, erange) \<Rightarrow>
                 if erange \<or> err \<noteq> [] then
                   (case passwd w optarg of
                      None \<Rightarrow> Inl (fatal invalid_user [S optarg] w)
                    | Some uid \<Rightarrow> Inr (st\<lparr>owner := uid\<rparr>))
                 else if erange then
                   Inl (fatal invalid_user [S optarg] w)
                 else Inr (st\<lparr>owner := ucast v\<rparr>))
      | G_missing c \<Rightarrow> Inl (fatal ''option requires argument: -%c'' [C c] w)
      | G_unknown c \<Rightarrow> Inl (fatal ''invalid option: -%c'' [C c] w)
      | G_done \<Rightarrow> Inr st)"


text \<open>
  The \<^verbatim>\<open>while\<close> loop around \<^verbatim>\<open>getopt\<close>. It ends when \<^verbatim>\<open>getopt\<close> returns -1, with the
  options' values and the elements of \<^verbatim>\<open>argv\<close> from \<^verbatim>\<open>optind\<close> on, or inside the
  \<^verbatim>\<open>switch\<close>, with the end of the program.
\<close>

function opts_loop ::
  "string \<Rightarrow> world \<Rightarrow> opts \<Rightarrow> string \<Rightarrow> string list \<Rightarrow> result + opts \<times> string list" where
  "opts_loop argv0 w st cl args =
     (case getopt cl args of
        (ev, cl', args') \<Rightarrow>
          if ev = G_done then Inr (st, args')
          else (case opt_case argv0 w st ev of
                  Inl r \<Rightarrow> Inl r
                | Inr st' \<Rightarrow> opts_loop argv0 w st' cl' args'))"
  by pat_completeness auto

termination opts_loop
proof (relation "measure (\<lambda>(argv0, w, st, cl, args). length cl + sum_list (map (\<lambda>a. Suc (length a)) args))",
    goal_cases)
  case 1
  show ?case by simp
next
  case (2 argv0 w st cl args x y a b st')
  then have g: "getopt cl args = (x, a, b)" and nd: "x \<noteq> G_done" by simp_all
  let ?m = "\<lambda>cl args. length cl + sum_list (map (\<lambda>a. Suc (length a)) args)"
  have ch: "?m cl' args' \<le> ?m cs rest" if "getopt_char c cs rest = (ev, cl', args')"
    for c cs rest ev cl' args'
    using that by (auto simp: getopt_char_def split: if_splits list.splits)
  have "?m a b < ?m cl args"
  proof (cases cl)
    case Nil
    note cl = Nil
    show ?thesis
    proof (cases args)
      case Nil
      with cl g nd show ?thesis by simp
    next
      case (Cons e rest)
      with cl g nd obtain c cs where e: "e = CHR ''-'' # c # cs"
        and gc: "getopt_char c cs rest = (x, a, b)"
        by (auto split: if_splits list.splits)
      from ch [OF gc] e Cons cl show ?thesis by simp
    qed
  next
    case (Cons c cs)
    with g have "getopt_char c cs args = (x, a, b)" by simp
    from ch [OF this] Cons show ?thesis by simp
  qed
  with 2 show ?case by auto
qed

section \<open>The operating system\<close>

text \<open>
  \<^verbatim>\<open>malloc(n)\<close> fails when the heap has fewer than \<open>n\<close> bytes left; \<^verbatim>\<open>free\<close> gives the
  bytes back.
\<close>

definition malloc :: "nat \<Rightarrow> world \<Rightarrow> world option" where
  "malloc n w = (if n \<le> heap_free w then Some (w\<lparr>heap_free := heap_free w - n\<rparr>) else None)"

definition free :: "nat \<Rightarrow> world \<Rightarrow> world" where
  "free n w = w\<lparr>heap_free := heap_free w + n\<rparr>"

text \<open>
  The file system is a map from path names to files. A name is looked up as it is
  written: the model does not identify two spellings of one path (doubled or trailing
  slashes, \<^verbatim>\<open>.\<close> and \<^verbatim>\<open>..\<close>), does not follow a symbolic link in the directory part of
  a path, and has no hard links. The permission bits of directories are not consulted;
  a denied access is one of the failures \<open>fault\<close> stands for. The directory part of a
  name is the text before its last slash; a name without a slash is looked up in the
  working directory, which exists, as the root does.
\<close>

definition dir_len :: "path \<Rightarrow> nat" where
  "dir_len p = length (dropWhile (\<lambda>c. c \<noteq> CHR ''/'') (rev p))"

definition parent_dir :: "path \<Rightarrow> path" where
  "parent_dir p = (if dir_len p = 0 then [] else if dir_len p = 1 then ''/'' else take (dir_len p - 1) p)"

text \<open>
  Every directory on the way to a name must exist and be a directory: \<^verbatim>\<open>ENOENT\<close> or
  \<^verbatim>\<open>ENOTDIR\<close> otherwise.
\<close>

function dir_err :: "(path \<Rightarrow> inode option) \<Rightarrow> path \<Rightarrow> errno option" where
  "dir_err t d =
     (if d = [] \<or> d = ''/'' then None
      else (case dir_err t (parent_dir d) of
              Some e \<Rightarrow> Some e
            | None \<Rightarrow>
               (case t d of
                  None \<Rightarrow> Some ENOENT
                | Some f \<Rightarrow> if ftype f = S_IFDIR then None else Some ENOTDIR)))"
  by pat_completeness auto
termination
proof (relation "measure (\<lambda>(t, d). length d)", goal_cases)
  case 1
  show ?case by simp
next
  case (2 t d)
  then have ne: "d \<noteq> []" and nr: "d \<noteq> ''/''" by simp_all
  have le: "dir_len d \<le> length d"
    unfolding dir_len_def by (metis length_dropWhile_le length_rev)
  have "length (parent_dir d) < length d"
  proof (cases "dir_len d = 1")
    case True
    have "length d \<noteq> 1"
    proof
      assume "length d = 1"
      then obtain c where d: "d = [c]" by (cases d) auto
      with True have "c = CHR ''/''" by (auto simp: dir_len_def split: if_splits)
      with d nr show False by simp
    qed
    with le True ne show ?thesis by (simp add: parent_dir_def)
  next
    case False
    with le ne show ?thesis by (auto simp: parent_dir_def)
  qed
  then show ?case by simp
qed

definition lookup_err :: "(path \<Rightarrow> inode option) \<Rightarrow> path \<Rightarrow> errno option" where
  "lookup_err t p = (if p = [] then Some ENOENT else dir_err t (parent_dir p))"

text \<open>
  The calls that follow a symbolic link in the last component (\<^verbatim>\<open>open\<close>, \<^verbatim>\<open>chmod\<close>) find
  the file through \<open>follow\<close>: a relative target is read from the directory of the link;
  more than \<^verbatim>\<open>SYMLOOP_MAX\<close> links are \<^verbatim>\<open>ELOOP\<close>. The result is the name of the file
  reached, which may not exist (a dangling link, or a name that is free).
\<close>

definition link_target :: "path \<Rightarrow> string \<Rightarrow> path" where
  "link_target p t = (case t of [] \<Rightarrow> [] | c # _ \<Rightarrow> if c = CHR ''/'' then t else take (dir_len p) p @ t)"

definition SYMLOOP_MAX :: nat where
  "SYMLOOP_MAX = 40"

fun follow :: "nat \<Rightarrow> (path \<Rightarrow> inode option) \<Rightarrow> path \<Rightarrow> errno + path" where
  "follow 0 t p = Inl ELOOP"
| "follow (Suc n) t p =
     (case lookup_err t p of
        Some e \<Rightarrow> Inl e
      | None \<Rightarrow>
         (case t p of
            None \<Rightarrow> Inr p
          | Some f \<Rightarrow> if ftype f = S_IFLNK then follow n t (link_target p (bytes f)) else Inr p))"

text \<open>
  \<^verbatim>\<open>mkdir(p, m)\<close>: the new directory has the mode \<open>m\<close> without the bits of the umask.
\<close>

definition sys_mkdir :: "path \<Rightarrow> mode_t \<Rightarrow> world \<Rightarrow> errno + world" where
  "sys_mkdir p m w =
     (case fault w (Sys_mkdir p) of
        Some e \<Rightarrow> Inl e
      | None \<Rightarrow>
         (case lookup_err (fs w) p of
            Some e \<Rightarrow> Inl e
          | None \<Rightarrow>
             if fs w p \<noteq> None then Inl EEXIST
             else Inr (w\<lparr>fs := (fs w)(p \<mapsto>
                    \<lparr>ftype = S_IFDIR, perm = m AND NOT (umask w), fuid = euid w,
                     fgid = egid w, bytes = []\<rparr>)\<rparr>)))"

text \<open>
  \<^verbatim>\<open>symlink(target, p)\<close>: the target text is stored as it is given and is not looked
  up; an empty target is refused; a name that exists is \<^verbatim>\<open>EEXIST\<close>.
\<close>

definition sys_symlink :: "string \<Rightarrow> path \<Rightarrow> world \<Rightarrow> errno + world" where
  "sys_symlink target p w =
     (case fault w (Sys_symlink target p) of
        Some e \<Rightarrow> Inl e
      | None \<Rightarrow>
         if target = [] then Inl ENOENT
         else (case lookup_err (fs w) p of
                 Some e \<Rightarrow> Inl e
               | None \<Rightarrow>
                  if fs w p \<noteq> None then Inl EEXIST
                  else Inr (w\<lparr>fs := (fs w)(p \<mapsto>
                         \<lparr>ftype = S_IFLNK, perm = 511, fuid = euid w, fgid = egid w,
                          bytes = target\<rparr>)\<rparr>)))"

text \<open>\<^verbatim>\<open>lstat(p, &st)\<close> does not follow a link at \<open>p\<close>: it reports the file named \<open>p\<close> itself.\<close>

record stat =
  st_mode :: ftype
  st_blksize :: nat

definition sys_lstat :: "path \<Rightarrow> world \<Rightarrow> errno + stat" where
  "sys_lstat p w =
     (case fault w (Sys_lstat p) of
        Some e \<Rightarrow> Inl e
      | None \<Rightarrow>
         (case lookup_err (fs w) p of
            Some e \<Rightarrow> Inl e
          | None \<Rightarrow>
             (case fs w p of
                None \<Rightarrow> Inl ENOENT
              | Some f \<Rightarrow> Inr \<lparr>st_mode = ftype f, st_blksize = blksize w\<rparr>)))"

text \<open>
  \<^verbatim>\<open>open(p, O_RDONLY)\<close> follows links. A file descriptor is modelled by the name of the
  file it refers to; its offset is kept by the caller.
\<close>

definition sys_open :: "path \<Rightarrow> world \<Rightarrow> errno + path" where
  "sys_open p w =
     (case fault w (Sys_open p) of
        Some e \<Rightarrow> Inl e
      | None \<Rightarrow>
         (case follow SYMLOOP_MAX (fs w) p of
            Inl e \<Rightarrow> Inl e
          | Inr q \<Rightarrow> if fs w q = None then Inl ENOENT else Inr q))"

text \<open>
  \<^verbatim>\<open>open(p, O_RDWR | O_CREAT, m)\<close> follows links, creates an empty regular file where
  the name reached is free, and opens an existing file as it is: without \<^verbatim>\<open>O_TRUNC\<close>
  its bytes stay, without \<^verbatim>\<open>O_EXCL\<close> its existence is no error. A directory cannot be
  opened for writing.
\<close>

definition sys_creat :: "path \<Rightarrow> mode_t \<Rightarrow> world \<Rightarrow> errno + path \<times> world" where
  "sys_creat p m w =
     (case fault w (Sys_creat p) of
        Some e \<Rightarrow> Inl e
      | None \<Rightarrow>
         (case follow SYMLOOP_MAX (fs w) p of
            Inl e \<Rightarrow> Inl e
          | Inr q \<Rightarrow>
             (case fs w q of
                None \<Rightarrow>
                  Inr (q, w\<lparr>fs := (fs w)(q \<mapsto>
                        \<lparr>ftype = S_IFREG, perm = m AND NOT (umask w), fuid = euid w,
                         fgid = egid w, bytes = []\<rparr>)\<rparr>)
              | Some f \<Rightarrow> if ftype f = S_IFDIR then Inl EISDIR else Inr (q, w))))"

text \<open>
  \<^verbatim>\<open>read(fd, buf, n)\<close> at offset \<open>off\<close>: up to \<open>n\<close> bytes from the offset on, none at the
  end of the file; reading a directory is \<^verbatim>\<open>EISDIR\<close>. \<^verbatim>\<open>write(fd, buf, r)\<close> at offset
  \<open>off\<close> replaces the bytes from the offset on by all of \<open>buf\<close> and keeps the bytes
  after them. A file that is not a directory is a store of bytes, whatever its type.
\<close>

definition sys_read :: "path \<Rightarrow> nat \<Rightarrow> nat \<Rightarrow> world \<Rightarrow> errno + string" where
  "sys_read fd off n w =
     (case fault w (Sys_read fd off) of
        Some e \<Rightarrow> Inl e
      | None \<Rightarrow>
         (case fs w fd of
            None \<Rightarrow> Inl EBADF
          | Some f \<Rightarrow> if ftype f = S_IFDIR then Inl EISDIR else Inr (take n (drop off (bytes f)))))"

definition sys_write :: "path \<Rightarrow> nat \<Rightarrow> string \<Rightarrow> world \<Rightarrow> errno + world" where
  "sys_write fd off buf w =
     (case fault w (Sys_write fd off) of
        Some e \<Rightarrow> Inl e
      | None \<Rightarrow>
         (case fs w fd of
            None \<Rightarrow> Inl EBADF
          | Some f \<Rightarrow>
             Inr (w\<lparr>fs := (fs w)(fd \<mapsto> f\<lparr>bytes :=
                    take off (bytes f) @ replicate (off - length (bytes f)) (CHR 0x00) @ buf @
                    drop (off + length buf) (bytes f)\<rparr>)\<rparr>)))"

text \<open>
  \<^verbatim>\<open>chmod(p, m)\<close> follows links, so on a symbolic link it changes the file the link
  leads to. Only the owner and the superuser may change the mode. For a caller
  without privileges whose groups do not include the group of a regular file, the
  set-group-ID bit is cleared (POSIX).
\<close>

definition sys_chmod :: "path \<Rightarrow> mode_t \<Rightarrow> world \<Rightarrow> errno + world" where
  "sys_chmod p m w =
     (case fault w (Sys_chmod p) of
        Some e \<Rightarrow> Inl e
      | None \<Rightarrow>
         (case follow SYMLOOP_MAX (fs w) p of
            Inl e \<Rightarrow> Inl e
          | Inr q \<Rightarrow>
             (case fs w q of
                None \<Rightarrow> Inl ENOENT
              | Some f \<Rightarrow>
                 if euid w \<noteq> 0 \<and> euid w \<noteq> fuid f then Inl EPERM
                 else Inr (w\<lparr>fs := (fs w)(q \<mapsto> f\<lparr>perm :=
                        (if euid w \<noteq> 0 \<and> ftype f = S_IFREG \<and> fgid f \<notin> set (egid w # supp_gids w)
                         then (m AND 4095) AND NOT 1024 else m AND 4095)\<rparr>)\<rparr>))))"

text \<open>
  \<^verbatim>\<open>lchown(p, o, g)\<close> does not follow a link at \<open>p\<close>. An id of -1 leaves the owner or
  the group as it is. The superuser may set any owner and group; the owner of the file
  may keep the owner and set the group to one of the caller's groups. A successful call
  on a file that is not a directory clears the set-user-ID bit (\<^verbatim>\<open>04000\<close>, 2048), and
  the set-group-ID bit (\<^verbatim>\<open>02000\<close>, 1024) when the file has the group-execute bit
  (\<^verbatim>\<open>010\<close>, 8), for every caller, the superuser included, and whether or not the ids
  change: this is the rule of Linux (\<^verbatim>\<open>chown(2)\<close>), which the model follows. POSIX asks
  for both bits to be cleared for a caller without privileges and leaves the rest to
  the implementation.
\<close>

definition sys_lchown :: "path \<Rightarrow> uid_t \<Rightarrow> gid_t \<Rightarrow> world \<Rightarrow> errno + world" where
  "sys_lchown p ow gr w =
     (case fault w (Sys_lchown p) of
        Some e \<Rightarrow> Inl e
      | None \<Rightarrow>
         (case lookup_err (fs w) p of
            Some e \<Rightarrow> Inl e
          | None \<Rightarrow>
             (case fs w p of
                None \<Rightarrow> Inl ENOENT
              | Some f \<Rightarrow>
                 let ow' = (if ow = - 1 then fuid f else ow);
                     gr' = (if gr = - 1 then fgid f else gr)
                 in if euid w \<noteq> 0 \<and>
                       (euid w \<noteq> fuid f \<or> ow' \<noteq> fuid f \<or>
                        (gr' \<noteq> fgid f \<and> gr' \<notin> set (egid w # supp_gids w)))
                    then Inl EPERM
                    else Inr (w\<lparr>fs := (fs w)(p \<mapsto> f\<lparr>fuid := ow', fgid := gr', perm :=
                           perm f AND NOT (if ftype f = S_IFDIR then 0
                                           else if perm f AND 8 = 0 then 2048 else 3072)\<rparr>)\<rparr>))))"

text \<open>
  \<^verbatim>\<open>rename(old, new)\<close> replaces what \<open>new\<close> names by the file \<open>old\<close> names, in one
  step, and \<open>old\<close> names nothing afterwards; a directory at \<open>new\<close> is not replaced by a
  file. Renaming a directory would move the names below it: the program never does it
  (its temporary name is a link or a file it has opened for writing), and the model
  refuses it.
\<close>

definition sys_rename :: "path \<Rightarrow> path \<Rightarrow> world \<Rightarrow> errno + world" where
  "sys_rename old new w =
     (case fault w (Sys_rename old new) of
        Some e \<Rightarrow> Inl e
      | None \<Rightarrow>
         (case lookup_err (fs w) old of
            Some e \<Rightarrow> Inl e
          | None \<Rightarrow>
             (case lookup_err (fs w) new of
                Some e \<Rightarrow> Inl e
              | None \<Rightarrow>
                 (case fs w old of
                    None \<Rightarrow> Inl ENOENT
                  | Some f \<Rightarrow>
                     if ftype f = S_IFDIR then Inl EINVAL
                     else if (case fs w new of None \<Rightarrow> False | Some g \<Rightarrow> ftype g = S_IFDIR)
                       then Inl EISDIR
                     else if old = new then Inr w
                     else Inr (w\<lparr>fs := (fs w)(new \<mapsto> f, old := None)\<rparr>)))))"


section \<open>mkparents\<close>

text \<open>
  A C string ends with a NUL character: \<^verbatim>\<open>path[strlen(path)]\<close> is \<^verbatim>\<open>'\0'\<close>.
\<close>

definition char_at :: "string \<Rightarrow> nat \<Rightarrow> char" where
  "char_at s i = (if i < length s then s ! i else CHR 0x00)"

text \<open>
  The loop \<^verbatim>\<open>while (l > 0 && *p != '/') { l--; p--; }\<close>, where \<^verbatim>\<open>p\<close> is \<^verbatim>\<open>path + l\<close>: the
  value of \<^verbatim>\<open>l\<close> when it ends.
\<close>

fun scan_back :: "string \<Rightarrow> nat \<Rightarrow> nat" where
  "scan_back path 0 = 0"
| "scan_back path (Suc l) =
     (if char_at path (Suc l) \<noteq> CHR ''/'' then scan_back path l else Suc l)"

text \<open>
  \<^verbatim>\<open>mkparents(path)\<close> returns 0 or -1 and changes the world. The buffer of \<^verbatim>\<open>l + 1\<close>
  bytes holds the first \<^verbatim>\<open>l\<close> characters of the path. What \<^verbatim>\<open>mkdir(buf, 0777)\<close>
  returns is not looked at. At \<^verbatim>\<open>failure:\<close> the buffer is freed (\<^verbatim>\<open>free(NULL)\<close> does
  nothing when it was \<^verbatim>\<open>malloc\<close> that failed).
\<close>

function mkparents :: "path \<Rightarrow> world \<Rightarrow> int \<times> world" where
  "mkparents path w =
     (let l = scan_back path (length path) in
      if l = 0 then (0, w)
      else (case malloc (l + 1) w of
              None \<Rightarrow> (- 1, w)
            | Some w1 \<Rightarrow>
               (let buf = take l path in
                case mkparents buf w1 of
                  (rc, w2) \<Rightarrow>
                    if rc = - 1 then (- 1, free (l + 1) w2)
                    else (case sys_mkdir buf 511 w2 of
                            Inl e \<Rightarrow> (0, free (l + 1) w2)
                          | Inr w3 \<Rightarrow> (0, free (l + 1) w3)))))"
  by pat_completeness auto
termination
proof (relation "measure (\<lambda>(path, w). length path)", goal_cases)
  case 1
  show ?case by simp
next
  case (2 path w l w1 buf)
  have le: "scan_back p n \<le> n" for p n
    by (induction n) auto
  have sl: "scan_back p n \<noteq> 0 \<Longrightarrow> char_at p (scan_back p n) = CHR ''/''" for p n
    by (induction n) auto
  from 2 have nz: "scan_back path (length path) \<noteq> 0" by simp
  have "scan_back path (length path) \<noteq> length path"
  proof
    assume "scan_back path (length path) = length path"
    with sl [OF nz] show False by (simp add: char_at_def)
  qed
  with le [of path "length path"] have "scan_back path (length path) < length path" by simp
  with 2 show ?case by simp
qed

section \<open>main\<close>

text \<open>
  The copy loop, \<^verbatim>\<open>while ((r = read(src_fd, buf, src_stat.st_blksize)) > 0)\<close>. Both
  descriptors start at offset 0 and each round moves both by \<^verbatim>\<open>r\<close>, so one offset
  stands for the two. The loop ends when \<^verbatim>\<open>read\<close> returns 0 and when it returns -1;
  only \<^verbatim>\<open>write\<close> is checked.
\<close>

function copy_loop :: "path \<Rightarrow> path \<Rightarrow> nat \<Rightarrow> nat \<Rightarrow> world \<Rightarrow> result + world" where
  "copy_loop src_fd tmp_fd off blk w =
     (case sys_read src_fd off blk w of
        Inl e \<Rightarrow> Inr w
      | Inr buf \<Rightarrow>
          if buf = [] then Inr w
          else (case sys_write tmp_fd off buf w of
                  Inl e \<Rightarrow> Inl (fatal ''write(3) failure: %s'' [E e] w)
                | Inr w' \<Rightarrow> copy_loop src_fd tmp_fd (off + length buf) blk w'))"
  by pat_completeness auto
termination
proof (relation "measure (\<lambda>(src_fd, tmp_fd, off, blk, w).
    (case fs w src_fd of None \<Rightarrow> 0 | Some f \<Rightarrow> length (bytes f)) - off)", goal_cases)
  case 1
  show ?case by simp
next
  case (2 src_fd tmp_fd off blk w buf w')
  from 2 obtain f where f: "fs w src_fd = Some f" and buf: "buf = take blk (drop off (bytes f))"
    by (auto simp: sys_read_def split: option.splits if_splits)
  from buf 2 have lt: "off < length (bytes f)" and le: "off + length buf \<le> length (bytes f)"
    by auto
  from 2 obtain g where g: "fs w tmp_fd = Some g"
    and w': "w' = w\<lparr>fs := (fs w)(tmp_fd \<mapsto> g\<lparr>bytes :=
        take off (bytes g) @ replicate (off - length (bytes g)) (CHR 0x00) @ buf @
        drop (off + length buf) (bytes g)\<rparr>)\<rparr>"
    by (auto simp: sys_write_def split: option.splits)
  have "(case fs w' src_fd of None \<Rightarrow> 0 | Some f \<Rightarrow> length (bytes f)) = length (bytes f)"
  proof (cases "tmp_fd = src_fd")
    case True
    with f g have "g = f" by simp
    with True w' lt le show ?thesis by simp
  next
    case False
    with f w' show ?thesis by simp
  qed
  moreover from 2 lt have "length (bytes f) - (off + length buf) < length (bytes f) - off"
    by (cases buf) auto
  ultimately show ?case using f by simp
qed

text \<open>
  Lines 188 to 230 of \<^verbatim>\<open>main\<close>, the copy: \<^verbatim>\<open>lstat\<close> of the source, the two \<^verbatim>\<open>open\<close>
  calls, the buffer of \<^verbatim>\<open>st_blksize\<close> bytes (never freed) and the loop.
\<close>

definition copy_file :: "path \<Rightarrow> path \<Rightarrow> world \<Rightarrow> result + world" where
  "copy_file src_path tmp_path w =
     (case sys_lstat src_path w of
        Inl e \<Rightarrow>
          if e = ENOENT then Inl (fatal ''source does not exist: %s'' [S src_path] w)
          else Inl (fatal ''lstat(3) failure: %s'' [E e] w)
      | Inr src_stat \<Rightarrow>
          if st_mode src_stat \<noteq> S_IFLNK \<and> st_mode src_stat \<noteq> S_IFREG then
            (if st_mode src_stat = S_IFDIR
             then Inl (fatal ''source is a directory: %s'' [S src_path] w)
             else Inl (fatal ''source is not a regular file: %s'' [S src_path] w))
          else
            (case sys_open src_path w of
               Inl e \<Rightarrow> Inl (fatal ''failed to open file: %s (%s)'' [S src_path, E e] w)
             | Inr src_fd \<Rightarrow>
                (case sys_creat tmp_path 384 w of
                   Inl e \<Rightarrow>
                     Inl (fatal ''failed to create temporary file: %s (%s)'' [S tmp_path, E e] w)
                 | Inr (tmp_fd, w1) \<Rightarrow>
                    (case malloc (st_blksize src_stat) w1 of
                       None \<Rightarrow> Inl (fatal ''malloc(3) failure'' [] w1)
                     | Some w2 \<Rightarrow> copy_loop src_fd tmp_fd 0 (st_blksize src_stat) w2))))"

text \<open>Lines 232 to 242 of \<^verbatim>\<open>main\<close>: \<^verbatim>\<open>chmod\<close>, \<^verbatim>\<open>lchown\<close>, \<^verbatim>\<open>rename\<close>, \<^verbatim>\<open>return 0\<close>.\<close>

definition set_attrs_rename :: "opts \<Rightarrow> path \<Rightarrow> path \<Rightarrow> world \<Rightarrow> result" where
  "set_attrs_rename st tmp_path dst_path w =
     (case sys_chmod tmp_path (mode st) w of
        Inl e \<Rightarrow> fatal ''chmod(3) failure: %s'' [E e] w
      | Inr w1 \<Rightarrow>
         (case sys_lchown tmp_path (owner st) (group st) w1 of
            Inl e \<Rightarrow> fatal ''lchown(3) failure: %s'' [E e] w1
          | Inr w2 \<Rightarrow>
             (case sys_rename tmp_path dst_path w2 of
                Inl e \<Rightarrow> fatal ''rename(3) failure: %s'' [E e] w2
              | Inr w3 \<Rightarrow> \<lparr>exit_status = 0, printed = [], final = w3\<rparr>)))"

definition INT_MAX :: nat where
  "INT_MAX = 2 ^ 31 - 1"

text \<open>
  Lines 168 to 242 of \<^verbatim>\<open>main\<close>: the temporary path (its buffer is never freed;
  \<^verbatim>\<open>snprintf\<close> fails only when the text is longer than \<^verbatim>\<open>INT_MAX\<close>), the parent
  directories when \<^verbatim>\<open>-D\<close> was given, the link or the copy, and the attributes. When
  \<^verbatim>\<open>mkparents\<close> returns -1 it was \<^verbatim>\<open>malloc\<close> that failed, and \<^verbatim>\<open>errno\<close> is \<^verbatim>\<open>ENOMEM\<close>.
\<close>

definition install :: "opts \<Rightarrow> path \<Rightarrow> path \<Rightarrow> world \<Rightarrow> result" where
  "install st src_path dst_path w =
     (case malloc (length dst_path + 5) w of
        None \<Rightarrow> fatal ''malloc(3) failure'' [] w
      | Some w1 \<Rightarrow>
         if INT_MAX < length dst_path + 4 then fatal ''snprintf(3) failure: %s'' [E EOVERFLOW] w1
         else
           (let tmp_path = dst_path @ ''.tmp'' in
            case (if mkdirp st then mkparents dst_path w1 else (0, w1)) of
              (rc, w2) \<Rightarrow>
                if mkdirp st \<and> rc = - 1 then
                  fatal ''failed to create directories: %s (%s)'' [S dst_path, E ENOMEM] w2
                else
                  (case (if symbolic st then
                           (case sys_symlink src_path tmp_path w2 of
                              Inl e \<Rightarrow> Inl (fatal ''symlink(3) failure: %s'' [E e] w2)
                            | Inr w3 \<Rightarrow> Inr w3)
                         else copy_file src_path tmp_path w2) of
                     Inl r \<Rightarrow> r
                   | Inr w3 \<Rightarrow> set_attrs_rename st tmp_path dst_path w3)))"

text \<open>
  \<^verbatim>\<open>main(argc, argv)\<close>: the initial values of its variables (\<open>defaults\<close>:
  \<^verbatim>\<open>getuid()\<close>, \<^verbatim>\<open>getgid()\<close>, \<^verbatim>\<open>0755\<close>), the option loop, the two checks after it
  (\<^verbatim>\<open>argc - optind != 2\<close>, \<^verbatim>\<open>mode > 07777\<close>), and the installation. \<^verbatim>\<open>argv[0]\<close> is read
  only by the help text.
\<close>

definition defaults :: "world \<Rightarrow> opts" where
  "defaults w =
     \<lparr>mkdirp = False, symbolic = False, owner = ruid w, group = rgid w, mode = 493\<rparr>"

definition main :: "string list \<Rightarrow> world \<Rightarrow> result" where
  "main argv w =
     (case opts_loop (case argv of [] \<Rightarrow> [] | a # _ \<Rightarrow> a) w (defaults w) [] (tl argv) of
        Inl r \<Rightarrow> r
      | Inr (st, rest) \<Rightarrow>
          if length rest \<noteq> 2 then fatal ''expected arguments: <src> <dst>'' [] w
          else if 4095 < mode st then fatal ''invalid mode: %u'' [U (mode st)] w
          else install st (rest ! 0) (rest ! 1) w)"


section \<open>Notions the statements use\<close>

text \<open>
  \<open>accepted n\<close> runs the first \<open>n\<close> rounds of the option loop: it is the state of
  \<^verbatim>\<open>main\<close> and the position of \<^verbatim>\<open>getopt\<close> after \<open>n\<close> options that the \<^verbatim>\<open>switch\<close> took
  without ending the program, and \<open>None\<close> when the loop or the program ends earlier.
\<close>

fun accepted ::
  "nat \<Rightarrow> string \<Rightarrow> world \<Rightarrow> opts \<Rightarrow> string \<Rightarrow> string list \<Rightarrow> (opts \<times> string \<times> string list) option" where
  "accepted 0 argv0 w st cl args = Some (st, cl, args)"
| "accepted (Suc n) argv0 w st cl args =
     (case getopt cl args of
        (ev, cl', args') \<Rightarrow>
          if ev = G_done then None
          else (case opt_case argv0 w st ev of
                  Inl r \<Rightarrow> None
                | Inr st' \<Rightarrow> accepted n argv0 w st' cl' args'))"




text \<open>A world for the examples: one user, one regular file \<^verbatim>\<open>src\<close> with the bytes \<^verbatim>\<open>ab\<close>.\<close>

definition regular :: "string \<Rightarrow> inode" where
  "regular b = \<lparr>ftype = S_IFREG, perm = 420, fuid = 1000, fgid = 100, bytes = b\<rparr>"

definition world0 :: world where
  "world0 =
     \<lparr>fs = [''src'' \<mapsto> regular ''ab''],
      heap_free = 65536,
      passwd = [''root'' \<mapsto> 0, ''alice'' \<mapsto> 1000],
      groupdb = [''root'' \<mapsto> 0, ''users'' \<mapsto> 100],
      ruid = 1000, rgid = 100, euid = 1000, egid = 100, supp_gids = [],
      umask = 18, blksize = 4096, fault = (\<lambda>_. None), optopt0 = CHR ''?''\<rparr>"

text \<open>
  \<^verbatim>\<open>mkdir(buf, 0777)\<close> as \<^verbatim>\<open>mkparents\<close> calls it, with the result dropped: the world
  after the call, whether it failed or not.
\<close>

definition mkdir_unchecked :: "path \<Rightarrow> world \<Rightarrow> world" where
  "mkdir_unchecked d w = (case sys_mkdir d 511 w of Inl e \<Rightarrow> w | Inr w' \<Rightarrow> w')"

text \<open>
  What the specification says of \<^verbatim>\<open>mkparents\<close>, in its words: the directories of a
  path are the texts before each of its slashes (a slash at the start has the empty
  text before it, which names nothing to create), from the shortest to the longest.
  \<open>heap_need\<close> is the memory the buffers for them take.
\<close>

definition spec_ancestors :: "path \<Rightarrow> path list" where
  "spec_ancestors path =
     map (\<lambda>i. take i path) (filter (\<lambda>i. path ! i = CHR ''/'') [1..<length path])"

definition heap_need :: "path \<Rightarrow> nat" where
  "heap_need path = sum_list (map (\<lambda>d. length d + 1) (spec_ancestors path))"

text \<open>
  The world in which \<^verbatim>\<open>main\<close> starts the link or the copy: the buffer of the temporary
  path is allocated and, with \<^verbatim>\<open>-D\<close>, the directories of the destination have been
  tried in order.
\<close>

definition prepared :: "opts \<Rightarrow> path \<Rightarrow> world \<Rightarrow> world" where
  "prepared st dst w =
     (let w1 = w\<lparr>heap_free := heap_free w - (length dst + 5)\<rparr>
      in if mkdirp st then foldl (\<lambda>w d. mkdir_unchecked d w) w1 (spec_ancestors dst) else w1)"

text \<open>A world in which the working directory cannot be written: \<^verbatim>\<open>mkdir("a")\<close> is denied.\<close>

definition world_noperm :: world where
  "world_noperm =
     world0\<lparr>fault := (\<lambda>c. if c = Sys_mkdir ''a'' then Some EACCES else None)\<rparr>"

text \<open>
  A world in which an earlier run has left a temporary file behind: \<^verbatim>\<open>dst.tmp\<close> holds
  the four bytes \<^verbatim>\<open>wxyz\<close>.
\<close>

definition world_stale :: world where
  "world_stale = world0\<lparr>fs := (fs world0)(''dst.tmp'' \<mapsto> regular ''wxyz'')\<rparr>"

text \<open>Two worlds that differ at most in the bytes of the file named \<open>q\<close>.\<close>

definition same_but :: "path \<Rightarrow> world \<Rightarrow> world \<Rightarrow> bool" where
  "same_but q w w' =
     ((\<exists>t. w' = w\<lparr>fs := t\<rparr>) \<and> (\<forall>p. p \<noteq> q \<longrightarrow> fs w' p = fs w p) \<and>
      (\<forall>g. fs w q = Some g \<longrightarrow> (\<exists>g'. fs w' q = Some g' \<and> g' = g\<lparr>bytes := bytes g'\<rparr>)))"

text \<open>
  The formats of the errors that \<^verbatim>\<open>main\<close> reports after the temporary path has been
  created, and of those it reports before.
\<close>

definition late_formats :: "string list" where
  "late_formats =
     [''malloc(3) failure'', ''write(3) failure: %s'', ''chmod(3) failure: %s'',
      ''lchown(3) failure: %s'', ''rename(3) failure: %s'']"

definition early_formats :: "string list" where
  "early_formats =
     [''source does not exist: %s'', ''lstat(3) failure: %s'', ''source is a directory: %s'',
      ''source is not a regular file: %s'', ''failed to open file: %s (%s)'',
      ''failed to create temporary file: %s (%s)'', ''symlink(3) failure: %s'']"

text \<open>
  The world \<open>w'\<close> differs from \<open>w\<close> at most at the name \<open>tmp\<close>, which names a file that
  is not a symbolic link.
\<close>

definition holds_file :: "path \<Rightarrow> world \<Rightarrow> world \<Rightarrow> bool" where
  "holds_file tmp w w' =
     ((\<forall>p. p \<noteq> tmp \<longrightarrow> fs w' p = fs w p) \<and> (\<exists>g. fs w' tmp = Some g \<and> ftype g \<noteq> S_IFLNK))"

text \<open>Two file systems with the same names, and the same type and bytes at every name.\<close>

definition same_shape :: "(path \<Rightarrow> inode option) \<Rightarrow> (path \<Rightarrow> inode option) \<Rightarrow> bool" where
  "same_shape t t' = (\<forall>p. map_option (\<lambda>f. (ftype f, bytes f)) (t p) = map_option (\<lambda>f. (ftype f, bytes f)) (t' p))"

text \<open>
  The file that \<^verbatim>\<open>open(p, O_RDWR | O_CREAT, 0600)\<close> gives when the name \<open>p\<close> is reached
  without a link: the file that was there, or a new empty one.
\<close>

definition opened :: "world \<Rightarrow> path \<Rightarrow> inode" where
  "opened w p =
     (case fs w p of
        None \<Rightarrow> \<lparr>ftype = S_IFREG, perm = 384 AND NOT (umask w), fuid = euid w, fgid = egid w,
                 bytes = []\<rparr>
      | Some g \<Rightarrow> g)"

text \<open>
  A world in which the source holds the four bytes \<^verbatim>\<open>abcd\<close>, files are read two bytes
  at a time, and the second \<^verbatim>\<open>read\<close> of the source fails with \<^verbatim>\<open>EIO\<close>.
\<close>

definition world_readfail :: world where
  "world_readfail =
     world0\<lparr>fs := (fs world0)(''src'' \<mapsto> regular ''abcd''), blksize := 2,
            fault := (\<lambda>c. if c = Sys_read ''src'' 2 then Some EIO else None)\<rparr>"

text \<open>
  A directory and a symbolic link of the user of \<open>world0\<close>, and a world with a
  directory \<^verbatim>\<open>dir\<close>, a link \<^verbatim>\<open>to_dir\<close> to it, and a link \<^verbatim>\<open>dangling\<close> to a name that does
  not exist.
\<close>

definition directory :: inode where
  "directory = \<lparr>ftype = S_IFDIR, perm = 493, fuid = 1000, fgid = 100, bytes = []\<rparr>"

definition symlink_to :: "string \<Rightarrow> inode" where
  "symlink_to target = \<lparr>ftype = S_IFLNK, perm = 511, fuid = 1000, fgid = 100, bytes = target\<rparr>"

definition world_links :: world where
  "world_links =
     world0\<lparr>fs := (fs world0)(''dir'' \<mapsto> directory, ''to_dir'' \<mapsto> symlink_to ''dir'',
                                 ''dangling'' \<mapsto> symlink_to ''nowhere'')\<rparr>"

text \<open>
  A world in which the destination of a link is already there: the directory \<^verbatim>\<open>bar\<close>
  holds the regular file \<^verbatim>\<open>bar/foo\<close> with mode \<^verbatim>\<open>0644\<close> (420).
\<close>

definition world_bar :: world where
  "world_bar = world0\<lparr>fs := (fs world0)(''bar'' \<mapsto> directory, ''bar/foo'' \<mapsto> regular ''old'')\<rparr>"

declare opts_loop.simps [simp del]
declare dir_err.simps [simp del]
declare mkparents.simps [simp del]
declare copy_loop.simps [simp del]


section \<open>The option loop\<close>

lemma accepted_loop:
  "accepted n argv0 w st cl args = Some (st', cl', args') \<Longrightarrow>
   opts_loop argv0 w st cl args = opts_loop argv0 w st' cl' args'"
proof (induction n arbitrary: st cl args)
  case 0
  then show ?case by simp
next
  case (Suc n)
  obtain ev cl1 args1 where g: "getopt cl args = (ev, cl1, args1)" by (cases "getopt cl args")
  with Suc.prems have nd: "ev \<noteq> G_done" by (auto split: if_splits)
  with g Suc.prems obtain st1 where oc: "opt_case argv0 w st ev = Inr st1"
    and acc: "accepted n argv0 w st1 cl1 args1 = Some (st', cl', args')"
    by (auto split: sum.splits)
  have "opts_loop argv0 w st cl args = opts_loop argv0 w st1 cl1 args1"
    by (subst opts_loop.simps) (simp add: g nd oc)
  with Suc.IH [OF acc] show ?case by simp
qed

lemma main_cons: "main (argv0 # args) w =
     (case opts_loop argv0 w (defaults w) [] args of
        Inl r \<Rightarrow> r
      | Inr (st, rest) \<Rightarrow>
          if length rest \<noteq> 2 then fatal ''expected arguments: <src> <dst>'' [] w
          else if 4095 < mode st then fatal ''invalid mode: %u'' [U (mode st)] w
          else install st (rest ! 0) (rest ! 1) w)"
  by (simp add: main_def)

lemma loop_ends:
  "getopt cl args = (ev, cl', args') \<Longrightarrow> ev \<noteq> G_done \<Longrightarrow> opt_case argv0 w st ev = Inl r \<Longrightarrow>
   opts_loop argv0 w st cl args = Inl r"
  by (subst opts_loop.simps) simp





section \<open>strtoul on strings of digits\<close>






lemmas scan_eval =
  getopt_char_def opt_case_def strtoul_def has_hex_prefix_def digit_of_def isspace_def
  ULONG_MAX_def defaults_def


section \<open>mkparents and the directories of a path\<close>

lemma scan_back_le: "scan_back p n \<le> n"
  by (induction n) auto

lemma scan_back_slash: "scan_back p n \<noteq> 0 \<Longrightarrow> char_at p (scan_back p n) = CHR ''/''"
  by (induction n) auto

lemma scan_back_last: "scan_back p n < i \<Longrightarrow> i \<le> n \<Longrightarrow> char_at p i \<noteq> CHR ''/''"
proof (induction n)
  case 0
  then show ?case by simp
next
  case (Suc n)
  show ?case
  proof (cases "char_at p (Suc n) = CHR ''/''")
    case True
    with Suc.prems show ?thesis by simp
  next
    case False
    show ?thesis
    proof (cases "i = Suc n")
      case True
      with False show ?thesis by simp
    next
      case ne: False
      with Suc.prems False Suc.IH show ?thesis by simp
    qed
  qed
qed

lemma scan_back_lt: "scan_back p (length p) \<noteq> 0 \<Longrightarrow> scan_back p (length p) < length p"
proof -
  assume nz: "scan_back p (length p) \<noteq> 0"
  have "scan_back p (length p) \<noteq> length p"
  proof
    assume "scan_back p (length p) = length p"
    with scan_back_slash [OF nz] show False by (simp add: char_at_def)
  qed
  with scan_back_le [of p "length p"] show ?thesis by simp
qed

lemma slashes_split:
  assumes l: "l = scan_back p (length p)" and nz: "l \<noteq> 0"
  shows "filter (\<lambda>i. p ! i = CHR ''/'') [1..<length p] = filter (\<lambda>i. p ! i = CHR ''/'') [1..<l] @ [l]"
proof -
  from l nz have lt: "l < length p" using scan_back_lt by simp
  from scan_back_slash [of p "length p"] l nz lt have sl: "p ! l = CHR ''/''"
    by (simp add: char_at_def)
  have none: "filter (\<lambda>i. p ! i = CHR ''/'') [Suc l..<length p] = []"
  proof -
    have "p ! i \<noteq> CHR ''/''" if "l < i" "i < length p" for i
      using scan_back_last [of p "length p" i] that l by (simp add: char_at_def)
    then show ?thesis by (auto simp: filter_empty_conv)
  qed
  from nz lt have "[1..<length p] = [1..<l] @ [l] @ [Suc l..<length p]"
    by (metis One_nat_def Suc_leI append_Cons append_Nil le_add1 less_imp_le_nat not_gr_zero
        plus_1_eq_Suc upt_add_eq_append upt_conv_Cons le_iff_add)
  with sl none show ?thesis by simp
qed

lemma spec_ancestors_step:
  assumes l: "l = scan_back p (length p)" and nz: "l \<noteq> 0"
  shows "spec_ancestors p = spec_ancestors (take l p) @ [take l p]"
proof -
  from l nz have lt: "l < length p" using scan_back_lt by simp
  have "map (\<lambda>i. take i p) (filter (\<lambda>i. p ! i = CHR ''/'') [1..<l]) =
        map (\<lambda>i. take i (take l p)) (filter (\<lambda>i. take l p ! i = CHR ''/'') [1..<l])"
    by (rule trans [OF _ map_cong [OF filter_cong [OF refl]]]) (auto simp: min_def)
  with lt show ?thesis
    unfolding spec_ancestors_def slashes_split [OF l nz] by (simp add: min_def)
qed

lemma spec_ancestors_none:
  "scan_back p (length p) = 0 \<Longrightarrow> spec_ancestors p = []"
proof -
  assume z: "scan_back p (length p) = 0"
  have "p ! i \<noteq> CHR ''/''" if "0 < i" "i < length p" for i
    using scan_back_last [of p "length p" i] that z by (simp add: char_at_def)
  then show ?thesis by (auto simp: spec_ancestors_def filter_empty_conv)
qed


lemma sys_mkdir_heap:
  "sys_mkdir d m (w\<lparr>heap_free := h\<rparr>) =
     (case sys_mkdir d m w of Inl e \<Rightarrow> Inl e | Inr w' \<Rightarrow> Inr (w'\<lparr>heap_free := h\<rparr>))"
  by (simp add: sys_mkdir_def split: option.splits)

lemma mkdir_unchecked_heap:
  "mkdir_unchecked d (w\<lparr>heap_free := h\<rparr>) = (mkdir_unchecked d w)\<lparr>heap_free := h\<rparr>"
  by (simp add: mkdir_unchecked_def sys_mkdir_heap split: sum.splits)

lemma mkdir_unchecked_heap_free: "heap_free (mkdir_unchecked d w) = heap_free w"
  by (auto simp: mkdir_unchecked_def sys_mkdir_def split: sum.splits option.splits if_splits)

lemma mkdirs_heap:
  "foldl (\<lambda>w d. mkdir_unchecked d w) (w\<lparr>heap_free := h\<rparr>) ds =
   (foldl (\<lambda>w d. mkdir_unchecked d w) w ds)\<lparr>heap_free := h\<rparr>"
  by (induction ds arbitrary: w) (simp_all add: mkdir_unchecked_heap)

lemma mkdirs_heap_free: "heap_free (foldl (\<lambda>w d. mkdir_unchecked d w) w ds) = heap_free w"
  by (induction ds arbitrary: w) (simp_all add: mkdir_unchecked_heap_free)

lemma mkparents_unfold:
  "mkparents path w =
     (let l = scan_back path (length path) in
      if l = 0 then (0, w)
      else (case malloc (l + 1) w of
              None \<Rightarrow> (- 1, w)
            | Some w1 \<Rightarrow>
               (case mkparents (take l path) w1 of
                  (rc, w2) \<Rightarrow>
                    if rc = - 1 then (- 1, free (l + 1) w2)
                    else (0, free (l + 1) (mkdir_unchecked (take l path) w2)))))"
  by (subst mkparents.simps)
     (simp add: mkdir_unchecked_def Let_def split: sum.splits prod.splits option.splits)

lemma mkparents_eq:
  "mkparents path w =
     (if heap_need path \<le> heap_free w
      then (0, foldl (\<lambda>w d. mkdir_unchecked d w) w (spec_ancestors path))
      else (- 1, w))"
proof (induction path w rule: mkparents.induct)
  case (1 path w)
  define l where "l = scan_back path (length path)"
  show ?case
  proof (cases "l = 0")
    case True
    with l_def have "spec_ancestors path = []" by (simp add: spec_ancestors_none)
    with True l_def show ?thesis
      by (subst mkparents_unfold) (simp add: heap_need_def)
  next
    case False
    note anc = spec_ancestors_step [OF l_def False]
    have need: "heap_need path = heap_need (take l path) + (l + 1)"
      using scan_back_lt [of path] False l_def by (simp add: heap_need_def anc min_def)
    show ?thesis
    proof (cases "l + 1 \<le> heap_free w")
      case no_room: False
      with False l_def need show ?thesis
        by (subst mkparents_unfold) (simp add: malloc_def)
    next
      case True
      define w1 where "w1 = w\<lparr>heap_free := heap_free w - (l + 1)\<rparr>"
      from True have m: "malloc (l + 1) w = Some w1" by (simp add: malloc_def w1_def)
      note IH = "1.IH" [OF l_def False m refl]
      have hf: "heap_free w1 = heap_free w - (l + 1)" by (simp add: w1_def)
      show ?thesis
      proof (cases "heap_need (take l path) \<le> heap_free w1")
        case enough: True
        with True hf need have tot: "heap_need path \<le> heap_free w" by simp
        let ?ws = "foldl (\<lambda>w d. mkdir_unchecked d w) w (spec_ancestors (take l path))"
        have w2: "mkparents (take l path) w1 = (0, ?ws\<lparr>heap_free := heap_free w - (l + 1)\<rparr>)"
          using IH enough by (simp add: w1_def mkdirs_heap)
        have restored: "free (l + 1) ((mkdir_unchecked (take l path) ?ws)\<lparr>heap_free := heap_free w - (l + 1)\<rparr>) =
            mkdir_unchecked (take l path) ?ws"
          using True by (simp add: free_def mkdir_unchecked_heap_free mkdirs_heap_free)
        have "mkparents path w = (0, mkdir_unchecked (take l path) ?ws)"
          using False l_def m w2 restored
          by (subst mkparents_unfold) (simp add: Let_def mkdir_unchecked_heap)
        with tot anc show ?thesis by simp
      next
        case short: False
        with True hf need have tot: "\<not> heap_need path \<le> heap_free w" by simp
        have w2: "mkparents (take l path) w1 = (- 1, w1)"
          using IH short by simp
        have "free (l + 1) w1 = w" using True by (simp add: free_def w1_def)
        with False l_def m w2 tot show ?thesis
          by (subst mkparents_unfold) (simp add: Let_def)
      qed
    qed
  qed
qed


lemma no_slash_scan: "CHR ''/'' \<notin> set p \<Longrightarrow> scan_back p n = 0"
  by (induction n) (auto simp: char_at_def in_set_conv_nth)

lemma ancestors_order:
  "k < length (spec_ancestors p) \<Longrightarrow>
   spec_ancestors (spec_ancestors p ! k) = take k (spec_ancestors p)"
proof (induction p arbitrary: k rule: length_induct)
  case (1 p)
  define l where "l = scan_back p (length p)"
  show ?case
  proof (cases "l = 0")
    case True
    with l_def "1.prems" show ?thesis by (simp add: spec_ancestors_none)
  next
    case False
    note anc = spec_ancestors_step [OF l_def False]
    from False l_def have lt: "length (take l p) < length p"
      using scan_back_lt [of p] by simp
    show ?thesis
    proof (cases "k < length (spec_ancestors (take l p))")
      case True
      with "1.IH" lt have "spec_ancestors (spec_ancestors (take l p) ! k) =
          take k (spec_ancestors (take l p))" by blast
      with True anc show ?thesis by (simp add: nth_append)
    next
      case False
      with "1.prems" anc have "k = length (spec_ancestors (take l p))" by simp
      with anc show ?thesis by (simp add: nth_append)
    qed
  qed
qed

lemma ancestors_last:
  assumes "spec_ancestors p \<noteq> []"
  shows "\<exists>base. p = last (spec_ancestors p) @ CHR ''/'' # base \<and> CHR ''/'' \<notin> set base"
proof -
  define l where "l = scan_back p (length p)"
  from assms l_def have nz: "l \<noteq> 0" using spec_ancestors_none by auto
  from nz l_def have lt: "l < length p" using scan_back_lt by simp
  from scan_back_slash [of p "length p"] l_def nz lt have sl: "p ! l = CHR ''/''"
    by (simp add: char_at_def)
  have tail: "CHR ''/'' \<notin> set (drop (Suc l) p)"
  proof
    assume "CHR ''/'' \<in> set (drop (Suc l) p)"
    then obtain j where j: "j < length (drop (Suc l) p)" "drop (Suc l) p ! j = CHR ''/''"
      by (auto simp: in_set_conv_nth)
    then have in_range: "Suc l + j < length p" and at: "p ! (Suc l + j) = CHR ''/''"
      by simp_all
    have "char_at p (Suc l + j) \<noteq> CHR ''/''"
      by (rule scan_back_last [of p "length p"]) (use in_range l_def in simp_all)
    with in_range at show False by (simp add: char_at_def)
  qed
  from lt sl have "p = take l p @ CHR ''/'' # drop (Suc l) p"
    by (metis id_take_nth_drop)
  with spec_ancestors_step [OF l_def nz] tail show ?thesis by auto
qed

section \<open>The way through main\<close>

lemma main_parsed:
  "opts_loop argv0 w (defaults w) [] args = Inr (st, [src, dst]) \<Longrightarrow> mode st \<le> 4095 \<Longrightarrow>
   main (argv0 # args) w = install st src dst w"
  by (simp add: main_cons not_less [symmetric])

lemma install_eq:
  assumes heap: "length dst + 5 + (if mkdirp st then heap_need dst else 0) \<le> heap_free w"
    and len: "length dst + 4 \<le> INT_MAX"
  shows "install st src dst w =
     (case (if symbolic st then
              (case sys_symlink src (dst @ ''.tmp'') (prepared st dst w) of
                 Inl e \<Rightarrow> Inl (fatal ''symlink(3) failure: %s'' [E e] (prepared st dst w))
               | Inr w3 \<Rightarrow> Inr w3)
            else copy_file src (dst @ ''.tmp'') (prepared st dst w)) of
        Inl r \<Rightarrow> r
      | Inr w3 \<Rightarrow> set_attrs_rename st (dst @ ''.tmp'') dst w3)"
proof -
  define w1 where "w1 = w\<lparr>heap_free := heap_free w - (length dst + 5)\<rparr>"
  from heap have m: "malloc (length dst + 5) w = Some w1" by (simp add: malloc_def w1_def)
  have mk: "(if mkdirp st then mkparents dst w1 else (0, w1)) = (0, prepared st dst w)"
    using heap by (cases "mkdirp st") (simp_all add: mkparents_eq prepared_def w1_def)
  show ?thesis
    unfolding install_def using m mk len by (simp add: not_less [symmetric] Let_def)
qed

lemma mkdir_unchecked_fs:
  "fs (mkdir_unchecked d w) p = fs w p \<or> (p = d \<and> fs w p = None)"
  by (auto simp: mkdir_unchecked_def sys_mkdir_def split: sum.splits option.splits if_splits)

lemma mkdirs_fs:
  "fs (foldl (\<lambda>w d. mkdir_unchecked d w) w ds) p = fs w p \<or> (p \<in> set ds \<and> fs w p = None)"
proof (induction ds arbitrary: w)
  case Nil
  then show ?case by simp
next
  case (Cons d ds)
  from Cons.IH [of "mkdir_unchecked d w"] mkdir_unchecked_fs [of d w p]
  show ?case by auto
qed

lemma mkdir_unchecked_only_fs: "mkdir_unchecked d w = w\<lparr>fs := fs (mkdir_unchecked d w)\<rparr>"
  by (auto simp: mkdir_unchecked_def sys_mkdir_def split: sum.splits option.splits if_splits)

lemma mkdirs_only_fs:
  "foldl (\<lambda>w d. mkdir_unchecked d w) w ds = w\<lparr>fs := fs (foldl (\<lambda>w d. mkdir_unchecked d w) w ds)\<rparr>"
proof (induction ds arbitrary: w)
  case Nil
  then show ?case by simp
next
  case (Cons d ds)
  have "foldl (\<lambda>w d. mkdir_unchecked d w) (mkdir_unchecked d w) ds =
      (mkdir_unchecked d w)\<lparr>fs := fs (foldl (\<lambda>w d. mkdir_unchecked d w) (mkdir_unchecked d w) ds)\<rparr>"
    by (rule Cons.IH)
  also have "\<dots> = w\<lparr>fs := fs (foldl (\<lambda>w d. mkdir_unchecked d w) (mkdir_unchecked d w) ds)\<rparr>"
    by (subst mkdir_unchecked_only_fs) simp
  finally show ?case by simp
qed

lemma prepared_only:
  "prepared st dst w =
     w\<lparr>fs := fs (prepared st dst w), heap_free := heap_free w - (length dst + 5)\<rparr>"
proof (cases "mkdirp st")
  case True
  then show ?thesis
    unfolding prepared_def Let_def
    by (subst mkdirs_only_fs) (simp add: mkdirs_heap_free)
next
  case False
  then show ?thesis by (simp add: prepared_def)
qed

lemma prepared_env:
  "fault (prepared st dst w) = fault w" "blksize (prepared st dst w) = blksize w"
  "euid (prepared st dst w) = euid w" "egid (prepared st dst w) = egid w"
  "supp_gids (prepared st dst w) = supp_gids w" "umask (prepared st dst w) = umask w"
  "heap_free (prepared st dst w) = heap_free w - (length dst + 5)"
  by (subst prepared_only, simp)+

lemma ancestors_shorter: "d \<in> set (spec_ancestors p) \<Longrightarrow> length d < length p"
  by (auto simp: spec_ancestors_def)

lemma prepared_fs:
  "fs (prepared st dst w) p = fs w p \<or> (length p < length dst \<and> fs w p = None)"
  using mkdirs_fs [of "w\<lparr>heap_free := heap_free w - (length dst + 5)\<rparr>" "spec_ancestors dst" p]
    ancestors_shorter [of p dst]
  by (auto simp: prepared_def Let_def)

lemma prepared_dst: "fs (prepared st dst w) dst = fs w dst"
  using prepared_fs [of st dst w dst] by simp

lemma prepared_tmp: "fs (prepared st dst w) (dst @ ''.tmp'') = fs w (dst @ ''.tmp'')"
  using prepared_fs [of st dst w "dst @ ''.tmp''"] by simp

lemma mkdir_unchecked_dir:
  "fs (mkdir_unchecked d w) p = fs w p \<or>
   (p = d \<and> fs w p = None \<and> map_option ftype (fs (mkdir_unchecked d w) p) = Some S_IFDIR)"
  by (auto simp: mkdir_unchecked_def sys_mkdir_def split: sum.splits option.splits if_splits)

lemma mkdirs_dir:
  "fs (foldl (\<lambda>w d. mkdir_unchecked d w) w ds) p = fs w p \<or>
   (p \<in> set ds \<and> fs w p = None \<and>
    map_option ftype (fs (foldl (\<lambda>w d. mkdir_unchecked d w) w ds) p) = Some S_IFDIR)"
proof (induction ds arbitrary: w)
  case Nil
  then show ?case by simp
next
  case (Cons d ds)
  from Cons.IH [of "mkdir_unchecked d w"] mkdir_unchecked_dir [of d w p]
  show ?case by auto
qed

lemma prepared_changes:
  "fs (prepared st dst w) p = fs w p \<or>
   (mkdirp st \<and> fs w p = None \<and> p \<in> set (spec_ancestors dst) \<and>
    map_option ftype (fs (prepared st dst w) p) = Some S_IFDIR)"
  using mkdirs_dir [of "w\<lparr>heap_free := heap_free w - (length dst + 5)\<rparr>" "spec_ancestors dst" p]
  by (auto simp: prepared_def Let_def)

lemma follow_numeral:
  "follow (numeral k) t p =
     (case lookup_err t p of
        Some e \<Rightarrow> Inl e
      | None \<Rightarrow>
         (case t p of
            None \<Rightarrow> Inr p
          | Some f \<Rightarrow>
             if ftype f = S_IFLNK then follow (pred_numeral k) t (link_target p (bytes f))
             else Inr p))"
  by (simp add: numeral_eq_Suc)

lemmas fs_eval =
  sys_mkdir_def sys_symlink_def sys_lstat_def sys_open_def sys_creat_def sys_read_def
  sys_write_def sys_chmod_def sys_lchown_def sys_rename_def lookup_err_def dir_err.simps
  parent_dir_def dir_len_def link_target_def SYMLOOP_MAX_def follow_numeral malloc_def free_def

lemmas run_eval =
  copy_file_def set_attrs_rename_def copy_loop.simps INT_MAX_def fs_eval prepared_def
  mkdir_unchecked_def heap_need_def spec_ancestors_def Let_def fatal_def



section \<open>What the system calls change\<close>

lemma same_but_refl: "same_but q w w"
  by (auto simp: same_but_def intro: exI [of _ "fs w"])

lemma same_but_trans: "same_but q w w' \<Longrightarrow> same_but q w' w'' \<Longrightarrow> same_but q w w''"
  unfolding same_but_def
  apply (elim conjE exE)
  apply (intro conjI)
    apply (metis world.surjective world.update_convs(1))
   apply simp
  apply (metis inode.surjective inode.update_convs(5))
  done

lemma sys_write_same_but: "sys_write q off buf w = Inr w' \<Longrightarrow> same_but q w w'"
  by (auto simp: sys_write_def same_but_def split: option.splits)

lemma sys_write_exists: "sys_write q off buf w = Inr w' \<Longrightarrow> fs w q \<noteq> None"
  by (auto simp: sys_write_def split: option.splits)

lemma copy_loop_frame:
  "(copy_loop q q' off blk w = Inr w' \<longrightarrow> same_but q' w w') \<and>
   (copy_loop q q' off blk w = Inl r \<longrightarrow>
      (\<exists>e w'. r = fatal ''write(3) failure: %s'' [E e] w' \<and> same_but q' w w'))"
proof (induction q q' off blk w rule: copy_loop.induct)
  case (1 src_fd tmp_fd off blk w)
  show ?case
  proof (cases "sys_read src_fd off blk w")
    case (Inl e)
    then show ?thesis by (subst (1 2) copy_loop.simps) (simp add: same_but_refl)
  next
    case (Inr buf)
    note rd = Inr
    show ?thesis
    proof (cases "buf = []")
      case True
      with rd show ?thesis by (subst (1 2) copy_loop.simps) (simp add: same_but_refl)
    next
      case False
      show ?thesis
      proof (cases "sys_write tmp_fd off buf w")
        case (Inl e)
        have "copy_loop src_fd tmp_fd off blk w = Inl (fatal ''write(3) failure: %s'' [E e] w)"
          using rd False Inl by (subst copy_loop.simps) simp
        then show ?thesis using same_but_refl [of tmp_fd w] by auto
      next
        case (Inr w1)
        note IH = "1.IH" [OF rd False Inr]
        have sb: "same_but tmp_fd w w1" by (rule sys_write_same_but [OF Inr])
        have eq: "copy_loop src_fd tmp_fd off blk w = copy_loop src_fd tmp_fd (off + length buf) blk w1"
          using rd False Inr by (subst copy_loop.simps) simp
        show ?thesis
          unfolding eq using IH sb by (auto intro: same_but_trans)
      qed
    qed
  qed
qed

lemma mode_and_4095: "(m::mode_t) \<le> 4095 \<Longrightarrow> m AND 4095 = m"
proof -
  assume "m \<le> 4095"
  then have lt: "uint m < 2 ^ 12" by (simp add: word_le_def)
  have m12: "(4095 :: mode_t) = mask 12" by (simp add: mask_eq_exp_minus_1)
  from lt show ?thesis unfolding m12 by (simp add: mask_eq_iff)
qed

lemma mode_and_not: "(m::mode_t) AND x = 0 \<Longrightarrow> m AND NOT x = m"
  by (metis (no_types, lifting) bit.conj_disj_distrib bit.de_Morgan_disj
    or.right_neutral word_and_not word_not_not)

lemma mode_no_setgid: "(m::mode_t) AND 3072 = 0 \<Longrightarrow> m AND 1024 = 0"
proof -
  assume a: "m AND 3072 = 0"
  have "(3072 :: mode_t) AND 1024 = 1024" by simp
  then have "m AND 1024 = (m AND 3072) AND 1024" by (simp add: and.assoc)
  with a show ?thesis by simp
qed

lemma chmod_bits:
  "(m::mode_t) \<le> 4095 \<Longrightarrow> m AND 3072 = 0 \<Longrightarrow>
   (if c then (m AND 4095) AND NOT 1024 else m AND 4095) = m"
  using mode_and_not [OF mode_no_setgid, of m] by (simp only: mode_and_4095 if_cancel)

lemma mode_no_setuid: "(m::mode_t) AND 3072 = 0 \<Longrightarrow> m AND 2048 = 0"
proof -
  assume a: "m AND 3072 = 0"
  have "(3072 :: mode_t) AND 2048 = 2048" by simp
  then have "m AND 2048 = (m AND 3072) AND 2048" by (simp add: and.assoc)
  with a show ?thesis by simp
qed

lemma chown_bits:
  assumes "(m::mode_t) AND 3072 = 0"
  shows "m AND NOT (if d then 0 else if x then 2048 else 3072) = m"
proof -
  have a: "m AND NOT 2048 = m" by (rule mode_and_not [OF mode_no_setuid [OF assms]])
  have b: "m AND NOT 3072 = m" by (rule mode_and_not [OF assms])
  have c: "m AND NOT 0 = m" by simp
  show ?thesis
  proof (cases d)
    case True
    then show ?thesis by (simp only: if_True c)
  next
    case False
    then show ?thesis by (cases x) (simp_all only: if_True if_False a b)
  qed
qed

lemma follow_plain:
  assumes "\<forall>g. t p = Some g \<longrightarrow> ftype g \<noteq> S_IFLNK"
  shows "follow SYMLOOP_MAX t p = (case lookup_err t p of Some e \<Rightarrow> Inl e | None \<Rightarrow> Inr p)"
proof -
  have "follow SYMLOOP_MAX t p = follow (Suc 39) t p" by (simp add: SYMLOOP_MAX_def)
  also have "\<dots> = (case lookup_err t p of Some e \<Rightarrow> Inl e | None \<Rightarrow> Inr p)"
    using assms by (simp only: follow.simps) (auto split: option.splits)
  finally show ?thesis .
qed

lemma sys_chmod_plain:
  assumes g: "fs w p = Some g" and nl: "ftype g \<noteq> S_IFLNK"
  shows "(\<exists>e. sys_chmod p m w = Inl e) \<or>
     (\<exists>g'. sys_chmod p m w = Inr (w\<lparr>fs := (fs w)(p \<mapsto> g')\<rparr>) \<and>
        bytes g' = bytes g \<and> ftype g' = ftype g \<and> fuid g' = fuid g \<and> fgid g' = fgid g \<and>
        (m \<le> 4095 \<and> m AND 3072 = 0 \<longrightarrow> perm g' = m))"
proof -
  have fo: "follow SYMLOOP_MAX (fs w) p = (case lookup_err (fs w) p of Some e \<Rightarrow> Inl e | None \<Rightarrow> Inr p)"
    by (rule follow_plain) (use g nl in simp)
  define c where "c \<longleftrightarrow> euid w \<noteq> 0 \<and> ftype g = S_IFREG \<and> fgid g \<notin> set (egid w # supp_gids w)"
  define g' where "g' = g\<lparr>perm := (if c then (m AND 4095) AND NOT 1024 else m AND 4095)\<rparr>"
  have props: "bytes g' = bytes g \<and> ftype g' = ftype g \<and> fuid g' = fuid g \<and> fgid g' = fgid g \<and>
        (m \<le> 4095 \<and> m AND 3072 = 0 \<longrightarrow> perm g' = m)"
    unfolding g'_def using chmod_bits [of m c] by (simp del: bit.conj_cancel_right)
  have "(\<exists>e. sys_chmod p m w = Inl e) \<or> sys_chmod p m w = Inr (w\<lparr>fs := (fs w)(p \<mapsto> g')\<rparr>)"
    unfolding sys_chmod_def fo g'_def c_def using g
    by (simp split: option.splits)
  with props show ?thesis by blast
qed

lemma sys_lchown_any:
  assumes g: "fs w p = Some g"
  shows "(\<exists>e. sys_lchown p ow gr w = Inl e) \<or>
     (\<exists>g'. sys_lchown p ow gr w = Inr (w\<lparr>fs := (fs w)(p \<mapsto> g')\<rparr>) \<and>
        bytes g' = bytes g \<and> ftype g' = ftype g \<and>
        fuid g' = (if ow = - 1 then fuid g else ow) \<and>
        fgid g' = (if gr = - 1 then fgid g else gr) \<and>
        (perm g AND 3072 = 0 \<longrightarrow> perm g' = perm g))"
proof -
  define k :: mode_t where
    "k = (if ftype g = S_IFDIR then 0 else if perm g AND 8 = 0 then 2048 else 3072)"
  define g' where "g' = g\<lparr>fuid := (if ow = - 1 then fuid g else ow),
      fgid := (if gr = - 1 then fgid g else gr),
      perm := perm g AND NOT k\<rparr>"
  have props: "bytes g' = bytes g \<and> ftype g' = ftype g \<and>
        fuid g' = (if ow = - 1 then fuid g else ow) \<and>
        fgid g' = (if gr = - 1 then fgid g else gr) \<and>
        (perm g AND 3072 = 0 \<longrightarrow> perm g' = perm g)"
    unfolding g'_def k_def
    using chown_bits [of "perm g" "ftype g = S_IFDIR" "perm g AND 8 = 0"] by simp
  have eq: "sys_lchown p ow gr w =
        (if euid w \<noteq> 0 \<and>
            (euid w \<noteq> fuid g \<or> (if ow = - 1 then fuid g else ow) \<noteq> fuid g \<or>
             ((if gr = - 1 then fgid g else gr) \<noteq> fgid g \<and>
              (if gr = - 1 then fgid g else gr) \<notin> set (egid w # supp_gids w)))
         then Inl EPERM
         else Inr (w\<lparr>fs := (fs w)(p \<mapsto> g')\<rparr>))"
    if "fault w (Sys_lchown p) = None" "lookup_err (fs w) p = None"
    using that unfolding g'_def k_def
    by (simp add: sys_lchown_def g Let_def split del: if_split)
  have "(\<exists>e. sys_lchown p ow gr w = Inl e) \<or> sys_lchown p ow gr w = Inr (w\<lparr>fs := (fs w)(p \<mapsto> g')\<rparr>)"
  proof (cases "fault w (Sys_lchown p)")
    case (Some e)
    then show ?thesis by (simp add: sys_lchown_def)
  next
    case None
    note nf = None
    show ?thesis
    proof (cases "lookup_err (fs w) p")
      case (Some e)
      with nf show ?thesis by (simp add: sys_lchown_def)
    next
      case None
      have either: "(\<exists>e. (if c then Inl a else Inr x) = Inl e) \<or> (if c then Inl a else Inr x) = Inr x"
        for c and a :: errno and x :: world
        by simp
      show ?thesis unfolding eq [OF nf None] by (rule either)
    qed
  qed
  with props show ?thesis by blast
qed

lemma sys_rename_any:
  assumes g: "fs w old = Some g" and ne: "old \<noteq> new"
  shows "(\<exists>e. sys_rename old new w = Inl e) \<or>
     sys_rename old new w = Inr (w\<lparr>fs := (fs w)(new \<mapsto> g, old := None)\<rparr>)"
  unfolding sys_rename_def using g ne
  by (auto split: option.splits)

lemma fatal_simps:
  "exit_status (fatal fmt a w) = 1" "final (fatal fmt a w) = w"
  "printed (fatal fmt a w) = [Stderr (take 4095 (''fatal: '' @ fmt @ ''\<newline>'')) a]"
  by (simp_all add: fatal_def)

lemma set_attrs_rename_outcome:
  assumes g: "fs w tmp = Some g" and nl: "ftype g \<noteq> S_IFLNK" and ne: "tmp \<noteq> dst"
  shows "(\<exists>fmt a w'. set_attrs_rename st tmp dst w = fatal fmt a w' \<and> fmt \<in> set late_formats \<and>
            fs w' tmp \<noteq> None \<and> fs w' dst = fs w dst) \<or>
         (\<exists>w' h. set_attrs_rename st tmp dst w = \<lparr>exit_status = 0, printed = [], final = w'\<rparr> \<and>
            fs w' tmp = None \<and> fs w' dst = Some h \<and> bytes h = bytes g \<and> ftype h = ftype g \<and>
            fuid h = (if owner st = - 1 then fuid g else owner st) \<and>
            fgid h = (if group st = - 1 then fgid g else group st) \<and>
            (mode st \<le> 4095 \<and> mode st AND 3072 = 0 \<longrightarrow> perm h = mode st))"
proof -
  have fail_case: ?thesis
    if "set_attrs_rename st tmp dst w = fatal fmt a w'" "fmt \<in> set late_formats"
      "fs w' tmp \<noteq> None" "fs w' dst = fs w dst" for fmt a w'
    using that by blast
  from sys_chmod_plain [OF g nl, where m = "mode st"] consider
    (fail) e where "sys_chmod tmp (mode st) w = Inl e"
    | (ok) g1 where "sys_chmod tmp (mode st) w = Inr (w\<lparr>fs := (fs w)(tmp \<mapsto> g1)\<rparr>)"
      "bytes g1 = bytes g" "ftype g1 = ftype g" "fuid g1 = fuid g" "fgid g1 = fgid g"
      "mode st \<le> 4095 \<and> mode st AND 3072 = 0 \<longrightarrow> perm g1 = mode st"
    by blast
  then show ?thesis
  proof cases
    case fail
    then have "set_attrs_rename st tmp dst w = fatal ''chmod(3) failure: %s'' [E e] w"
      by (simp add: set_attrs_rename_def)
    then show ?thesis by (rule fail_case) (simp_all add: late_formats_def g)
  next
    case ok
    let ?w1 = "w\<lparr>fs := (fs w)(tmp \<mapsto> g1)\<rparr>"
    have g1: "fs ?w1 tmp = Some g1" by simp
    from sys_lchown_any [OF g1, where ow = "owner st" and gr = "group st"] consider
      (fail2) e where "sys_lchown tmp (owner st) (group st) ?w1 = Inl e"
      | (ok2) g2 where "sys_lchown tmp (owner st) (group st) ?w1 = Inr (?w1\<lparr>fs := (fs ?w1)(tmp \<mapsto> g2)\<rparr>)"
        "bytes g2 = bytes g1" "ftype g2 = ftype g1"
        "fuid g2 = (if owner st = - 1 then fuid g1 else owner st)"
        "fgid g2 = (if group st = - 1 then fgid g1 else group st)"
        "perm g1 AND 3072 = 0 \<longrightarrow> perm g2 = perm g1"
      by blast
    then show ?thesis
    proof cases
      case fail2
      with ok have "set_attrs_rename st tmp dst w = fatal ''lchown(3) failure: %s'' [E e] ?w1"
        by (simp add: set_attrs_rename_def)
      then show ?thesis by (rule fail_case) (use ne in \<open>simp_all add: late_formats_def\<close>)
    next
      case ok2
      let ?w2 = "?w1\<lparr>fs := (fs ?w1)(tmp \<mapsto> g2)\<rparr>"
      have g2: "fs ?w2 tmp = Some g2" by simp
      from sys_rename_any [OF g2 ne] consider
        (fail3) e where "sys_rename tmp dst ?w2 = Inl e"
        | (ok3) "sys_rename tmp dst ?w2 = Inr (?w2\<lparr>fs := (fs ?w2)(dst \<mapsto> g2, tmp := None)\<rparr>)"
        by blast
      then show ?thesis
      proof cases
        case fail3
        with ok ok2 have "set_attrs_rename st tmp dst w = fatal ''rename(3) failure: %s'' [E e] ?w2"
          by (simp add: set_attrs_rename_def)
        then show ?thesis by (rule fail_case) (use ne in \<open>simp_all add: late_formats_def\<close>)
      next
        case ok3
        let ?w3 = "?w2\<lparr>fs := (fs ?w2)(dst \<mapsto> g2, tmp := None)\<rparr>"
        from ok ok2 ok3 have "set_attrs_rename st tmp dst w =
            \<lparr>exit_status = 0, printed = [], final = ?w3\<rparr>"
          by (simp add: set_attrs_rename_def)
        moreover have "fs ?w3 tmp = None" "fs ?w3 dst = Some g2" using ne by simp_all
        moreover have "bytes g2 = bytes g" "ftype g2 = ftype g"
          "fuid g2 = (if owner st = - 1 then fuid g else owner st)"
          "fgid g2 = (if group st = - 1 then fgid g else group st)"
          using ok ok2 by simp_all
        moreover have "mode st \<le> 4095 \<and> mode st AND 3072 = 0 \<longrightarrow> perm g2 = mode st"
          using ok(6) ok2(6) by auto
        ultimately show ?thesis by blast
      qed
    qed
  qed
qed

lemma early_not_late:
  "printed (fatal fmt1 a1 w1) = [Stderr (take 4095 (''fatal: '' @ fmt @ ''\<newline>'')) a] \<Longrightarrow>
   fmt1 \<in> set early_formats \<Longrightarrow> fmt \<in> set late_formats \<Longrightarrow> False"
  by (auto simp: fatal_def early_formats_def late_formats_def)

lemma sys_creat_plain:
  assumes plain: "\<forall>g. fs w tmp = Some g \<longrightarrow> ftype g \<noteq> S_IFLNK"
  shows "(\<exists>e. sys_creat tmp m w = Inl e) \<or>
         (\<exists>w'. sys_creat tmp m w = Inr (tmp, w') \<and> holds_file tmp w w')"
proof -
  have fo: "follow SYMLOOP_MAX (fs w) tmp =
      (case lookup_err (fs w) tmp of Some e \<Rightarrow> Inl e | None \<Rightarrow> Inr tmp)"
    by (rule follow_plain [of "fs w" tmp]) (rule plain)
  show ?thesis
  proof (cases "fs w tmp")
    case None
    then show ?thesis
      unfolding sys_creat_def fo
      by (auto simp: holds_file_def split: option.splits)
  next
    case (Some g)
    with plain have "ftype g \<noteq> S_IFLNK" by simp
    then show ?thesis
      unfolding sys_creat_def fo using Some
      by (auto simp: holds_file_def split: option.splits)
  qed
qed

lemma same_but_holds:
  "holds_file tmp w w1 \<Longrightarrow> same_but tmp w1 w2 \<Longrightarrow> holds_file tmp w w2"
  unfolding holds_file_def same_but_def
  by (metis inode.select_convs(1) inode.surjective inode.update_convs(5))

lemma copy_file_outcome:
  assumes plain: "\<forall>g. fs w tmp = Some g \<longrightarrow> ftype g \<noteq> S_IFLNK"
  shows
   "(\<exists>fmt a. copy_file src tmp w = Inl (fatal fmt a w) \<and> fmt \<in> set early_formats) \<or>
    (\<exists>fmt a w'. copy_file src tmp w = Inl (fatal fmt a w') \<and> fmt \<in> set late_formats \<and>
        holds_file tmp w w') \<or>
    (\<exists>w'. copy_file src tmp w = Inr w' \<and> holds_file tmp w w')"
proof -
  have early: ?thesis if "copy_file src tmp w = Inl (fatal fmt a w)" "fmt \<in> set early_formats" for fmt a
    using that by blast
  have late: ?thesis if "copy_file src tmp w = Inl (fatal fmt a w')" "fmt \<in> set late_formats"
      "holds_file tmp w w'" for fmt a w'
    using that by blast
  show ?thesis
  proof (cases "sys_lstat src w")
    case (Inl e)
    show ?thesis
    proof (cases "e = ENOENT")
      case True
      with Inl have "copy_file src tmp w = Inl (fatal ''source does not exist: %s'' [S src] w)"
        by (simp add: copy_file_def)
      then show ?thesis by (rule early) (simp add: early_formats_def)
    next
      case False
      with Inl have "copy_file src tmp w = Inl (fatal ''lstat(3) failure: %s'' [E e] w)"
        by (simp add: copy_file_def)
      then show ?thesis by (rule early) (simp add: early_formats_def)
    qed
  next
    case (Inr src_stat)
    note ls = Inr
    show ?thesis
    proof (cases "st_mode src_stat \<noteq> S_IFLNK \<and> st_mode src_stat \<noteq> S_IFREG")
      case True
      show ?thesis
      proof (cases "st_mode src_stat = S_IFDIR")
        case dir: True
        with ls have "copy_file src tmp w = Inl (fatal ''source is a directory: %s'' [S src] w)"
          by (simp add: copy_file_def)
        then show ?thesis by (rule early) (simp add: early_formats_def)
      next
        case False
        with ls True have "copy_file src tmp w =
            Inl (fatal ''source is not a regular file: %s'' [S src] w)"
          by (simp add: copy_file_def)
        then show ?thesis by (rule early) (simp add: early_formats_def)
      qed
    next
      case False
      note ty = False
      show ?thesis
      proof (cases "sys_open src w")
        case (Inl e)
        with ls ty have "copy_file src tmp w =
            Inl (fatal ''failed to open file: %s (%s)'' [S src, E e] w)"
          by (auto simp: copy_file_def)
        then show ?thesis by (rule early) (simp add: early_formats_def)
      next
        case (Inr src_fd)
        note op = Inr
        from sys_creat_plain [OF plain, of 384] consider
          (nocreat) e where "sys_creat tmp 384 w = Inl e"
          | (creat) w1 where "sys_creat tmp 384 w = Inr (tmp, w1)" "holds_file tmp w w1"
          by blast
        then show ?thesis
        proof cases
          case nocreat
          with ls ty op have "copy_file src tmp w =
              Inl (fatal ''failed to create temporary file: %s (%s)'' [S tmp, E e] w)"
            by (auto simp: copy_file_def)
          then show ?thesis by (rule early) (simp add: early_formats_def)
        next
          case creat
          show ?thesis
          proof (cases "malloc (st_blksize src_stat) w1")
            case None
            with ls ty op creat have "copy_file src tmp w = Inl (fatal ''malloc(3) failure'' [] w1)"
              by (auto simp: copy_file_def)
            then show ?thesis by (rule late) (simp_all add: late_formats_def creat)
          next
            case (Some w2)
            then have w2: "w2 = w1\<lparr>heap_free := heap_free w1 - st_blksize src_stat\<rparr>"
              by (auto simp: malloc_def split: if_splits)
            have h2: "holds_file tmp w w2"
              using creat(2) by (simp add: holds_file_def w2)
            have run: "copy_file src tmp w = copy_loop src_fd tmp 0 (st_blksize src_stat) w2"
              using ls ty op creat Some by (auto simp: copy_file_def)
            show ?thesis
            proof (cases "copy_loop src_fd tmp 0 (st_blksize src_stat) w2")
              case (Inl r)
              with copy_loop_frame [of src_fd tmp 0 "st_blksize src_stat" w2 _ r]
              obtain e w' where "r = fatal ''write(3) failure: %s'' [E e] w'" "same_but tmp w2 w'"
                by blast
              with Inl run same_but_holds [OF h2] show ?thesis
                by (intro late [of "''write(3) failure: %s''" "[E e]" w']) (simp_all add: late_formats_def)
            next
              case (Inr w')
              with copy_loop_frame [of src_fd tmp 0 "st_blksize src_stat" w2 w']
              have "same_but tmp w2 w'" by blast
              with Inr run same_but_holds [OF h2] show ?thesis by auto
            qed
          qed
        qed
      qed
    qed
  qed
qed

lemma same_shape_at:
  "same_shape t t' \<Longrightarrow>
   (t p = None \<and> t' p = None) \<or>
   (\<exists>f f'. t p = Some f \<and> t' p = Some f' \<and> ftype f' = ftype f \<and> bytes f' = bytes f)"
proof -
  assume "same_shape t t'"
  then have "map_option (\<lambda>f. (ftype f, bytes f)) (t p) = map_option (\<lambda>f. (ftype f, bytes f)) (t' p)"
    by (simp add: same_shape_def)
  then show ?thesis by (cases "t p"; cases "t' p") auto
qed

lemma dir_err_shape: "same_shape t t' \<Longrightarrow> dir_err t d = dir_err t' d"
proof (induction t d rule: dir_err.induct)
  case (1 t d)
  show ?case
  proof (cases "d = [] \<or> d = ''/''")
    case True
    then show ?thesis by (subst dir_err.simps, subst (2) dir_err.simps) simp
  next
    case False
    from "1.IH" [OF False "1.prems"] have up: "dir_err t (parent_dir d) = dir_err t' (parent_dir d)" .
    from same_shape_at [OF "1.prems", of d] False up show ?thesis
      by (subst dir_err.simps, subst (2) dir_err.simps) (auto split: option.splits)
  qed
qed

lemma lookup_err_shape: "same_shape t t' \<Longrightarrow> lookup_err t p = lookup_err t' p"
  by (simp add: lookup_err_def dir_err_shape)

lemma follow_shape: "same_shape t t' \<Longrightarrow> follow n t p = follow n t' p"
proof (induction n arbitrary: p)
  case 0
  then show ?case by simp
next
  case (Suc n)
  from same_shape_at [OF Suc.prems, of p] lookup_err_shape [OF Suc.prems, of p] Suc.IH [OF Suc.prems]
  show ?case by (auto split: option.splits)
qed

lemma same_shape_upd:
  "t p = Some f \<Longrightarrow> ftype f' = ftype f \<Longrightarrow> bytes f' = bytes f \<Longrightarrow> same_shape t (t(p \<mapsto> f'))"
  by (simp add: same_shape_def)

lemma same_shape_trans: "same_shape a b \<Longrightarrow> same_shape b c \<Longrightarrow> same_shape a c"
  by (simp add: same_shape_def)

lemma same_shape_refl: "same_shape a a"
  by (simp add: same_shape_def)

lemma follow_not_link:
  "follow n t p = Inr q \<Longrightarrow> \<forall>g. t q = Some g \<longrightarrow> ftype g \<noteq> S_IFLNK"
  by (induction n arbitrary: p) (auto split: option.splits if_splits)

lemma sys_chmod_any:
  "(\<exists>e. sys_chmod p m w = Inl e) \<or>
   (\<exists>q g g'. follow SYMLOOP_MAX (fs w) p = Inr q \<and> fs w q = Some g \<and>
      sys_chmod p m w = Inr (w\<lparr>fs := (fs w)(q \<mapsto> g')\<rparr>) \<and>
      ftype g' = ftype g \<and> bytes g' = bytes g)"
  by (auto simp: sys_chmod_def split: option.splits sum.splits)

lemma set_attrs_rename_outcome_any:
  assumes l: "fs w tmp = Some l" and ne: "tmp \<noteq> dst"
  shows "(\<exists>fmt a w'. set_attrs_rename st tmp dst w = fatal fmt a w' \<and> fmt \<in> set late_formats \<and>
            fs w' tmp \<noteq> None \<and>
            (follow SYMLOOP_MAX (fs w') tmp \<noteq> Inr dst \<longrightarrow> fs w' dst = fs w dst)) \<or>
         (\<exists>w'. set_attrs_rename st tmp dst w = \<lparr>exit_status = 0, printed = [], final = w'\<rparr>)"
proof -
  have fail_case: ?thesis
    if "set_attrs_rename st tmp dst w = fatal fmt a w'" "fmt \<in> set late_formats"
      "fs w' tmp \<noteq> None" "follow SYMLOOP_MAX (fs w') tmp \<noteq> Inr dst \<longrightarrow> fs w' dst = fs w dst"
    for fmt a w'
    using that by blast
  from sys_chmod_any [of tmp "mode st" w] consider
    (fail) e where "sys_chmod tmp (mode st) w = Inl e"
    | (ok) q g g1 where "follow SYMLOOP_MAX (fs w) tmp = Inr q" "fs w q = Some g"
      "sys_chmod tmp (mode st) w = Inr (w\<lparr>fs := (fs w)(q \<mapsto> g1)\<rparr>)"
      "ftype g1 = ftype g" "bytes g1 = bytes g"
    by blast
  then show ?thesis
  proof cases
    case fail
    then have "set_attrs_rename st tmp dst w = fatal ''chmod(3) failure: %s'' [E e] w"
      by (simp add: set_attrs_rename_def)
    then show ?thesis by (rule fail_case) (simp_all add: late_formats_def l)
  next
    case ok
    let ?w1 = "w\<lparr>fs := (fs w)(q \<mapsto> g1)\<rparr>"
    have sh1: "same_shape (fs w) (fs ?w1)"
      using same_shape_upd [of "fs w" q g g1] ok(2,4,5) by simp
    have fo1: "follow SYMLOOP_MAX (fs ?w1) tmp = Inr q"
      using follow_shape [OF sh1, of SYMLOOP_MAX tmp] ok(1) by simp
    obtain l1 where l1: "fs ?w1 tmp = Some l1" using l by (cases "q = tmp") auto
    have dst1: "q \<noteq> dst \<longrightarrow> fs ?w1 dst = fs w dst" by simp
    from sys_lchown_any [OF l1, where ow = "owner st" and gr = "group st"] consider
      (fail2) e where "sys_lchown tmp (owner st) (group st) ?w1 = Inl e"
      | (ok2) l2 where "sys_lchown tmp (owner st) (group st) ?w1 = Inr (?w1\<lparr>fs := (fs ?w1)(tmp \<mapsto> l2)\<rparr>)"
        "bytes l2 = bytes l1" "ftype l2 = ftype l1"
      by blast
    then show ?thesis
    proof cases
      case fail2
      with ok have "set_attrs_rename st tmp dst w = fatal ''lchown(3) failure: %s'' [E e] ?w1"
        by (simp add: set_attrs_rename_def)
      then show ?thesis
        by (rule fail_case) (use l1 fo1 dst1 in \<open>auto simp: late_formats_def\<close>)
    next
      case ok2
      let ?w2 = "?w1\<lparr>fs := (fs ?w1)(tmp \<mapsto> l2)\<rparr>"
      have sh2: "same_shape (fs ?w1) (fs ?w2)"
        using same_shape_upd [of "fs ?w1" tmp l1 l2] l1 ok2(3,2) by simp
      have fo2: "follow SYMLOOP_MAX (fs ?w2) tmp = Inr q"
        using follow_shape [OF sh2, of SYMLOOP_MAX tmp] fo1 by simp
      have l2: "fs ?w2 tmp = Some l2" by simp
      have dst2: "q \<noteq> dst \<longrightarrow> fs ?w2 dst = fs w dst" using ne by simp
      from sys_rename_any [OF l2 ne] consider
        (fail3) e where "sys_rename tmp dst ?w2 = Inl e"
        | (ok3) "sys_rename tmp dst ?w2 = Inr (?w2\<lparr>fs := (fs ?w2)(dst \<mapsto> l2, tmp := None)\<rparr>)"
        by blast
      then show ?thesis
      proof cases
        case fail3
        with ok ok2 have "set_attrs_rename st tmp dst w = fatal ''rename(3) failure: %s'' [E e] ?w2"
          by (simp add: set_attrs_rename_def)
        then show ?thesis
          by (rule fail_case) (use l2 fo2 dst2 in \<open>auto simp: late_formats_def\<close>)
      next
        case ok3
        with ok ok2 show ?thesis by (simp add: set_attrs_rename_def)
      qed
    qed
  qed
qed

lemma tmp_not_dst: "dst @ ''.tmp'' \<noteq> dst"
proof
  assume "dst @ ''.tmp'' = dst"
  then have "length (dst @ ''.tmp'') = length dst" by simp
  then show False by simp
qed

lemma main_run:
  assumes parse: "opts_loop argv0 w (defaults w) [] args = Inr (st, [src, dst])"
    and m: "mode st \<le> 4095"
    and heap: "length dst + 5 + (if mkdirp st then heap_need dst else 0) \<le> heap_free w"
    and len: "length dst + 4 \<le> INT_MAX"
  shows "main (argv0 # args) w =
     (case (if symbolic st then
              (case sys_symlink src (dst @ ''.tmp'') (prepared st dst w) of
                 Inl e \<Rightarrow> Inl (fatal ''symlink(3) failure: %s'' [E e] (prepared st dst w))
               | Inr w3 \<Rightarrow> Inr w3)
            else copy_file src (dst @ ''.tmp'') (prepared st dst w)) of
        Inl r \<Rightarrow> r
      | Inr w3 \<Rightarrow> set_attrs_rename st (dst @ ''.tmp'') dst w3)"
  using main_parsed [OF parse m] install_eq [OF heap len] by simp

section \<open>A copy that succeeds\<close>

lemma copy_loop_content:
  assumes qq: "q \<noteq> q'"
    and blk: "0 < blk"
    and nowf: "\<forall>x. fault w (Sys_write q' x) = None"
    and f: "fs w q = Some f" and nd: "ftype f \<noteq> S_IFDIR"
    and g: "fs w q' = Some g"
    and offg: "off \<le> length (bytes g)"
    and reads: "\<forall>x. off \<le> x \<and> x < stop \<longrightarrow> fault w (Sys_read q x) = None"
    and stop: "off \<le> stop" "stop \<le> length (bytes f)"
    and ending: "(stop = length (bytes f) \<and> fault w (Sys_read q stop) = None) \<or>
                 (fault w (Sys_read q stop) \<noteq> None \<and> blk dvd (stop - off))"
  shows "copy_loop q q' off blk w =
     Inr (w\<lparr>fs := (fs w)(q' \<mapsto> g\<lparr>bytes :=
            take off (bytes g) @ take (stop - off) (drop off (bytes f)) @ drop stop (bytes g)\<rparr>)\<rparr>)"
  using assms
proof (induction q q' off blk w arbitrary: g rule: copy_loop.induct)
  case (1 q q' off blk w)
  note f = "1.prems"(4) and g = "1.prems"(6) and offg = "1.prems"(7)
  show ?case
  proof (cases "off = stop")
    case True
    have same: "w\<lparr>fs := (fs w)(q' \<mapsto> g\<lparr>bytes :=
            take off (bytes g) @ take (stop - off) (drop off (bytes f)) @ drop stop (bytes g)\<rparr>)\<rparr> = w"
      using True g by (simp add: fun_upd_idem)
    from "1.prems"(11) show ?thesis
    proof
      assume "stop = length (bytes f) \<and> fault w (Sys_read q stop) = None"
      with True f "1.prems"(5) have "sys_read q off blk w = Inr []"
        by (auto simp: sys_read_def)
      then show ?thesis unfolding same by (subst copy_loop.simps) simp
    next
      assume "fault w (Sys_read q stop) \<noteq> None \<and> blk dvd (stop - off)"
      with True obtain e where "sys_read q off blk w = Inl e"
        by (auto simp: sys_read_def)
      then show ?thesis unfolding same by (subst copy_loop.simps) simp
    qed
  next
    case False
    with "1.prems"(9) have lt: "off < stop" by simp
    with "1.prems"(8) have nofault: "fault w (Sys_read q off) = None" by simp
    define buf where "buf = take blk (drop off (bytes f))"
    from lt "1.prems"(10) "1.prems"(2) have bne: "buf \<noteq> []" by (simp add: buf_def)
    have rd: "sys_read q off blk w = Inr buf"
      using nofault f "1.prems"(5) by (simp add: sys_read_def buf_def)
    define g1 where "g1 = g\<lparr>bytes := take off (bytes g) @ buf @ drop (off + length buf) (bytes g)\<rparr>"
    define w1 where "w1 = w\<lparr>fs := (fs w)(q' \<mapsto> g1)\<rparr>"
    have wr: "sys_write q' off buf w = Inr w1"
      using "1.prems"(3) g offg by (simp add: sys_write_def w1_def g1_def)
    have step: "copy_loop q q' off blk w = copy_loop q q' (off + length buf) blk w1"
      using rd bne wr by (subst copy_loop.simps) simp
    have lenbuf: "length buf = min blk (length (bytes f) - off)" by (simp add: buf_def)
    have off': "off + length buf \<le> stop"
    proof -
      from "1.prems"(11) show ?thesis
      proof
        assume "stop = length (bytes f) \<and> fault w (Sys_read q stop) = None"
        then show ?thesis using lenbuf lt by simp
      next
        assume a: "fault w (Sys_read q stop) \<noteq> None \<and> blk dvd (stop - off)"
        then obtain k where k: "stop - off = blk * k" by (auto simp: dvd_def)
        with lt have "k \<noteq> 0" by (cases k) auto
        then have "blk \<le> blk * k" by (cases k) auto
        with k have "blk \<le> stop - off" by simp
        with lt have "off + blk \<le> stop" by simp
        moreover have "length buf \<le> blk" by (simp add: lenbuf)
        ultimately show ?thesis by simp
      qed
    qed
    have ending': "(stop = length (bytes f) \<and> fault w1 (Sys_read q stop) = None) \<or>
        (fault w1 (Sys_read q stop) \<noteq> None \<and> blk dvd (stop - (off + length buf)))"
    proof -
      from "1.prems"(11) show ?thesis
      proof
        assume "stop = length (bytes f) \<and> fault w (Sys_read q stop) = None"
        then show ?thesis by (auto simp: w1_def)
      next
        assume a: "fault w (Sys_read q stop) \<noteq> None \<and> blk dvd (stop - off)"
        then obtain k where k: "stop - off = blk * k" by (auto simp: dvd_def)
        with lt have kz: "k \<noteq> 0" by (cases k) auto
        then have "blk \<le> blk * k" by (cases k) auto
        with k have "blk \<le> stop - off" by simp
        with lt "1.prems"(10) have "blk \<le> length (bytes f) - off" by simp
        then have full: "length buf = blk" using lenbuf by simp
        from kz obtain k' where "k = Suc k'" by (cases k) auto
        with k full have "stop - (off + length buf) = blk * k'" by simp
        with a show ?thesis by (auto simp: w1_def)
      qed
    qed
    have IH: "copy_loop q q' (off + length buf) blk w1 =
        Inr (w1\<lparr>fs := (fs w1)(q' \<mapsto> g1\<lparr>bytes :=
            take (off + length buf) (bytes g1) @
            take (stop - (off + length buf)) (drop (off + length buf) (bytes f)) @
            drop stop (bytes g1)\<rparr>)\<rparr>)"
    proof (rule "1.IH" [OF rd bne wr])
      show "q \<noteq> q'" by (rule "1.prems"(1))
      show "0 < blk" by (rule "1.prems"(2))
      show "\<forall>x. fault w1 (Sys_write q' x) = None" using "1.prems"(3) by (simp add: w1_def)
      show "fs w1 q = Some f" using f "1.prems"(1) by (simp add: w1_def)
      show "ftype f \<noteq> S_IFDIR" by (rule "1.prems"(5))
      show "fs w1 q' = Some g1" by (simp add: w1_def)
      show "off + length buf \<le> length (bytes g1)" using offg by (simp add: g1_def)
      show "\<forall>x. off + length buf \<le> x \<and> x < stop \<longrightarrow> fault w1 (Sys_read q x) = None"
        using "1.prems"(8) by (simp add: w1_def)
      show "off + length buf \<le> stop" by (rule off')
      show "stop \<le> length (bytes f)" by (rule "1.prems"(10))
      show "(stop = length (bytes f) \<and> fault w1 (Sys_read q stop) = None) \<or>
        (fault w1 (Sys_read q stop) \<noteq> None \<and> blk dvd (stop - (off + length buf)))"
        by (rule ending')
    qed
    have b1: "take (off + length buf) (bytes g1) = take off (bytes g) @ buf"
      using offg by (simp add: g1_def)
    have b2: "drop stop (bytes g1) = drop stop (bytes g)"
    proof -
      have "drop stop (bytes g1) = drop (stop - (off + length buf)) (drop (off + length buf) (bytes g))"
        using offg off' by (simp add: g1_def)
      also have "\<dots> = drop stop (bytes g)" using off' by simp
      finally show ?thesis .
    qed
    have b3: "buf @ take (stop - (off + length buf)) (drop (off + length buf) (bytes f)) =
        take (stop - off) (drop off (bytes f))"
    proof -
      have "take (stop - off) (drop off (bytes f)) =
          take (length buf + (stop - (off + length buf))) (drop off (bytes f))"
        using off' by simp
      also have "\<dots> = take (length buf) (drop off (bytes f)) @
          take (stop - (off + length buf)) (drop (length buf) (drop off (bytes f)))"
        by (rule take_add)
      also have "take (length buf) (drop off (bytes f)) = buf"
        by (simp add: buf_def min_def)
      also have "drop (length buf) (drop off (bytes f)) = drop (off + length buf) (bytes f)"
        by (simp add: add.commute)
      finally show ?thesis by simp
    qed
    have eqg: "g1\<lparr>bytes := take (off + length buf) (bytes g1) @
            take (stop - (off + length buf)) (drop (off + length buf) (bytes f)) @
            drop stop (bytes g1)\<rparr> =
          g\<lparr>bytes := take off (bytes g) @ take (stop - off) (drop off (bytes f)) @ drop stop (bytes g)\<rparr>"
      unfolding b1 b2 using b3 by (simp add: g1_def)
    have fin: "w1\<lparr>fs := (fs w1)(q' \<mapsto> x)\<rparr> = w\<lparr>fs := (fs w)(q' \<mapsto> x)\<rparr>" for x
      by (simp add: w1_def)
    show ?thesis unfolding step IH eqg fin ..
  qed
qed


lemma dir_len_le: "dir_len p \<le> length p"
  unfolding dir_len_def by (metis length_dropWhile_le length_rev)

lemma parent_dir_le: "length (parent_dir d) \<le> length d"
proof (cases "dir_len d = 1")
  case True
  with dir_len_le [of d] show ?thesis by (simp add: parent_dir_def)
next
  case False
  then show ?thesis by (simp add: parent_dir_def)
qed

lemma dir_err_agree:
  "\<forall>p. length p \<le> length d \<longrightarrow> t' p = t p \<Longrightarrow> dir_err t' d = dir_err t d"
proof (induction t d rule: dir_err.induct)
  case (1 t d)
  show ?case
  proof (cases "d = [] \<or> d = ''/''")
    case True
    then show ?thesis by (subst dir_err.simps, subst (2) dir_err.simps) simp
  next
    case False
    have "\<forall>p. length p \<le> length (parent_dir d) \<longrightarrow> t' p = t p"
      using "1.prems" parent_dir_le [of d] by auto
    from "1.IH" [OF False this] have up: "dir_err t' (parent_dir d) = dir_err t (parent_dir d)" .
    from "1.prems" have "t' d = t d" by simp
    with False up show ?thesis
      by (subst dir_err.simps, subst (2) dir_err.simps) (simp split: option.splits)
  qed
qed

lemma dir_len_pos: "p \<noteq> [] \<Longrightarrow> dir_len p \<noteq> 1 \<Longrightarrow> length (parent_dir p) < length p"
  using dir_len_le [of p] by (auto simp: parent_dir_def)

lemma lookup_err_upd:
  assumes "length q \<le> length p"
  shows "lookup_err (t(p := x)) q = lookup_err t q"
proof (cases "q = []")
  case True
  then show ?thesis by (simp add: lookup_err_def)
next
  case False
  show ?thesis
  proof (cases "dir_len q = 1")
    case True
    then have "parent_dir q = ''/''" by (simp add: parent_dir_def)
    then show ?thesis using False
      by (simp add: lookup_err_def) (subst dir_err.simps, subst (2) dir_err.simps, simp)
  next
    case nr: False
    have "dir_err (t(p := x)) (parent_dir q) = dir_err t (parent_dir q)"
      by (rule dir_err_agree) (use dir_len_pos [OF False nr] assms in auto)
    with False show ?thesis by (simp add: lookup_err_def)
  qed
qed

lemma dir_len_tmp: "dir_len (dst @ ''.tmp'') = dir_len dst"
  by (simp add: dir_len_def)

lemma lookup_err_tmp: "dst \<noteq> [] \<Longrightarrow> lookup_err t (dst @ ''.tmp'') = lookup_err t dst"
  using dir_len_le [of dst] by (simp add: lookup_err_def parent_dir_def dir_len_tmp)

lemma sys_lstat_ok:
  "fault w (Sys_lstat p) = None \<Longrightarrow> lookup_err (fs w) p = None \<Longrightarrow> fs w p = Some f \<Longrightarrow>
   sys_lstat p w = Inr \<lparr>st_mode = ftype f, st_blksize = blksize w\<rparr>"
  by (simp add: sys_lstat_def)

lemma sys_open_ok:
  assumes "fault w (Sys_open p) = None" "lookup_err (fs w) p = None" "fs w p = Some f"
    "ftype f \<noteq> S_IFLNK"
  shows "sys_open p w = Inr p"
proof -
  have "follow SYMLOOP_MAX (fs w) p = (case lookup_err (fs w) p of Some e \<Rightarrow> Inl e | None \<Rightarrow> Inr p)"
    by (rule follow_plain) (use assms in simp)
  with assms show ?thesis by (simp add: sys_open_def)
qed

lemma sys_creat_ok:
  assumes "fault w (Sys_creat p) = None" "lookup_err (fs w) p = None"
    "\<forall>g. fs w p = Some g \<longrightarrow> ftype g \<noteq> S_IFLNK \<and> ftype g \<noteq> S_IFDIR"
  shows "sys_creat p 384 w = Inr (p, w\<lparr>fs := (fs w)(p \<mapsto> opened w p)\<rparr>)"
proof -
  have fo: "follow SYMLOOP_MAX (fs w) p = (case lookup_err (fs w) p of Some e \<Rightarrow> Inl e | None \<Rightarrow> Inr p)"
    by (rule follow_plain) (use assms in simp)
  show ?thesis
  proof (cases "fs w p")
    case None
    with assms show ?thesis by (simp add: sys_creat_def fo opened_def)
  next
    case (Some g)
    then have "w\<lparr>fs := (fs w)(p \<mapsto> opened w p)\<rparr> = w"
      by (simp add: opened_def fun_upd_idem)
    with Some assms show ?thesis by (simp add: sys_creat_def fo)
  qed
qed

lemma sys_chmod_ok:
  assumes g: "fs w p = Some g" and nl: "ftype g \<noteq> S_IFLNK"
    and nf: "fault w (Sys_chmod p) = None" and lk: "lookup_err (fs w) p = None"
    and priv: "euid w = 0 \<or> euid w = fuid g"
  shows "\<exists>g'. sys_chmod p m w = Inr (w\<lparr>fs := (fs w)(p \<mapsto> g')\<rparr>) \<and>
        bytes g' = bytes g \<and> ftype g' = ftype g \<and> fuid g' = fuid g \<and> fgid g' = fgid g"
proof -
  have "sys_chmod p m w \<noteq> Inl e" for e
  proof -
    have fo: "follow SYMLOOP_MAX (fs w) p = Inr p"
      using follow_plain [of "fs w" p] g nl lk by simp
    show ?thesis using g nf priv by (auto simp: sys_chmod_def fo)
  qed
  with sys_chmod_plain [OF g nl, of m] show ?thesis by blast
qed

lemma sys_lchown_ok:
  assumes g: "fs w p = Some g"
    and nf: "fault w (Sys_lchown p) = None" and lk: "lookup_err (fs w) p = None"
    and priv: "euid w = 0 \<or>
       (euid w = fuid g \<and> (ow = - 1 \<or> ow = fuid g) \<and>
        (gr = - 1 \<or> gr = fgid g \<or> gr \<in> set (egid w # supp_gids w)))"
  shows "\<exists>g'. sys_lchown p ow gr w = Inr (w\<lparr>fs := (fs w)(p \<mapsto> g')\<rparr>) \<and>
        bytes g' = bytes g \<and> ftype g' = ftype g"
proof -
  have "sys_lchown p ow gr w \<noteq> Inl e" for e
    using g nf lk priv by (auto simp: sys_lchown_def Let_def)
  with sys_lchown_any [OF g, of ow gr] show ?thesis by blast
qed

lemma sys_rename_ok:
  assumes g: "fs w old = Some g" and ne: "old \<noteq> new" and nd: "ftype g \<noteq> S_IFDIR"
    and nf: "fault w (Sys_rename old new) = None"
    and lk: "lookup_err (fs w) old = None" "lookup_err (fs w) new = None"
    and dd: "\<forall>d. fs w new = Some d \<longrightarrow> ftype d \<noteq> S_IFDIR"
  shows "sys_rename old new w = Inr (w\<lparr>fs := (fs w)(new \<mapsto> g, old := None)\<rparr>)"
  using assms by (auto simp: sys_rename_def split: option.splits)


lemma copy_install:
  assumes tmp: "tmp = dst @ ''.tmp''" and dne: "dst \<noteq> []"
    and f: "fs v src = Some f" and reg: "ftype f = S_IFREG" and st: "src \<noteq> tmp"
    and lks: "lookup_err (fs v) src = None" and lkd: "lookup_err (fs v) dst = None"
    and plain: "\<forall>g. fs v tmp = Some g \<longrightarrow> ftype g \<noteq> S_IFLNK \<and> ftype g \<noteq> S_IFDIR"
    and dstnd: "\<forall>d. fs v dst = Some d \<longrightarrow> ftype d \<noteq> S_IFDIR"
    and faults: "\<forall>c. (\<forall>x. c \<noteq> Sys_read src x) \<longrightarrow> fault v c = None"
    and heap: "blksize v \<le> heap_free v" and blk: "0 < blksize v"
    and stop: "stop \<le> length (bytes f)"
    and reads: "\<forall>x. x < stop \<longrightarrow> fault v (Sys_read src x) = None"
    and ending: "(stop = length (bytes f) \<and> fault v (Sys_read src stop) = None) \<or>
                 (fault v (Sys_read src stop) \<noteq> None \<and> blksize v dvd stop)"
    and priv: "euid v = 0 \<or>
       (euid v = fuid (opened v tmp) \<and> (owner st = - 1 \<or> owner st = fuid (opened v tmp)) \<and>
        (group st = - 1 \<or> group st = fgid (opened v tmp) \<or> group st \<in> set (egid v # supp_gids v)))"
  shows "\<exists>v' h. (case copy_file src tmp v of Inl r \<Rightarrow> r | Inr w3 \<Rightarrow> set_attrs_rename st tmp dst w3) =
            \<lparr>exit_status = 0, printed = [], final = v'\<rparr> \<and>
          fs v' tmp = None \<and> fs v' dst = Some h \<and>
          bytes h = take stop (bytes f) @ drop stop (bytes (opened v tmp))"
proof -
  define g0 where "g0 = opened v tmp"
  define B where "B = take stop (bytes f) @ drop stop (bytes g0)"
  define v1 where "v1 = v\<lparr>fs := (fs v)(tmp \<mapsto> g0)\<rparr>"
  define v2 where "v2 = v1\<lparr>heap_free := heap_free v1 - blksize v\<rparr>"
  define v3 where "v3 = v2\<lparr>fs := (fs v2)(tmp \<mapsto> g0\<lparr>bytes := B\<rparr>)\<rparr>"
  have g0t: "ftype g0 \<noteq> S_IFLNK" "ftype g0 \<noteq> S_IFDIR"
    using plain by (auto simp: g0_def opened_def split: option.splits)
  have lkt: "lookup_err (fs v) tmp = None" using lookup_err_tmp [OF dne] lkd tmp by simp
  have lst: "sys_lstat src v = Inr \<lparr>st_mode = S_IFREG, st_blksize = blksize v\<rparr>"
    using sys_lstat_ok [of v src f] faults lks f reg by simp
  have op: "sys_open src v = Inr src"
    using sys_open_ok [of v src f] faults lks f reg by simp
  have cr: "sys_creat tmp 384 v = Inr (tmp, v1)"
    unfolding v1_def g0_def by (rule sys_creat_ok) (use faults lkt plain in auto)
  have ma: "malloc (blksize v) v1 = Some v2"
    using heap by (simp add: malloc_def v1_def v2_def)
  have loop: "copy_loop src tmp 0 (blksize v) v2 =
      Inr (v2\<lparr>fs := (fs v2)(tmp \<mapsto> g0\<lparr>bytes :=
         take 0 (bytes g0) @ take (stop - 0) (drop 0 (bytes f)) @ drop stop (bytes g0)\<rparr>)\<rparr>)"
  proof (rule copy_loop_content [OF st blk])
    show "\<forall>x. fault v2 (Sys_write tmp x) = None" using faults by (simp add: v2_def v1_def)
    show "fs v2 src = Some f" using f st by (simp add: v2_def v1_def)
    show "ftype f \<noteq> S_IFDIR" using reg by simp
    show "fs v2 tmp = Some g0" by (simp add: v2_def v1_def)
    show "0 \<le> length (bytes g0)" by simp
    show "\<forall>x. 0 \<le> x \<and> x < stop \<longrightarrow> fault v2 (Sys_read src x) = None"
      using reads by (simp add: v2_def v1_def)
    show "0 \<le> stop" by simp
    show "stop \<le> length (bytes f)" by (rule stop)
    show "(stop = length (bytes f) \<and> fault v2 (Sys_read src stop) = None) \<or>
          (fault v2 (Sys_read src stop) \<noteq> None \<and> blksize v dvd (stop - 0))"
      using ending by (simp add: v2_def v1_def)
  qed
  have cf: "copy_file src tmp v = Inr v3"
    using loop by (simp add: copy_file_def lst op cr ma v3_def B_def)
  have fs3: "fs v3 = (fs v)(tmp \<mapsto> g0\<lparr>bytes := B\<rparr>)" by (simp add: v3_def v2_def v1_def)
  have env3: "fault v3 = fault v" "euid v3 = euid v" "egid v3 = egid v" "supp_gids v3 = supp_gids v"
    by (simp_all add: v3_def v2_def v1_def)
  have lk3: "lookup_err (fs v3) tmp = None" unfolding fs3 using lkt by (simp add: lookup_err_upd)
  have "\<exists>g'. sys_chmod tmp (mode st) v3 = Inr (v3\<lparr>fs := (fs v3)(tmp \<mapsto> g')\<rparr>) \<and>
        bytes g' = bytes (g0\<lparr>bytes := B\<rparr>) \<and> ftype g' = ftype (g0\<lparr>bytes := B\<rparr>) \<and>
        fuid g' = fuid (g0\<lparr>bytes := B\<rparr>) \<and> fgid g' = fgid (g0\<lparr>bytes := B\<rparr>)"
    by (rule sys_chmod_ok) (use fs3 g0t faults env3 lk3 priv in \<open>auto simp: g0_def\<close>)
  then obtain g4 where ch: "sys_chmod tmp (mode st) v3 = Inr (v3\<lparr>fs := (fs v3)(tmp \<mapsto> g4)\<rparr>)"
    and g4: "bytes g4 = B" "ftype g4 = ftype g0" "fuid g4 = fuid g0" "fgid g4 = fgid g0"
    by auto
  define v4 where "v4 = v3\<lparr>fs := (fs v3)(tmp \<mapsto> g4)\<rparr>"
  have fs4: "fs v4 = (fs v)(tmp \<mapsto> g4)" by (simp add: v4_def fs3)
  have env4: "fault v4 = fault v" "euid v4 = euid v" "egid v4 = egid v" "supp_gids v4 = supp_gids v"
    by (simp_all add: v4_def env3)
  have lk4: "lookup_err (fs v4) tmp = None" unfolding fs4 using lkt by (simp add: lookup_err_upd)
  have "\<exists>g'. sys_lchown tmp (owner st) (group st) v4 = Inr (v4\<lparr>fs := (fs v4)(tmp \<mapsto> g')\<rparr>) \<and>
        bytes g' = bytes g4 \<and> ftype g' = ftype g4"
    by (rule sys_lchown_ok) (use fs4 g4 faults env4 lk4 priv in \<open>auto simp: g0_def\<close>)
  then obtain g5 where lc: "sys_lchown tmp (owner st) (group st) v4 = Inr (v4\<lparr>fs := (fs v4)(tmp \<mapsto> g5)\<rparr>)"
    and g5: "bytes g5 = B" "ftype g5 = ftype g0"
    using g4 by auto
  define v5 where "v5 = v4\<lparr>fs := (fs v4)(tmp \<mapsto> g5)\<rparr>"
  have fs5: "fs v5 = (fs v)(tmp \<mapsto> g5)" by (simp add: v5_def fs4)
  have env5: "fault v5 = fault v" by (simp add: v5_def env4)
  have td: "tmp \<noteq> dst" unfolding tmp by (rule tmp_not_dst)
  have lk5: "lookup_err (fs v5) tmp = None" "lookup_err (fs v5) dst = None"
    unfolding fs5 using lkt lkd by (simp_all add: lookup_err_upd tmp)
  have rn: "sys_rename tmp dst v5 = Inr (v5\<lparr>fs := (fs v5)(dst \<mapsto> g5, tmp := None)\<rparr>)"
    by (rule sys_rename_ok) (use fs5 td g5 g0t faults env5 lk5 dstnd in auto)
  have "(case copy_file src tmp v of Inl r \<Rightarrow> r | Inr w3 \<Rightarrow> set_attrs_rename st tmp dst w3) =
      \<lparr>exit_status = 0, printed = [], final = v5\<lparr>fs := (fs v5)(dst \<mapsto> g5, tmp := None)\<rparr>\<rparr>"
    using ch lc rn by (simp add: cf set_attrs_rename_def v4_def [symmetric] v5_def [symmetric])
  moreover have "fs (v5\<lparr>fs := (fs v5)(dst \<mapsto> g5, tmp := None)\<rparr>) tmp = None" by simp
  moreover have "fs (v5\<lparr>fs := (fs v5)(dst \<mapsto> g5, tmp := None)\<rparr>) dst = Some g5"
    using td by simp
  ultimately show ?thesis using g5 unfolding B_def g0_def by blast
qed

lemma lookup_err_nonempty: "lookup_err t p = None \<Longrightarrow> p \<noteq> []"
  by (auto simp: lookup_err_def)

lemma opened_prepared: "opened (prepared st dst w) (dst @ ''.tmp'') = opened w (dst @ ''.tmp'')"
  by (simp add: opened_def prepared_tmp prepared_env split: option.splits)

lemma prepared_src: "fs w p = Some f \<Longrightarrow> fs (prepared st dst w) p = Some f"
  using prepared_fs [of st dst w p] by auto

lemma sys_creat_existing:
  assumes "fault w (Sys_creat p) = None" "lookup_err (fs w) p = None" "fs w p = Some g"
    "ftype g \<noteq> S_IFLNK" "ftype g \<noteq> S_IFDIR"
  shows "sys_creat p m w = Inr (p, w)"
proof -
  have "follow SYMLOOP_MAX (fs w) p = (case lookup_err (fs w) p of Some e \<Rightarrow> Inl e | None \<Rightarrow> Inr p)"
    by (rule follow_plain) (use assms in simp)
  with assms show ?thesis by (simp add: sys_creat_def)
qed

lemma main_copy_install:
  assumes parse: "opts_loop argv0 w (defaults w) [] args = Inr (st, [src, dst])"
    and m: "mode st \<le> 4095" and copy: "\<not> symbolic st"
    and heap: "length dst + 5 + (if mkdirp st then heap_need dst else 0) + blksize w \<le> heap_free w"
    and len: "length dst + 4 \<le> INT_MAX"
    and f: "fs w src = Some f" and reg: "ftype f = S_IFREG" and st: "src \<noteq> dst @ ''.tmp''"
    and lks: "lookup_err (fs (prepared st dst w)) src = None"
    and lkd: "lookup_err (fs (prepared st dst w)) dst = None"
    and plain: "\<forall>g. fs w (dst @ ''.tmp'') = Some g \<longrightarrow> ftype g \<noteq> S_IFLNK \<and> ftype g \<noteq> S_IFDIR"
    and dstnd: "\<forall>d. fs w dst = Some d \<longrightarrow> ftype d \<noteq> S_IFDIR"
    and faults: "\<forall>c. (\<forall>x. c \<noteq> Sys_read src x) \<longrightarrow> fault w c = None"
    and blk: "0 < blksize w"
    and stop: "stop \<le> length (bytes f)"
    and reads: "\<forall>x. x < stop \<longrightarrow> fault w (Sys_read src x) = None"
    and ending: "(stop = length (bytes f) \<and> fault w (Sys_read src stop) = None) \<or>
                 (fault w (Sys_read src stop) \<noteq> None \<and> blksize w dvd stop)"
    and priv: "euid w = 0 \<or>
       (euid w = fuid (opened w (dst @ ''.tmp'')) \<and>
        (owner st = - 1 \<or> owner st = fuid (opened w (dst @ ''.tmp''))) \<and>
        (group st = - 1 \<or> group st = fgid (opened w (dst @ ''.tmp'')) \<or>
         group st \<in> set (egid w # supp_gids w)))"
  shows "exit_status (main (argv0 # args) w) = 0 \<and> printed (main (argv0 # args) w) = [] \<and>
         fs (final (main (argv0 # args) w)) (dst @ ''.tmp'') = None \<and>
         map_option bytes (fs (final (main (argv0 # args) w)) dst) =
           Some (take stop (bytes f) @ drop stop (bytes (opened w (dst @ ''.tmp''))))"
proof -
  let ?P = "prepared st dst w"
  from heap have heap': "length dst + 5 + (if mkdirp st then heap_need dst else 0) \<le> heap_free w"
    by simp
  have run: "main (argv0 # args) w =
      (case copy_file src (dst @ ''.tmp'') ?P of Inl r \<Rightarrow> r
       | Inr w3 \<Rightarrow> set_attrs_rename st (dst @ ''.tmp'') dst w3)"
    using main_run [OF parse m heap' len] copy by simp
  have "\<exists>v' h. (case copy_file src (dst @ ''.tmp'') ?P of Inl r \<Rightarrow> r
                | Inr w3 \<Rightarrow> set_attrs_rename st (dst @ ''.tmp'') dst w3) =
            \<lparr>exit_status = 0, printed = [], final = v'\<rparr> \<and>
          fs v' (dst @ ''.tmp'') = None \<and> fs v' dst = Some h \<and>
          bytes h = take stop (bytes f) @ drop stop (bytes (opened ?P (dst @ ''.tmp'')))"
  proof (rule copy_install [OF refl lookup_err_nonempty [OF lkd] prepared_src [OF f] reg st lks lkd])
    show "\<forall>g. fs ?P (dst @ ''.tmp'') = Some g \<longrightarrow> ftype g \<noteq> S_IFLNK \<and> ftype g \<noteq> S_IFDIR"
      using plain by (simp add: prepared_tmp)
    show "\<forall>d. fs ?P dst = Some d \<longrightarrow> ftype d \<noteq> S_IFDIR" using dstnd by (simp add: prepared_dst)
    show "\<forall>c. (\<forall>x. c \<noteq> Sys_read src x) \<longrightarrow> fault ?P c = None"
      using faults by (simp add: prepared_env)
    show "blksize ?P \<le> heap_free ?P" using heap by (simp add: prepared_env)
    show "0 < blksize ?P" using blk by (simp add: prepared_env)
    show "stop \<le> length (bytes f)" by (rule stop)
    show "\<forall>x. x < stop \<longrightarrow> fault ?P (Sys_read src x) = None" using reads by (simp add: prepared_env)
    show "(stop = length (bytes f) \<and> fault ?P (Sys_read src stop) = None) \<or>
          (fault ?P (Sys_read src stop) \<noteq> None \<and> blksize ?P dvd stop)"
      using ending by (simp add: prepared_env)
    show "euid ?P = 0 \<or>
       (euid ?P = fuid (opened ?P (dst @ ''.tmp'')) \<and>
        (owner st = - 1 \<or> owner st = fuid (opened ?P (dst @ ''.tmp''))) \<and>
        (group st = - 1 \<or> group st = fgid (opened ?P (dst @ ''.tmp'')) \<or>
         group st \<in> set (egid ?P # supp_gids ?P)))"
      using priv by (simp add: prepared_env opened_prepared)
  qed
  then obtain v' h where "main (argv0 # args) w = \<lparr>exit_status = 0, printed = [], final = v'\<rparr>"
    "fs v' (dst @ ''.tmp'') = None" "fs v' dst = Some h"
    "bytes h = take stop (bytes f) @ drop stop (bytes (opened w (dst @ ''.tmp'')))"
    unfolding run opened_prepared by blast
  then show ?thesis by simp
qed

section \<open>The mode of an installed copy\<close>



section \<open>The messages after the source has been examined\<close>

lemma fatal_among:
  "r = fatal fmt a w \<Longrightarrow> fmt \<in> set F \<Longrightarrow>
   printed r = [] \<or>
   (\<exists>fmt a. printed r = [Stderr (take 4095 (''fatal: '' @ fmt @ ''\<newline>'')) a] \<and> fmt \<in> set F)"
  by (intro disjI2 exI [of _ fmt] exI [of _ a]) (simp add: fatal_simps)

lemma set_attrs_rename_messages:
  "printed (set_attrs_rename st tmp dst w) = [] \<or>
   (\<exists>fmt a. printed (set_attrs_rename st tmp dst w) =
        [Stderr (take 4095 (''fatal: '' @ fmt @ ''\<newline>'')) a] \<and>
      fmt \<in> set (''failed to open file: %s (%s)'' # ''failed to create temporary file: %s (%s)'' #
                 late_formats))"
proof (cases "sys_chmod tmp (mode st) w")
  case (Inl e)
  then have "set_attrs_rename st tmp dst w = fatal ''chmod(3) failure: %s'' [E e] w"
    by (simp add: set_attrs_rename_def)
  then show ?thesis by (rule fatal_among) (simp add: late_formats_def)
next
  case (Inr w1)
  note ch = Inr
  show ?thesis
  proof (cases "sys_lchown tmp (owner st) (group st) w1")
    case (Inl e)
    with ch have "set_attrs_rename st tmp dst w = fatal ''lchown(3) failure: %s'' [E e] w1"
      by (simp add: set_attrs_rename_def)
    then show ?thesis by (rule fatal_among) (simp add: late_formats_def)
  next
    case (Inr w2)
    note lc = Inr
    show ?thesis
    proof (cases "sys_rename tmp dst w2")
      case (Inl e)
      with ch lc have "set_attrs_rename st tmp dst w = fatal ''rename(3) failure: %s'' [E e] w2"
        by (simp add: set_attrs_rename_def)
      then show ?thesis by (rule fatal_among) (simp add: late_formats_def)
    next
      case (Inr w3)
      with ch lc show ?thesis by (simp add: set_attrs_rename_def)
    qed
  qed
qed



lemma fatal_known:
  "r = fatal fmt a w \<Longrightarrow> fmt \<in> set F \<Longrightarrow> \<exists>fmt a w. r = fatal fmt a w \<and> fmt \<in> set F"
  by blast

lemma copy_messages:
  assumes ls: "sys_lstat src w = Inr s" and ty: "st_mode s = S_IFLNK \<or> st_mode s = S_IFREG"
  shows "printed (case copy_file src tmp w of Inl r \<Rightarrow> r
                  | Inr w3 \<Rightarrow> set_attrs_rename st tmp dst w3) = [] \<or>
   (\<exists>fmt a. printed (case copy_file src tmp w of Inl r \<Rightarrow> r
                       | Inr w3 \<Rightarrow> set_attrs_rename st tmp dst w3) =
        [Stderr (take 4095 (''fatal: '' @ fmt @ ''\<newline>'')) a] \<and>
      fmt \<in> set (''failed to open file: %s (%s)'' # ''failed to create temporary file: %s (%s)'' #
                 late_formats))"
proof (cases "copy_file src tmp w")
  case (Inr w3)
  then show ?thesis using set_attrs_rename_messages [of st tmp dst w3] by simp
next
  case (Inl r)
  note cf = Inl
  from ls ty have unf: "copy_file src tmp w =
      (case sys_open src w of
         Inl e \<Rightarrow> Inl (fatal ''failed to open file: %s (%s)'' [S src, E e] w)
       | Inr src_fd \<Rightarrow>
          (case sys_creat tmp 384 w of
             Inl e \<Rightarrow> Inl (fatal ''failed to create temporary file: %s (%s)'' [S tmp, E e] w)
           | Inr (tmp_fd, w1) \<Rightarrow>
              (case malloc (st_blksize s) w1 of
                 None \<Rightarrow> Inl (fatal ''malloc(3) failure'' [] w1)
               | Some w2 \<Rightarrow> copy_loop src_fd tmp_fd 0 (st_blksize s) w2)))"
    by (auto simp: copy_file_def)
  have "\<exists>fmt a w'. r = fatal fmt a w' \<and>
      fmt \<in> set (''failed to open file: %s (%s)'' # ''failed to create temporary file: %s (%s)'' #
                 late_formats)"
  proof (cases "sys_open src w")
    case (Inl e)
    with unf cf have "r = fatal ''failed to open file: %s (%s)'' [S src, E e] w" by simp
    then show ?thesis by (rule fatal_known) (rule list.set_intros(1))
  next
    case (Inr fd)
    note op = Inr
    show ?thesis
    proof (cases "sys_creat tmp 384 w")
      case (Inl e)
      with unf cf op have "r = fatal ''failed to create temporary file: %s (%s)'' [S tmp, E e] w"
        by simp
      then show ?thesis
        by (rule fatal_known) (rule list.set_intros(2), rule list.set_intros(1))
    next
      case (Inr pr)
      obtain tfd w1 where pr: "pr = (tfd, w1)" by (cases pr)
      note cr = Inr [unfolded pr]
      show ?thesis
      proof (cases "malloc (st_blksize s) w1")
        case None
        with unf cf op cr have "r = fatal ''malloc(3) failure'' [] w1" by simp
        then show ?thesis
          by (rule fatal_known)
            (rule list.set_intros(2), rule list.set_intros(2), simp add: late_formats_def)
      next
        case (Some w2)
        with unf cf op cr have "copy_loop fd tfd 0 (st_blksize s) w2 = Inl r" by simp
        with copy_loop_frame [of fd tfd 0 "st_blksize s" w2 _ r]
        obtain e w' where "r = fatal ''write(3) failure: %s'' [E e] w'" by blast
        then show ?thesis
          by (rule fatal_known)
            (rule list.set_intros(2), rule list.set_intros(2), simp add: late_formats_def)
      qed
    qed
  qed
  then obtain fmt a w' where r: "r = fatal fmt a w'"
    and fmt: "fmt \<in> set (''failed to open file: %s (%s)'' #
        ''failed to create temporary file: %s (%s)'' # late_formats)"
    by blast
  from fatal_among [OF r fmt] cf show ?thesis by simp
qed


lemma later_messages_all:
  "\<forall>fmt \<in> set (''failed to open file: %s (%s)'' #
      ''failed to create temporary file: %s (%s)'' # late_formats).
     take 4095 (''fatal: '' @ fmt @ ''\<newline>'') \<notin>
     set [''fatal: source does not exist: %s\<newline>'', ''fatal: lstat(3) failure: %s\<newline>'',
          ''fatal: source is a directory: %s\<newline>'',
          ''fatal: source is not a regular file: %s\<newline>'']"
  by (simp add: late_formats_def)

lemma later_message:
  assumes "fmt \<in> set (''failed to open file: %s (%s)'' #
      ''failed to create temporary file: %s (%s)'' # late_formats)"
  shows "take 4095 (''fatal: '' @ fmt @ ''\<newline>'') \<notin>
     set [''fatal: source does not exist: %s\<newline>'', ''fatal: lstat(3) failure: %s\<newline>'',
          ''fatal: source is a directory: %s\<newline>'',
          ''fatal: source is not a regular file: %s\<newline>'']"
  by (rule bspec [OF later_messages_all assms])

lemma copy_messages_not_source:
  assumes "printed r = [] \<or>
   (\<exists>fmt a. printed r = [Stderr (take 4095 (''fatal: '' @ fmt @ ''\<newline>'')) a] \<and>
      fmt \<in> set (''failed to open file: %s (%s)'' # ''failed to create temporary file: %s (%s)'' #
                 late_formats))"
  shows "printed r \<noteq> [Stderr ''fatal: source does not exist: %s\<newline>'' a1] \<and>
         printed r \<noteq> [Stderr ''fatal: lstat(3) failure: %s\<newline>'' a2] \<and>
         printed r \<noteq> [Stderr ''fatal: source is a directory: %s\<newline>'' a3] \<and>
         printed r \<noteq> [Stderr ''fatal: source is not a regular file: %s\<newline>'' a4]"
proof (rule disjE [OF assms])
  assume "printed r = []"
  then show ?thesis by simp
next
  assume "\<exists>fmt a. printed r = [Stderr (take 4095 (''fatal: '' @ fmt @ ''\<newline>'')) a] \<and>
      fmt \<in> set (''failed to open file: %s (%s)'' # ''failed to create temporary file: %s (%s)'' #
                 late_formats)"
  then obtain fmt a where p: "printed r = [Stderr (take 4095 (''fatal: '' @ fmt @ ''\<newline>'')) a]"
    and fmt: "fmt \<in> set (''failed to open file: %s (%s)'' #
        ''failed to create temporary file: %s (%s)'' # late_formats)"
    by blast
  define msg where "msg = take 4095 (''fatal: '' @ fmt @ ''\<newline>'')"
  have nm: "msg \<notin>
     set [''fatal: source does not exist: %s\<newline>'', ''fatal: lstat(3) failure: %s\<newline>'',
          ''fatal: source is a directory: %s\<newline>'',
          ''fatal: source is not a regular file: %s\<newline>'']"
    unfolding msg_def by (rule later_message [OF fmt])
  have p': "printed r = [Stderr msg a]" unfolding msg_def by (rule p)
  from nm show ?thesis unfolding p' by simp
qed

section \<open>The help option\<close>

text \<open>
  Claim C7, as amended. The options are read from left to right and each is acted on
  when it is read, so \<^verbatim>\<open>-h\<close> ends the program only when the scan arrives at it: when
  every option before it has been accepted (\<open>accepted n\<close>) and \<^verbatim>\<open>getopt\<close> then returns
  \<^verbatim>\<open>h\<close>, the program prints the usage text with \<^verbatim>\<open>argv[0]\<close> to standard output and
  exits with status 0; whatever follows on the command line is not read, and the world
  is as it was.
\<close>

theorem help_when_reached:
  assumes "accepted n argv0 w (defaults w) [] args = Some (st, cl, rest)"
    and "fst (getopt cl rest) = G_flag (CHR ''h'')"
  shows "main (argv0 # args) w =
    \<lparr>exit_status = 0, printed = [Stdout install_help [S argv0]], final = w\<rparr>"
proof -
  obtain cl' rest' where g: "getopt cl rest = (G_flag (CHR ''h''), cl', rest')"
    using assms(2) by (cases "getopt cl rest") auto
  have "opts_loop argv0 w st cl rest =
      Inl \<lparr>exit_status = 0, printed = [Stdout install_help [S argv0]], final = w\<rparr>"
    by (rule loop_ends [OF g]) (simp_all add: opt_case_def)
  with accepted_loop [OF assms(1)] show ?thesis by (simp add: main_cons)
qed

theorem help_when_reached_witness:
  "main [''install'', ''-D'', ''-g'', ''0'', ''-lh'', ''-m'', ''999'', ''junk''] world0 =
    \<lparr>exit_status = 0, printed = [Stdout install_help [S ''install'']], final = world0\<rparr>"
proof -
  have a: "accepted (Suc (Suc (Suc 0))) ''install'' world0 (defaults world0) []
      [''-D'', ''-g'', ''0'', ''-lh'', ''-m'', ''999'', ''junk''] =
    Some (\<lparr>mkdirp = True, symbolic = True, owner = 1000, group = 0, mode = 493\<rparr>,
      ''h'', [''-m'', ''999'', ''junk''])"
    by (simp add: getopt_char_def opt_case_def strtoul_def has_hex_prefix_def digit_of_def
        isspace_def ULONG_MAX_def defaults_def world0_def)
  have b: "fst (getopt ''h'' [''-m'', ''999'', ''junk'']) = G_flag (CHR ''h'')"
    by (simp add: getopt_char_def)
  show ?thesis by (rule help_when_reached [OF a b])
qed

text \<open>
  Claim C7 as stated fails: a command line that contains \<^verbatim>\<open>-h\<close> after an option the
  program rejects ends with status 1 and prints no usage text.
\<close>

theorem help_not_first_counterexample:
  "''-h'' \<in> set [''install'', ''-m'', ''999'', ''-h''] \<and>
   exit_status (main [''install'', ''-m'', ''999'', ''-h''] world0) = 1 \<and>
   printed (main [''install'', ''-m'', ''999'', ''-h''] world0) =
     [Stderr ''fatal: invalid mode: %s\<newline>'' [S ''999'']]"
  by (simp add: main_def opts_loop.simps getopt_char_def opt_case_def strtoul_def
       has_hex_prefix_def digit_of_def isspace_def ULONG_MAX_def defaults_def fatal_def)



section \<open>The group and owner options\<close>




section \<open>Parent directories\<close>

text \<open>
  Claim C4. For a path without a slash \<^verbatim>\<open>mkparents\<close> returns 0 and leaves the world
  as it is. When \<^verbatim>\<open>malloc\<close> has room for the buffers, \<^verbatim>\<open>mkparents\<close> returns 0 and has
  called \<^verbatim>\<open>mkdir\<close> on the directories of the path in order, from the shortest to the
  longest: the recursion on the prefix comes before the \<^verbatim>\<open>mkdir\<close> of the current
  level. In that order the directories of each directory are exactly the ones tried
  before it, so its parent is tried (created, or found to exist) first; the last one
  is the immediate parent of the destination, the text before its last slash.
\<close>

theorem mkparents_bottom_up:
  "(CHR ''/'' \<notin> set path \<longrightarrow> mkparents path w = (0, w)) \<and>
   (heap_need path \<le> heap_free w \<longrightarrow>
      mkparents path w = (0, foldl (\<lambda>w d. mkdir_unchecked d w) w (spec_ancestors path))) \<and>
   (\<forall>k < length (spec_ancestors path).
      spec_ancestors (spec_ancestors path ! k) = take k (spec_ancestors path)) \<and>
   (spec_ancestors path \<noteq> [] \<longrightarrow>
      (\<exists>base. path = last (spec_ancestors path) @ CHR ''/'' # base \<and> CHR ''/'' \<notin> set base))"
proof -
  have "mkparents path w = (0, w)" if "CHR ''/'' \<notin> set path"
    using no_slash_scan [OF that] by (subst mkparents_unfold) simp
  then show ?thesis
    using mkparents_eq [of path w] ancestors_order [of _ path] ancestors_last [of path]
    by auto
qed

theorem mkparents_bottom_up_witness:
  "mkparents ''dst'' world0 = (0, world0) \<and>
   spec_ancestors ''a/b/c/dst'' = [''a'', ''a/b'', ''a/b/c''] \<and>
   fst (mkparents ''a/b/c/dst'' world0) = 0 \<and>
   map (\<lambda>d. map_option ftype (fs (snd (mkparents ''a/b/c/dst'' world0)) d))
     [''a'', ''a/b'', ''a/b/c'', ''a/b/c/dst''] = [Some S_IFDIR, Some S_IFDIR, Some S_IFDIR, None] \<and>
   spec_ancestors (spec_ancestors ''a/b/c/dst'' ! 2) = take 2 (spec_ancestors ''a/b/c/dst'')"
proof -
  have anc: "spec_ancestors ''a/b/c/dst'' = [''a'', ''a/b'', ''a/b/c'']"
    by code_simp
  have need: "heap_need ''a/b/c/dst'' \<le> heap_free world0"
    by (simp add: heap_need_def anc world0_def)
  have ns: "CHR ''/'' \<notin> set ''dst''" by simp
  have k: "2 < length (spec_ancestors ''a/b/c/dst'')" by (simp add: anc)
  note inst = mkparents_bottom_up [of "''a/b/c/dst''" world0]
  from inst need have run: "mkparents ''a/b/c/dst'' world0 =
      (0, foldl (\<lambda>w d. mkdir_unchecked d w) world0 [''a'', ''a/b'', ''a/b/c''])"
    by (simp add: anc)
  from inst k have ord: "spec_ancestors (spec_ancestors ''a/b/c/dst'' ! 2) =
      take 2 (spec_ancestors ''a/b/c/dst'')" by blast
  from mkparents_bottom_up [of "''dst''" world0] ns
  have none: "mkparents ''dst'' world0 = (0, world0)" by blast
  have dirs: "map (\<lambda>d. map_option ftype
        (fs (foldl (\<lambda>w d. mkdir_unchecked d w) world0 [''a'', ''a/b'', ''a/b/c'']) d))
      [''a'', ''a/b'', ''a/b/c'', ''a/b/c/dst''] = [Some S_IFDIR, Some S_IFDIR, Some S_IFDIR, None]"
    by (simp add: mkdir_unchecked_def fs_eval world0_def)
  show ?thesis using none anc run dirs ord by simp
qed



section \<open>The source of a copy\<close>

text \<open>
  Claim C6, as amended. In a run that reaches the copy (the options parsed, two
  operands, a mode of at most \<open>07777\<close>, memory for the buffers), the source is examined
  with \<^verbatim>\<open>lstat\<close> in the world \<open>prepared\<close>. A name that does not exist ends the run with
  the message that the source does not exist, any other failure of \<^verbatim>\<open>lstat\<close> with a
  message naming \<^verbatim>\<open>lstat\<close>, a directory with the message that the source is a
  directory, and any type other than regular file and symbolic link with the message
  that the source is not a regular file; each with status 1, the message on standard
  error, and in the world \<open>prepared\<close>. The file examined is the one the name itself
  refers to: a symbolic link passes the check whatever it leads to, and the run goes
  on to \<^verbatim>\<open>open\<close>, whose failure (as for a link to a name that does not exist) is
  reported as a failure to open the file. The world \<open>prepared\<close> differs from the world
  before the run in the directories that \<^verbatim>\<open>-D\<close> has created and in nothing else of the
  file system: every name refers to what it referred to before, except that a name
  that was free and is cut from the destination path before one of its slashes may
  now be a directory.
\<close>

theorem copy_source_checked:
  assumes parse: "opts_loop argv0 w (defaults w) [] args = Inr (st, [src, dst])"
    and copy: "\<not> symbolic st" and m: "mode st \<le> 4095"
    and heap: "length dst + 5 + (if mkdirp st then heap_need dst else 0) \<le> heap_free w"
    and len: "length dst + 4 \<le> INT_MAX"
  shows
    "(sys_lstat src (prepared st dst w) = Inl ENOENT \<longrightarrow>
        main (argv0 # args) w =
          \<lparr>exit_status = 1,
           printed = [Stderr ''fatal: source does not exist: %s\<newline>'' [S src]],
           final = prepared st dst w\<rparr>) \<and>
     (\<forall>e. sys_lstat src (prepared st dst w) = Inl e \<and> e \<noteq> ENOENT \<longrightarrow>
        main (argv0 # args) w =
          \<lparr>exit_status = 1,
           printed = [Stderr ''fatal: lstat(3) failure: %s\<newline>'' [E e]],
           final = prepared st dst w\<rparr>) \<and>
     (\<forall>s. sys_lstat src (prepared st dst w) = Inr s \<and> st_mode s = S_IFDIR \<longrightarrow>
        main (argv0 # args) w =
          \<lparr>exit_status = 1,
           printed = [Stderr ''fatal: source is a directory: %s\<newline>'' [S src]],
           final = prepared st dst w\<rparr>) \<and>
     (\<forall>s. sys_lstat src (prepared st dst w) = Inr s \<and> st_mode s \<noteq> S_IFDIR \<and>
          st_mode s \<noteq> S_IFLNK \<and> st_mode s \<noteq> S_IFREG \<longrightarrow>
        main (argv0 # args) w =
          \<lparr>exit_status = 1,
           printed = [Stderr ''fatal: source is not a regular file: %s\<newline>'' [S src]],
           final = prepared st dst w\<rparr>) \<and>
     (fault w (Sys_lstat src) = None \<and> lookup_err (fs (prepared st dst w)) src = None \<longrightarrow>
        (fs (prepared st dst w) src = None \<longrightarrow>
           main (argv0 # args) w =
             \<lparr>exit_status = 1,
              printed = [Stderr ''fatal: source does not exist: %s\<newline>'' [S src]],
              final = prepared st dst w\<rparr>) \<and>
        (\<forall>f. fs (prepared st dst w) src = Some f \<longrightarrow>
           (ftype f = S_IFDIR \<longrightarrow>
              main (argv0 # args) w =
                \<lparr>exit_status = 1,
                 printed = [Stderr ''fatal: source is a directory: %s\<newline>'' [S src]],
                 final = prepared st dst w\<rparr>) \<and>
           (ftype f \<noteq> S_IFDIR \<and> ftype f \<noteq> S_IFLNK \<and> ftype f \<noteq> S_IFREG \<longrightarrow>
              main (argv0 # args) w =
                \<lparr>exit_status = 1,
                 printed = [Stderr ''fatal: source is not a regular file: %s\<newline>'' [S src]],
                 final = prepared st dst w\<rparr>) \<and>
           (ftype f = S_IFLNK \<or> ftype f = S_IFREG \<longrightarrow>
              (\<forall>e. sys_open src (prepared st dst w) = Inl e \<longrightarrow>
                 main (argv0 # args) w =
                   \<lparr>exit_status = 1,
                    printed = [Stderr ''fatal: failed to open file: %s (%s)\<newline>'' [S src, E e]],
                    final = prepared st dst w\<rparr>) \<and>
              (\<forall>a. printed (main (argv0 # args) w) \<noteq>
                      [Stderr ''fatal: source does not exist: %s\<newline>'' a] \<and>
                   printed (main (argv0 # args) w) \<noteq>
                      [Stderr ''fatal: lstat(3) failure: %s\<newline>'' a] \<and>
                   printed (main (argv0 # args) w) \<noteq>
                      [Stderr ''fatal: source is a directory: %s\<newline>'' a] \<and>
                   printed (main (argv0 # args) w) \<noteq>
                      [Stderr ''fatal: source is not a regular file: %s\<newline>'' a])))) \<and>
     (\<forall>p. fs (prepared st dst w) p = fs w p \<or>
          (mkdirp st \<and> fs w p = None \<and> p \<in> set (spec_ancestors dst) \<and>
           map_option ftype (fs (prepared st dst w) p) = Some S_IFDIR))"
proof -
  let ?w = "prepared st dst w"
  let ?r = "main (argv0 # args) w"
  define R1 where "R1 = \<lparr>exit_status = 1,
      printed = [Stderr ''fatal: source does not exist: %s\<newline>'' [S src]], final = ?w\<rparr>"
  define R2 where "R2 = (\<lambda>e. \<lparr>exit_status = 1,
      printed = [Stderr ''fatal: lstat(3) failure: %s\<newline>'' [E e]], final = ?w\<rparr>)"
  define R3 where "R3 = \<lparr>exit_status = 1,
      printed = [Stderr ''fatal: source is a directory: %s\<newline>'' [S src]], final = ?w\<rparr>"
  define R4 where "R4 = \<lparr>exit_status = 1,
      printed = [Stderr ''fatal: source is not a regular file: %s\<newline>'' [S src]],
      final = ?w\<rparr>"
  define R5 where "R5 = (\<lambda>e. \<lparr>exit_status = 1,
      printed = [Stderr ''fatal: failed to open file: %s (%s)\<newline>'' [S src, E e]],
      final = ?w\<rparr>)"
  define N where "N = (\<lambda>a.
      printed ?r \<noteq> [Stderr ''fatal: source does not exist: %s\<newline>'' a] \<and>
      printed ?r \<noteq> [Stderr ''fatal: lstat(3) failure: %s\<newline>'' a] \<and>
      printed ?r \<noteq> [Stderr ''fatal: source is a directory: %s\<newline>'' a] \<and>
      printed ?r \<noteq> [Stderr ''fatal: source is not a regular file: %s\<newline>'' a])"
  have run: "?r =
      (case copy_file src (dst @ ''.tmp'') ?w of
         Inl r \<Rightarrow> r
       | Inr w3 \<Rightarrow> set_attrs_rename st (dst @ ''.tmp'') dst w3)"
    using main_parsed [OF parse m] install_eq [OF heap len] copy by simp
  have a: "?r = R1" if "sys_lstat src ?w = Inl ENOENT"
    unfolding R1_def using that by (simp add: run copy_file_def fatal_def)
  have b: "?r = R2 e" if "sys_lstat src ?w = Inl e" "e \<noteq> ENOENT" for e
    unfolding R2_def using that by (simp add: run copy_file_def fatal_def)
  have c: "?r = R3" if "sys_lstat src ?w = Inr s" "st_mode s = S_IFDIR" for s
    unfolding R3_def using that by (simp add: run copy_file_def fatal_def)
  have d: "?r = R4"
    if "sys_lstat src ?w = Inr s" "st_mode s \<noteq> S_IFDIR" "st_mode s \<noteq> S_IFLNK"
      "st_mode s \<noteq> S_IFREG" for s
    unfolding R4_def using that by (simp add: run copy_file_def fatal_def)
  have ls: "sys_lstat src ?w =
      (case fs ?w src of None \<Rightarrow> Inl ENOENT
       | Some f \<Rightarrow> Inr \<lparr>st_mode = ftype f, st_blksize = blksize w\<rparr>)"
    if "fault w (Sys_lstat src) = None" "lookup_err (fs ?w) src = None"
    using that by (simp add: sys_lstat_def prepared_env split: option.splits)
  have e: "?r = R5 x"
    if "fault w (Sys_lstat src) = None" "lookup_err (fs ?w) src = None"
      "fs ?w src = Some f" "ftype f = S_IFLNK \<or> ftype f = S_IFREG" "sys_open src ?w = Inl x"
    for f x
    unfolding R5_def using that ls [OF that(1,2)] by (auto simp: run copy_file_def fatal_def)
  have f1: "?r = R1"
    if "fault w (Sys_lstat src) = None" "lookup_err (fs ?w) src = None" "fs ?w src = None"
    using a ls [OF that(1,2)] that(3) by simp
  have f2: "?r = R3"
    if "fault w (Sys_lstat src) = None" "lookup_err (fs ?w) src = None"
      "fs ?w src = Some f" "ftype f = S_IFDIR" for f
    using c [of "\<lparr>st_mode = ftype f, st_blksize = blksize w\<rparr>"] ls [OF that(1,2)] that(3,4)
    by simp
  have f3: "?r = R4"
    if "fault w (Sys_lstat src) = None" "lookup_err (fs ?w) src = None"
      "fs ?w src = Some f" "ftype f \<noteq> S_IFDIR" "ftype f \<noteq> S_IFLNK" "ftype f \<noteq> S_IFREG" for f
    using d [of "\<lparr>st_mode = ftype f, st_blksize = blksize w\<rparr>"] ls [OF that(1,2)] that(3,4,5,6)
    by simp
  have f4: "N x"
    if "fault w (Sys_lstat src) = None" "lookup_err (fs ?w) src = None"
      "fs ?w src = Some f" "ftype f = S_IFLNK \<or> ftype f = S_IFREG"
    for f x
  proof -
    have ls': "sys_lstat src ?w = Inr \<lparr>st_mode = ftype f, st_blksize = blksize w\<rparr>"
      using ls [OF that(1,2)] that(3) by simp
    have ty: "st_mode \<lparr>st_mode = ftype f, st_blksize = blksize w\<rparr> = S_IFLNK \<or>
        st_mode \<lparr>st_mode = ftype f, st_blksize = blksize w\<rparr> = S_IFREG"
      using that(4) by simp
    note cm = copy_messages [OF ls' ty, where tmp = "dst @ ''.tmp''" and st = st and dst = dst]
    show ?thesis unfolding N_def run by (rule copy_messages_not_source [OF cm])
  qed
  note ch = prepared_changes [of st dst w]
  have p1: "sys_lstat src ?w = Inl ENOENT \<longrightarrow> ?r = R1" using a by simp
  have p2: "\<forall>e. sys_lstat src ?w = Inl e \<and> e \<noteq> ENOENT \<longrightarrow> ?r = R2 e" using b by simp
  have p3: "\<forall>s. sys_lstat src ?w = Inr s \<and> st_mode s = S_IFDIR \<longrightarrow> ?r = R3"
    using c by blast
  have p4: "\<forall>s. sys_lstat src ?w = Inr s \<and> st_mode s \<noteq> S_IFDIR \<and>
          st_mode s \<noteq> S_IFLNK \<and> st_mode s \<noteq> S_IFREG \<longrightarrow> ?r = R4"
    using d by blast
  have p5: "fault w (Sys_lstat src) = None \<and> lookup_err (fs ?w) src = None \<longrightarrow>
        (fs ?w src = None \<longrightarrow> ?r = R1) \<and>
        (\<forall>f. fs ?w src = Some f \<longrightarrow>
           (ftype f = S_IFDIR \<longrightarrow> ?r = R3) \<and>
           (ftype f \<noteq> S_IFDIR \<and> ftype f \<noteq> S_IFLNK \<and> ftype f \<noteq> S_IFREG \<longrightarrow> ?r = R4) \<and>
           (ftype f = S_IFLNK \<or> ftype f = S_IFREG \<longrightarrow>
              (\<forall>e. sys_open src ?w = Inl e \<longrightarrow> ?r = R5 e) \<and> (\<forall>a. N a)))"
  proof (rule impI)
    assume h: "fault w (Sys_lstat src) = None \<and> lookup_err (fs ?w) src = None"
    then have h1: "fault w (Sys_lstat src) = None" and h2: "lookup_err (fs ?w) src = None"
      by simp_all
    have q1: "fs ?w src = None \<longrightarrow> ?r = R1" using f1 [OF h1 h2] by simp
    have q2: "(ftype f = S_IFDIR \<longrightarrow> ?r = R3) \<and>
           (ftype f \<noteq> S_IFDIR \<and> ftype f \<noteq> S_IFLNK \<and> ftype f \<noteq> S_IFREG \<longrightarrow> ?r = R4) \<and>
           (ftype f = S_IFLNK \<or> ftype f = S_IFREG \<longrightarrow>
              (\<forall>e. sys_open src ?w = Inl e \<longrightarrow> ?r = R5 e) \<and> (\<forall>a. N a))"
      if sf: "fs ?w src = Some f" for f
    proof (intro conjI impI allI)
      assume "ftype f = S_IFDIR"
      then show "?r = R3" by (rule f2 [OF h1 h2 sf])
    next
      assume "ftype f \<noteq> S_IFDIR \<and> ftype f \<noteq> S_IFLNK \<and> ftype f \<noteq> S_IFREG"
      then show "?r = R4" using f3 [OF h1 h2 sf] by simp
    next
      fix x
      assume "ftype f = S_IFLNK \<or> ftype f = S_IFREG" "sys_open src ?w = Inl x"
      then show "?r = R5 x" by (rule e [OF h1 h2 sf])
    next
      fix x
      assume "ftype f = S_IFLNK \<or> ftype f = S_IFREG"
      then show "N x" by (rule f4 [OF h1 h2 sf])
    qed
    have q3: "\<forall>f. fs ?w src = Some f \<longrightarrow>
           (ftype f = S_IFDIR \<longrightarrow> ?r = R3) \<and>
           (ftype f \<noteq> S_IFDIR \<and> ftype f \<noteq> S_IFLNK \<and> ftype f \<noteq> S_IFREG \<longrightarrow> ?r = R4) \<and>
           (ftype f = S_IFLNK \<or> ftype f = S_IFREG \<longrightarrow>
              (\<forall>e. sys_open src ?w = Inl e \<longrightarrow> ?r = R5 e) \<and> (\<forall>a. N a))"
      by (intro allI impI) (erule q2)
    show "(fs ?w src = None \<longrightarrow> ?r = R1) \<and>
        (\<forall>f. fs ?w src = Some f \<longrightarrow>
           (ftype f = S_IFDIR \<longrightarrow> ?r = R3) \<and>
           (ftype f \<noteq> S_IFDIR \<and> ftype f \<noteq> S_IFLNK \<and> ftype f \<noteq> S_IFREG \<longrightarrow> ?r = R4) \<and>
           (ftype f = S_IFLNK \<or> ftype f = S_IFREG \<longrightarrow>
              (\<forall>e. sys_open src ?w = Inl e \<longrightarrow> ?r = R5 e) \<and> (\<forall>a. N a)))"
      by (rule conjI [OF q1 q3])
  qed
  have p6: "\<forall>p. fs ?w p = fs w p \<or>
          (mkdirp st \<and> fs w p = None \<and> p \<in> set (spec_ancestors dst) \<and>
           map_option ftype (fs ?w p) = Some S_IFDIR)"
    by (rule allI) (rule prepared_changes)
  have "(sys_lstat src ?w = Inl ENOENT \<longrightarrow> ?r = R1) \<and>
     (\<forall>e. sys_lstat src ?w = Inl e \<and> e \<noteq> ENOENT \<longrightarrow> ?r = R2 e) \<and>
     (\<forall>s. sys_lstat src ?w = Inr s \<and> st_mode s = S_IFDIR \<longrightarrow> ?r = R3) \<and>
     (\<forall>s. sys_lstat src ?w = Inr s \<and> st_mode s \<noteq> S_IFDIR \<and>
          st_mode s \<noteq> S_IFLNK \<and> st_mode s \<noteq> S_IFREG \<longrightarrow> ?r = R4) \<and>
     (fault w (Sys_lstat src) = None \<and> lookup_err (fs ?w) src = None \<longrightarrow>
        (fs ?w src = None \<longrightarrow> ?r = R1) \<and>
        (\<forall>f. fs ?w src = Some f \<longrightarrow>
           (ftype f = S_IFDIR \<longrightarrow> ?r = R3) \<and>
           (ftype f \<noteq> S_IFDIR \<and> ftype f \<noteq> S_IFLNK \<and> ftype f \<noteq> S_IFREG \<longrightarrow> ?r = R4) \<and>
           (ftype f = S_IFLNK \<or> ftype f = S_IFREG \<longrightarrow>
              (\<forall>e. sys_open src ?w = Inl e \<longrightarrow> ?r = R5 e) \<and> (\<forall>a. N a)))) \<and>
     (\<forall>p. fs ?w p = fs w p \<or>
          (mkdirp st \<and> fs w p = None \<and> p \<in> set (spec_ancestors dst) \<and>
           map_option ftype (fs ?w p) = Some S_IFDIR))"
    by (rule conjI [OF p1 conjI [OF p2 conjI [OF p3 conjI [OF p4 conjI [OF p5 p6]]]]])
  then show ?thesis unfolding R1_def R2_def R3_def R4_def R5_def N_def .
qed

theorem copy_source_checked_witness:
  "main [''install'', ''nosuch'', ''dst''] world0 =
     \<lparr>exit_status = 1,
      printed = [Stderr ''fatal: source does not exist: %s\<newline>'' [S ''nosuch'']],
      final = prepared (defaults world0) ''dst'' world0\<rparr> \<and>
   fs (prepared (defaults world0) ''dst'' world0) ''dst'' = fs world0 ''dst'' \<and>
   main [''install'', ''-D'', ''a'', ''a/dst''] world0 =
     \<lparr>exit_status = 1,
      printed = [Stderr ''fatal: source is a directory: %s\<newline>'' [S ''a'']],
      final = prepared ((defaults world0)\<lparr>mkdirp := True\<rparr>) ''a/dst'' world0\<rparr> \<and>
   map_option ftype (fs world_links ''dangling'') = Some S_IFLNK \<and>
   main [''install'', ''dangling'', ''dst''] world_links =
     \<lparr>exit_status = 1,
      printed = [Stderr ''fatal: failed to open file: %s (%s)\<newline>'' [S ''dangling'', E ENOENT]],
      final = prepared (defaults world_links) ''dst'' world_links\<rparr>"
proof -
  have p1: "opts_loop ''install'' world0 (defaults world0) [] [''nosuch'', ''dst''] =
      Inr (defaults world0, [''nosuch'', ''dst''])"
    by (simp add: opts_loop.simps)
  have c1: "\<not> symbolic (defaults world0)" and m1: "mode (defaults world0) \<le> 4095"
    by (simp_all add: defaults_def)
  have h1: "length ''dst'' + 5 + (if mkdirp (defaults world0) then heap_need ''dst'' else 0)
      \<le> heap_free world0"
    by (simp add: defaults_def world0_def)
  have l1: "length ''dst'' + 4 \<le> INT_MAX" by (simp add: INT_MAX_def)
  have s1: "sys_lstat ''nosuch'' (prepared (defaults world0) ''dst'' world0) = Inl ENOENT"
    by (simp add: fs_eval prepared_def defaults_def world0_def)
  note a = copy_source_checked [OF p1 c1 m1 h1 l1]
  have a1: "main [''install'', ''nosuch'', ''dst''] world0 =
     \<lparr>exit_status = 1,
      printed = [Stderr ''fatal: source does not exist: %s\<newline>'' [S ''nosuch'']],
      final = prepared (defaults world0) ''dst'' world0\<rparr>"
    using a s1 by blast
  have "\<not> mkdirp (defaults world0)" by (simp add: defaults_def)
  with a have a2: "fs (prepared (defaults world0) ''dst'' world0) ''dst'' = fs world0 ''dst''"
    by blast
  let ?st = "(defaults world0)\<lparr>mkdirp := True\<rparr>"
  have p2: "opts_loop ''install'' world0 (defaults world0) [] [''-D'', ''a'', ''a/dst''] =
      Inr (?st, [''a'', ''a/dst''])"
    by (simp add: opts_loop.simps scan_eval)
  have c2: "\<not> symbolic ?st" and m2: "mode ?st \<le> 4095"
    by (simp_all add: defaults_def)
  have anc: "spec_ancestors ''a/dst'' = [''a'']" by (simp add: spec_ancestors_def)
  have h2: "length ''a/dst'' + 5 + (if mkdirp ?st then heap_need ''a/dst'' else 0) \<le> heap_free world0"
    by (simp add: heap_need_def anc world0_def)
  have l2: "length ''a/dst'' + 4 \<le> INT_MAX" by (simp add: INT_MAX_def)
  have s2: "sys_lstat ''a'' (prepared ?st ''a/dst'' world0) = Inr \<lparr>st_mode = S_IFDIR, st_blksize = 4096\<rparr>"
    by (simp add: fs_eval prepared_def anc mkdir_unchecked_def defaults_def world0_def)
  note b = copy_source_checked [OF p2 c2 m2 h2 l2]
  have b1: "main [''install'', ''-D'', ''a'', ''a/dst''] world0 =
     \<lparr>exit_status = 1,
      printed = [Stderr ''fatal: source is a directory: %s\<newline>'' [S ''a'']],
      final = prepared ?st ''a/dst'' world0\<rparr>"
    using b s2 by simp
  let ?sl = "defaults world_links"
  have p3: "opts_loop ''install'' world_links ?sl [] [''dangling'', ''dst''] =
      Inr (?sl, [''dangling'', ''dst''])"
    by (simp add: opts_loop.simps)
  have c3: "\<not> symbolic ?sl" and m3: "mode ?sl \<le> 4095"
    by (simp_all add: defaults_def)
  have h3: "length ''dst'' + 5 + (if mkdirp ?sl then heap_need ''dst'' else 0) \<le> heap_free world_links"
    by (simp add: defaults_def world_links_def world0_def)
  have pr3: "prepared ?sl ''dst'' world_links = world_links\<lparr>heap_free := heap_free world_links - 8\<rparr>"
    by (simp add: prepared_def defaults_def)
  have f3: "fault world_links (Sys_lstat ''dangling'') = None \<and>
      lookup_err (fs (prepared ?sl ''dst'' world_links)) ''dangling'' = None \<and>
      fs (prepared ?sl ''dst'' world_links) ''dangling'' = Some (symlink_to ''nowhere'') \<and>
      ftype (symlink_to ''nowhere'') = S_IFLNK"
    unfolding pr3 by (simp add: fs_eval world_links_def world0_def symlink_to_def)
  have o3: "sys_open ''dangling'' (prepared ?sl ''dst'' world_links) = Inl ENOENT"
    unfolding pr3 by (simp add: fs_eval world_links_def world0_def symlink_to_def)
  note c = copy_source_checked [OF p3 c3 m3 h3 l1]
  have c1: "main [''install'', ''dangling'', ''dst''] world_links =
     \<lparr>exit_status = 1,
      printed = [Stderr ''fatal: failed to open file: %s (%s)\<newline>'' [S ''dangling'', E ENOENT]],
      final = prepared ?sl ''dst'' world_links\<rparr>"
    using c f3 o3 by blast
  have t: "map_option ftype (fs world_links ''dangling'') = Some S_IFLNK"
    by (simp add: world_links_def symlink_to_def)
  from a1 a2 b1 c1 t show ?thesis by simp
qed

text \<open>
  Claim C6 as stated fails for the destination: with \<^verbatim>\<open>-D\<close> the directories of the
  destination path are created before the source is examined. The path \<^verbatim>\<open>a/\<close> names
  the directory \<^verbatim>\<open>a\<close>; \<^verbatim>\<open>mkparents("a/")\<close> creates \<^verbatim>\<open>a\<close>, so
  \<^verbatim>\<open>install -D nosuch a/\<close> ends with status 1 and the message that the source does not
  exist, and the destination, which did not exist, is a directory now.
\<close>

theorem directory_created_before_check_counterexample:
  "fs world0 ''a'' = None \<and>
   spec_ancestors ''a/'' = [''a''] \<and>
   exit_status (main [''install'', ''-D'', ''nosuch'', ''a/''] world0) = 1 \<and>
   printed (main [''install'', ''-D'', ''nosuch'', ''a/''] world0) =
     [Stderr ''fatal: source does not exist: %s\<newline>'' [S ''nosuch'']] \<and>
   map_option ftype (fs (final (main [''install'', ''-D'', ''nosuch'', ''a/''] world0)) ''a'') =
     Some S_IFDIR"
proof -
  let ?st = "(defaults world0)\<lparr>mkdirp := True\<rparr>"
  have parse: "opts_loop ''install'' world0 (defaults world0) [] [''-D'', ''nosuch'', ''a/''] =
      Inr (?st, [''nosuch'', ''a/''])"
    by (simp add: opts_loop.simps scan_eval)
  have m: "mode ?st \<le> 4095" by (simp add: defaults_def)
  have anc: "spec_ancestors ''a/'' = [''a'']" by (simp add: spec_ancestors_def)
  have heap: "length ''a/'' + 5 + (if mkdirp ?st then heap_need ''a/'' else 0) \<le> heap_free world0"
    by (simp add: heap_need_def anc world0_def)
  have len: "length ''a/'' + 4 \<le> INT_MAX" by (simp add: INT_MAX_def)
  have "exit_status (main [''install'', ''-D'', ''nosuch'', ''a/''] world0) = 1 \<and>
      printed (main [''install'', ''-D'', ''nosuch'', ''a/''] world0) =
        [Stderr ''fatal: source does not exist: %s\<newline>'' [S ''nosuch'']] \<and>
      map_option ftype (fs (final (main [''install'', ''-D'', ''nosuch'', ''a/''] world0)) ''a'') =
        Some S_IFDIR"
    unfolding main_parsed [OF parse m] install_eq [OF heap len]
    by (simp add: copy_file_def fs_eval prepared_def anc mkdir_unchecked_def Let_def fatal_def
        defaults_def world0_def regular_def)
  moreover have "fs world0 ''a'' = None" by (simp add: world0_def)
  ultimately show ?thesis using anc by simp
qed

section \<open>Failures after the temporary path exists\<close>

text \<open>
  Take a run that reaches the installation and ends with one of the errors that come
  after the temporary path has been created: the \<^verbatim>\<open>malloc\<close> of the copy buffer,
  \<^verbatim>\<open>write\<close>, \<^verbatim>\<open>chmod\<close>, \<^verbatim>\<open>lchown\<close> or \<^verbatim>\<open>rename\<close>. Its exit status is 1 and the
  temporary path still names a file in the world it leaves. The destination names what
  it named before the run when the temporary path does not lead to it: in copy mode,
  when no symbolic link was at the temporary path before the run (\<^verbatim>\<open>open\<close> would write
  through it); in link mode, when the new link does not resolve to the destination
  (\<^verbatim>\<open>chmod\<close> changes the file a link leads to).
\<close>

lemma temporary_left_behind:
  assumes parse: "opts_loop argv0 w (defaults w) [] args = Inr (st, [src, dst])"
    and m: "mode st \<le> 4095"
    and heap: "length dst + 5 + (if mkdirp st then heap_need dst else 0) \<le> heap_free w"
    and len: "length dst + 4 \<le> INT_MAX"
    and away: "if symbolic st
       then follow SYMLOOP_MAX (fs (final (main (argv0 # args) w))) (dst @ ''.tmp'') \<noteq> Inr dst
       else (\<forall>g. fs w (dst @ ''.tmp'') = Some g \<longrightarrow> ftype g \<noteq> S_IFLNK)"
    and late: "printed (main (argv0 # args) w) =
        [Stderr (take 4095 (''fatal: '' @ fmt @ ''\<newline>'')) a]"
    and fmt: "fmt \<in> set late_formats"
  shows "exit_status (main (argv0 # args) w) = 1 \<and>
     fs (final (main (argv0 # args) w)) (dst @ ''.tmp'') \<noteq> None \<and>
     fs (final (main (argv0 # args) w)) dst = fs w dst"
proof -
  let ?tmp = "dst @ ''.tmp''"
  let ?P = "prepared st dst w"
  let ?r = "main (argv0 # args) w"
  note run = main_run [OF parse m heap len]
  note ne = tmp_not_dst [of dst]
  have Pdst: "fs ?P dst = fs w dst" by (rule prepared_dst)
  have Ptmp: "fs ?P ?tmp = fs w ?tmp" by (rule prepared_tmp)
  have not_early: False if "?r = fatal fmt1 a1 w1" "fmt1 \<in> set early_formats" for fmt1 a1 w1
    using early_not_late [of fmt1 a1 w1 fmt a] that late fmt by simp
  have not_ok: False if "?r = \<lparr>exit_status = 0, printed = [], final = w1\<rparr>" for w1
    using that late by simp
  show ?thesis
  proof (cases "symbolic st")
    case True
    with away have al: "follow SYMLOOP_MAX (fs (final ?r)) ?tmp \<noteq> Inr dst" by simp
    show ?thesis
    proof (cases "sys_symlink src ?tmp ?P")
      case (Inl e)
      with run True have "?r = fatal ''symlink(3) failure: %s'' [E e] ?P" by simp
      from not_early [OF this] show ?thesis by (simp add: early_formats_def)
    next
      case (Inr w0)
      then obtain l where l: "fs w0 ?tmp = Some l" and rest: "\<forall>p. p \<noteq> ?tmp \<longrightarrow> fs w0 p = fs ?P p"
        by (auto simp: sys_symlink_def split: option.splits if_splits)
      from Inr run True have r: "?r = set_attrs_rename st ?tmp dst w0" by simp
      from set_attrs_rename_outcome_any [OF l ne, of st] consider
        (failed) fmt' a' w1 where "set_attrs_rename st ?tmp dst w0 = fatal fmt' a' w1"
          "fs w1 ?tmp \<noteq> None"
          "follow SYMLOOP_MAX (fs w1) ?tmp \<noteq> Inr dst \<longrightarrow> fs w1 dst = fs w0 dst"
        | (finished) w1 where "set_attrs_rename st ?tmp dst w0 = \<lparr>exit_status = 0, printed = [], final = w1\<rparr>"
        by blast
      then show ?thesis
      proof cases
        case failed
        with r al rest ne Pdst show ?thesis by (simp add: fatal_simps)
      next
        case finished
        with r not_ok show ?thesis by simp
      qed
    qed
  next
    case False
    with away Ptmp have plain: "\<forall>g. fs ?P ?tmp = Some g \<longrightarrow> ftype g \<noteq> S_IFLNK" by simp
    from False run have r: "?r = (case copy_file src ?tmp ?P of Inl r \<Rightarrow> r
        | Inr w3 \<Rightarrow> set_attrs_rename st ?tmp dst w3)" by simp
    from copy_file_outcome [of ?P ?tmp src, OF plain] consider
      (early) fmt1 a1 where "copy_file src ?tmp ?P = Inl (fatal fmt1 a1 ?P)" "fmt1 \<in> set early_formats"
      | (late) fmt1 a1 w1 where "copy_file src ?tmp ?P = Inl (fatal fmt1 a1 w1)" "holds_file ?tmp ?P w1"
      | (copied) w3 where "copy_file src ?tmp ?P = Inr w3" "holds_file ?tmp ?P w3"
      by blast
    then show ?thesis
    proof cases
      case early
      with r have "?r = fatal fmt1 a1 ?P" by simp
      from not_early [OF this early(2)] show ?thesis ..
    next
      case late
      with r have "?r = fatal fmt1 a1 w1" by simp
      with late(2) ne Pdst show ?thesis by (auto simp: fatal_simps holds_file_def)
    next
      case copied
      then obtain g where g: "fs w3 ?tmp = Some g" "ftype g \<noteq> S_IFLNK"
        and d3: "fs w3 dst = fs ?P dst"
        using ne by (auto simp: holds_file_def)
      from copied r have r3: "?r = set_attrs_rename st ?tmp dst w3" by simp
      from set_attrs_rename_outcome [OF g ne, of st] consider
        (failed) fmt' a' w1 where "set_attrs_rename st ?tmp dst w3 = fatal fmt' a' w1"
          "fs w1 ?tmp \<noteq> None" "fs w1 dst = fs w3 dst"
        | (finished) w1 where "set_attrs_rename st ?tmp dst w3 = \<lparr>exit_status = 0, printed = [], final = w1\<rparr>"
        by blast
      then show ?thesis
      proof cases
        case failed
        with r3 d3 Pdst show ?thesis by (simp add: fatal_simps)
      next
        case finished
        with r3 not_ok show ?thesis by simp
      qed
    qed
  qed
qed

lemma temporary_left_behind_runs:
  "exit_status (main [''install'', ''-o'', ''root'', ''src'', ''dst''] world0) = 1 \<and>
   printed (main [''install'', ''-o'', ''root'', ''src'', ''dst''] world0) =
     [Stderr ''fatal: lchown(3) failure: %s\<newline>'' [E EPERM]] \<and>
   fs (final (main [''install'', ''-o'', ''root'', ''src'', ''dst''] world0)) ''dst.tmp'' \<noteq> None \<and>
   fs (final (main [''install'', ''-o'', ''root'', ''src'', ''dst''] world0)) ''dst'' = None \<and>
   exit_status (main [''install'', ''-l'', ''nosuch'', ''dst''] world0) = 1 \<and>
   printed (main [''install'', ''-l'', ''nosuch'', ''dst''] world0) =
     [Stderr ''fatal: chmod(3) failure: %s\<newline>'' [E ENOENT]] \<and>
   fs (final (main [''install'', ''-l'', ''nosuch'', ''dst''] world0)) ''dst.tmp'' \<noteq> None \<and>
   fs (final (main [''install'', ''-l'', ''nosuch'', ''dst''] world0)) ''dst'' = None"
proof -
  let ?st = "(defaults world0)\<lparr>owner := 0\<rparr>"
  have parse: "opts_loop ''install'' world0 (defaults world0) [] [''-o'', ''root'', ''src'', ''dst''] =
      Inr (?st, [''src'', ''dst''])"
    by (simp add: opts_loop.simps scan_eval world0_def)
  have m: "mode ?st \<le> 4095" by (simp add: defaults_def)
  have heap: "length ''dst'' + 5 + (if mkdirp ?st then heap_need ''dst'' else 0) \<le> heap_free world0"
    by (simp add: defaults_def world0_def)
  have len: "length ''dst'' + 4 \<le> INT_MAX" by (simp add: INT_MAX_def)
  have away: "if symbolic ?st
       then follow SYMLOOP_MAX
         (fs (final (main (''install'' # [''-o'', ''root'', ''src'', ''dst'']) world0)))
         (''dst'' @ ''.tmp'') \<noteq> Inr ''dst''
       else (\<forall>g. fs world0 (''dst'' @ ''.tmp'') = Some g \<longrightarrow> ftype g \<noteq> S_IFLNK)"
    by (simp add: defaults_def world0_def)
  have late: "printed (main (''install'' # [''-o'', ''root'', ''src'', ''dst'']) world0) =
      [Stderr (take 4095 (''fatal: '' @ ''lchown(3) failure: %s'' @ ''\<newline>'')) [E EPERM]]"
    unfolding main_run [OF parse m heap len]
    by (simp add: run_eval defaults_def world0_def regular_def)
  have fmt: "''lchown(3) failure: %s'' \<in> set late_formats" by (simp add: late_formats_def)
  note a = temporary_left_behind [OF parse m heap len away late fmt]
  let ?sl = "(defaults world0)\<lparr>symbolic := True\<rparr>"
  have parse2: "opts_loop ''install'' world0 (defaults world0) [] [''-l'', ''nosuch'', ''dst''] =
      Inr (?sl, [''nosuch'', ''dst''])"
    by (simp add: opts_loop.simps scan_eval)
  have m2: "mode ?sl \<le> 4095" by (simp add: defaults_def)
  have heap2: "length ''dst'' + 5 + (if mkdirp ?sl then heap_need ''dst'' else 0) \<le> heap_free world0"
    by (simp add: defaults_def world0_def)
  have away2: "if symbolic ?sl
       then follow SYMLOOP_MAX
         (fs (final (main (''install'' # [''-l'', ''nosuch'', ''dst'']) world0)))
         (''dst'' @ ''.tmp'') \<noteq> Inr ''dst''
       else (\<forall>g. fs world0 (''dst'' @ ''.tmp'') = Some g \<longrightarrow> ftype g \<noteq> S_IFLNK)"
    unfolding main_run [OF parse2 m2 heap2 len]
    by (simp add: run_eval defaults_def world0_def regular_def)
  have late2: "printed (main (''install'' # [''-l'', ''nosuch'', ''dst'']) world0) =
      [Stderr (take 4095 (''fatal: '' @ ''chmod(3) failure: %s'' @ ''\<newline>'')) [E ENOENT]]"
    unfolding main_run [OF parse2 m2 heap2 len]
    by (simp add: run_eval defaults_def world0_def regular_def)
  have fmt2: "''chmod(3) failure: %s'' \<in> set late_formats" by (simp add: late_formats_def)
  note b = temporary_left_behind [OF parse2 m2 heap2 len away2 late2 fmt2]
  from a b late late2 show ?thesis by (simp add: world0_def)
qed

text \<open>
  Claim C8 does not hold of the code. In \<open>world_bar\<close> the destination \<^verbatim>\<open>bar/foo\<close> is a
  regular file with mode \<^verbatim>\<open>0644\<close> (420) that belongs to the caller, who is not the
  superuser. \<^verbatim>\<open>install -l -m 600 -o root foo bar/foo\<close> creates the link \<^verbatim>\<open>bar/foo.tmp\<close>
  with the target \<^verbatim>\<open>foo\<close>, which is read from the directory \<^verbatim>\<open>bar\<close> and so leads to the
  destination; \<^verbatim>\<open>chmod\<close> follows the link and sets the mode of the destination to
  \<^verbatim>\<open>0600\<close> (384); \<^verbatim>\<open>lchown\<close> then fails with \<^verbatim>\<open>EPERM\<close>. The run ends with status 1, the
  temporary link is left behind, and the destination has been modified.
\<close>

theorem failed_link_changes_destination:
  "map_option ftype (fs world_bar ''bar/foo'') = Some S_IFREG \<and>
   map_option perm (fs world_bar ''bar/foo'') = Some 420 \<and>
   exit_status (main [''install'', ''-l'', ''-m'', ''600'', ''-o'', ''root'', ''foo'', ''bar/foo'']
      world_bar) = 1 \<and>
   printed (main [''install'', ''-l'', ''-m'', ''600'', ''-o'', ''root'', ''foo'', ''bar/foo'']
      world_bar) = [Stderr ''fatal: lchown(3) failure: %s\<newline>'' [E EPERM]] \<and>
   map_option bytes
     (fs (final (main [''install'', ''-l'', ''-m'', ''600'', ''-o'', ''root'', ''foo'', ''bar/foo'']
        world_bar)) ''bar/foo.tmp'') = Some ''foo'' \<and>
   map_option perm
     (fs (final (main [''install'', ''-l'', ''-m'', ''600'', ''-o'', ''root'', ''foo'', ''bar/foo'']
        world_bar)) ''bar/foo'') = Some 384"
proof -
  let ?st = "(defaults world_bar)\<lparr>symbolic := True, mode := 384, owner := 0\<rparr>"
  let ?args = "[''-l'', ''-m'', ''600'', ''-o'', ''root'', ''foo'', ''bar/foo'']"
  have parse: "opts_loop ''install'' world_bar (defaults world_bar) [] ?args =
      Inr (?st, [''foo'', ''bar/foo''])"
    by (simp add: opts_loop.simps scan_eval world_bar_def world0_def)
  have m: "mode ?st \<le> 4095" by simp
  have heap: "length ''bar/foo'' + 5 + (if mkdirp ?st then heap_need ''bar/foo'' else 0)
      \<le> heap_free world_bar"
    by (simp add: defaults_def world_bar_def world0_def)
  have len: "length ''bar/foo'' + 4 \<le> INT_MAX" by (simp add: INT_MAX_def)
  have before: "map_option ftype (fs world_bar ''bar/foo'') = Some S_IFREG \<and>
      map_option perm (fs world_bar ''bar/foo'') = Some 420"
    by (simp add: world_bar_def regular_def)
  have "exit_status (main (''install'' # ?args) world_bar) = 1 \<and>
      printed (main (''install'' # ?args) world_bar) =
        [Stderr ''fatal: lchown(3) failure: %s\<newline>'' [E EPERM]] \<and>
      map_option bytes (fs (final (main (''install'' # ?args) world_bar)) ''bar/foo.tmp'') =
        Some ''foo'' \<and>
      map_option perm (fs (final (main (''install'' # ?args) world_bar)) ''bar/foo'') = Some 384"
    unfolding main_run [OF parse m heap len]
    by (simp add: run_eval defaults_def world_bar_def world0_def regular_def directory_def)
  with before show ?thesis by simp
qed

section \<open>A failing read\<close>

text \<open>
  Claim C9. A \<^verbatim>\<open>read\<close> that fails during the copy ends the loop like the end of the
  file: nothing is reported, and the part copied so far is given its mode and owner and
  renamed to the destination. The source is a regular file, the temporary name is
  free, the \<^verbatim>\<open>read\<close> at offset \<open>stop\<close> (a multiple of the block size, so the loop reads
  there) fails and no other call does, and the caller may set the owner and group it
  asks for. Then \<^verbatim>\<open>main\<close> ends with status 0 and has printed nothing, the temporary name
  is gone, and the destination holds the first \<open>stop\<close> bytes of the source.
\<close>

theorem read_failure_ends_copy:
  assumes parse: "opts_loop argv0 w (defaults w) [] args = Inr (st, [src, dst])"
    and m: "mode st \<le> 4095" and copy: "\<not> symbolic st"
    and heap: "length dst + 5 + (if mkdirp st then heap_need dst else 0) + blksize w \<le> heap_free w"
    and len: "length dst + 4 \<le> INT_MAX"
    and f: "fs w src = Some f" and reg: "ftype f = S_IFREG" and st: "src \<noteq> dst @ ''.tmp''"
    and lks: "lookup_err (fs (prepared st dst w)) src = None"
    and lkd: "lookup_err (fs (prepared st dst w)) dst = None"
    and fresh: "fs w (dst @ ''.tmp'') = None"
    and dstnd: "\<forall>d. fs w dst = Some d \<longrightarrow> ftype d \<noteq> S_IFDIR"
    and fail: "fault w (Sys_read src stop) = Some e"
    and others: "\<forall>c. c \<noteq> Sys_read src stop \<longrightarrow> fault w c = None"
    and stop: "stop \<le> length (bytes f)" and bound: "blksize w dvd stop" and blk: "0 < blksize w"
    and priv: "euid w = 0 \<or>
       ((owner st = - 1 \<or> owner st = euid w) \<and>
        (group st = - 1 \<or> group st \<in> set (egid w # supp_gids w)))"
  shows "exit_status (main (argv0 # args) w) = 0 \<and> printed (main (argv0 # args) w) = [] \<and>
         fs (final (main (argv0 # args) w)) (dst @ ''.tmp'') = None \<and>
         map_option bytes (fs (final (main (argv0 # args) w)) dst) = Some (take stop (bytes f))"
proof -
  have op: "opened w (dst @ ''.tmp'') =
      \<lparr>ftype = S_IFREG, perm = 384 AND NOT (umask w), fuid = euid w, fgid = egid w, bytes = []\<rparr>"
    using fresh by (simp add: opened_def)
  have "exit_status (main (argv0 # args) w) = 0 \<and> printed (main (argv0 # args) w) = [] \<and>
         fs (final (main (argv0 # args) w)) (dst @ ''.tmp'') = None \<and>
         map_option bytes (fs (final (main (argv0 # args) w)) dst) =
           Some (take stop (bytes f) @ drop stop (bytes (opened w (dst @ ''.tmp''))))"
  proof (rule main_copy_install [OF parse m copy heap len f reg st lks lkd])
    show "\<forall>g. fs w (dst @ ''.tmp'') = Some g \<longrightarrow> ftype g \<noteq> S_IFLNK \<and> ftype g \<noteq> S_IFDIR"
      using fresh by simp
    show "\<forall>d. fs w dst = Some d \<longrightarrow> ftype d \<noteq> S_IFDIR" by (rule dstnd)
    show "\<forall>c. (\<forall>x. c \<noteq> Sys_read src x) \<longrightarrow> fault w c = None" using others by auto
    show "0 < blksize w" by (rule blk)
    show "stop \<le> length (bytes f)" by (rule stop)
    show "\<forall>x. x < stop \<longrightarrow> fault w (Sys_read src x) = None" using others by auto
    show "(stop = length (bytes f) \<and> fault w (Sys_read src stop) = None) \<or>
          (fault w (Sys_read src stop) \<noteq> None \<and> blksize w dvd stop)"
      using fail bound by simp
    show "euid w = 0 \<or>
       (euid w = fuid (opened w (dst @ ''.tmp'')) \<and>
        (owner st = - 1 \<or> owner st = fuid (opened w (dst @ ''.tmp''))) \<and>
        (group st = - 1 \<or> group st = fgid (opened w (dst @ ''.tmp'')) \<or>
         group st \<in> set (egid w # supp_gids w)))"
      using priv unfolding op by auto
  qed
  then show ?thesis by (simp add: op)
qed

theorem read_failure_ends_copy_witness:
  "fault world_readfail (Sys_read ''src'' 2) = Some EIO \<and>
   map_option bytes (fs world_readfail ''src'') = Some ''abcd'' \<and>
   exit_status (main [''install'', ''src'', ''dst''] world_readfail) = 0 \<and>
   printed (main [''install'', ''src'', ''dst''] world_readfail) = [] \<and>
   fs (final (main [''install'', ''src'', ''dst''] world_readfail)) ''dst.tmp'' = None \<and>
   map_option bytes (fs (final (main [''install'', ''src'', ''dst''] world_readfail)) ''dst'') =
     Some ''ab''"
proof -
  let ?st = "defaults world_readfail"
  have parse: "opts_loop ''install'' world_readfail ?st [] [''src'', ''dst''] =
      Inr (?st, [''src'', ''dst''])"
    by (simp add: opts_loop.simps)
  have m: "mode ?st \<le> 4095" by (simp add: defaults_def)
  have copy: "\<not> symbolic ?st" by (simp add: defaults_def)
  have heap: "length ''dst'' + 5 + (if mkdirp ?st then heap_need ''dst'' else 0) +
      blksize world_readfail \<le> heap_free world_readfail"
    by (simp add: defaults_def world_readfail_def world0_def)
  have len: "length ''dst'' + 4 \<le> INT_MAX" by (simp add: INT_MAX_def)
  have f: "fs world_readfail ''src'' = Some (regular ''abcd'')" by (simp add: world_readfail_def)
  have reg: "ftype (regular ''abcd'') = S_IFREG" by (simp add: regular_def)
  have st: "''src'' \<noteq> ''dst'' @ ''.tmp''" by simp
  have pr: "prepared ?st ''dst'' world_readfail =
      world_readfail\<lparr>heap_free := heap_free world_readfail - 8\<rparr>"
    by (simp add: prepared_def defaults_def)
  have lks: "lookup_err (fs (prepared ?st ''dst'' world_readfail)) ''src'' = None"
    unfolding pr by (simp add: fs_eval)
  have lkd: "lookup_err (fs (prepared ?st ''dst'' world_readfail)) ''dst'' = None"
    unfolding pr by (simp add: fs_eval)
  have fresh: "fs world_readfail (''dst'' @ ''.tmp'') = None"
    by (simp add: world_readfail_def world0_def)
  have dstnd: "\<forall>d. fs world_readfail ''dst'' = Some d \<longrightarrow> ftype d \<noteq> S_IFDIR"
    by (simp add: world_readfail_def world0_def)
  have fail: "fault world_readfail (Sys_read ''src'' 2) = Some EIO"
    by (simp add: world_readfail_def)
  have others: "\<forall>c. c \<noteq> Sys_read ''src'' 2 \<longrightarrow> fault world_readfail c = None"
    by (simp add: world_readfail_def)
  have stop: "2 \<le> length (bytes (regular ''abcd''))" by (simp add: regular_def)
  have bound: "blksize world_readfail dvd 2" by (simp add: world_readfail_def)
  have blk: "0 < blksize world_readfail" by (simp add: world_readfail_def)
  have priv: "euid world_readfail = 0 \<or>
       ((owner ?st = - 1 \<or> owner ?st = euid world_readfail) \<and>
        (group ?st = - 1 \<or> group ?st \<in> set (egid world_readfail # supp_gids world_readfail)))"
    by (simp add: defaults_def world_readfail_def world0_def)
  from read_failure_ends_copy [OF parse m copy heap len f reg st lks lkd fresh dstnd fail others
      stop bound blk priv] fail f
  show ?thesis by (simp add: regular_def)
qed

section \<open>A temporary file that is already there\<close>

text \<open>
  Claim C10. The temporary file is opened with mode \<^verbatim>\<open>0600\<close> (384) and without
  \<^verbatim>\<open>O_TRUNC\<close> or \<^verbatim>\<open>O_EXCL\<close>: when the temporary name already names a regular file,
  \<^verbatim>\<open>open\<close> succeeds and leaves it as it is, the copy overwrites its bytes from the
  start, and the bytes after the copied ones stay. When no call fails and the caller
  may change the file, \<^verbatim>\<open>main\<close> ends with status 0 and the destination holds the bytes
  of the source followed by the old bytes of the temporary file from that length on.
\<close>

theorem temporary_not_truncated:
  assumes parse: "opts_loop argv0 w (defaults w) [] args = Inr (st, [src, dst])"
    and m: "mode st \<le> 4095" and copy: "\<not> symbolic st"
    and heap: "length dst + 5 + (if mkdirp st then heap_need dst else 0) + blksize w \<le> heap_free w"
    and len: "length dst + 4 \<le> INT_MAX"
    and f: "fs w src = Some f" and reg: "ftype f = S_IFREG" and st: "src \<noteq> dst @ ''.tmp''"
    and lks: "lookup_err (fs (prepared st dst w)) src = None"
    and lkd: "lookup_err (fs (prepared st dst w)) dst = None"
    and old: "fs w (dst @ ''.tmp'') = Some g" and oldreg: "ftype g = S_IFREG"
    and dstnd: "\<forall>d. fs w dst = Some d \<longrightarrow> ftype d \<noteq> S_IFDIR"
    and nofault: "\<forall>c. fault w c = None"
    and blk: "0 < blksize w"
    and priv: "euid w = 0 \<or>
       (euid w = fuid g \<and> (owner st = - 1 \<or> owner st = fuid g) \<and>
        (group st = - 1 \<or> group st = fgid g \<or> group st \<in> set (egid w # supp_gids w)))"
  shows "sys_creat (dst @ ''.tmp'') 384 (prepared st dst w) = Inr (dst @ ''.tmp'', prepared st dst w) \<and>
         exit_status (main (argv0 # args) w) = 0 \<and> printed (main (argv0 # args) w) = [] \<and>
         fs (final (main (argv0 # args) w)) (dst @ ''.tmp'') = None \<and>
         map_option bytes (fs (final (main (argv0 # args) w)) dst) =
           Some (bytes f @ drop (length (bytes f)) (bytes g))"
proof -
  have op: "opened w (dst @ ''.tmp'') = g" using old by (simp add: opened_def)
  have lkt: "lookup_err (fs (prepared st dst w)) (dst @ ''.tmp'') = None"
    using lookup_err_tmp [OF lookup_err_nonempty [OF lkd]] lkd by simp
  have cr: "sys_creat (dst @ ''.tmp'') 384 (prepared st dst w) =
      Inr (dst @ ''.tmp'', prepared st dst w)"
    by (rule sys_creat_existing [of _ _ g])
      (use nofault lkt old oldreg in \<open>simp_all add: prepared_env prepared_tmp\<close>)
  have "exit_status (main (argv0 # args) w) = 0 \<and> printed (main (argv0 # args) w) = [] \<and>
         fs (final (main (argv0 # args) w)) (dst @ ''.tmp'') = None \<and>
         map_option bytes (fs (final (main (argv0 # args) w)) dst) =
           Some (take (length (bytes f)) (bytes f) @
                 drop (length (bytes f)) (bytes (opened w (dst @ ''.tmp''))))"
  proof (rule main_copy_install [OF parse m copy heap len f reg st lks lkd])
    show "\<forall>g. fs w (dst @ ''.tmp'') = Some g \<longrightarrow> ftype g \<noteq> S_IFLNK \<and> ftype g \<noteq> S_IFDIR"
      using old oldreg by simp
    show "\<forall>d. fs w dst = Some d \<longrightarrow> ftype d \<noteq> S_IFDIR" by (rule dstnd)
    show "\<forall>c. (\<forall>x. c \<noteq> Sys_read src x) \<longrightarrow> fault w c = None" using nofault by simp
    show "0 < blksize w" by (rule blk)
    show "length (bytes f) \<le> length (bytes f)" by simp
    show "\<forall>x. x < length (bytes f) \<longrightarrow> fault w (Sys_read src x) = None" using nofault by simp
    show "(length (bytes f) = length (bytes f) \<and> fault w (Sys_read src (length (bytes f))) = None) \<or>
          (fault w (Sys_read src (length (bytes f))) \<noteq> None \<and> blksize w dvd length (bytes f))"
      using nofault by simp
    show "euid w = 0 \<or>
       (euid w = fuid (opened w (dst @ ''.tmp'')) \<and>
        (owner st = - 1 \<or> owner st = fuid (opened w (dst @ ''.tmp''))) \<and>
        (group st = - 1 \<or> group st = fgid (opened w (dst @ ''.tmp'')) \<or>
         group st \<in> set (egid w # supp_gids w)))"
      using priv unfolding op .
  qed
  with cr show ?thesis by (simp add: op)
qed

theorem temporary_not_truncated_witness:
  "map_option bytes (fs world_stale ''src'') = Some ''ab'' \<and>
   map_option bytes (fs world_stale ''dst.tmp'') = Some ''wxyz'' \<and>
   exit_status (main [''install'', ''-m'', ''600'', ''src'', ''dst''] world_stale) = 0 \<and>
   printed (main [''install'', ''-m'', ''600'', ''src'', ''dst''] world_stale) = [] \<and>
   fs (final (main [''install'', ''-m'', ''600'', ''src'', ''dst''] world_stale)) ''dst.tmp'' = None \<and>
   map_option bytes (fs (final (main [''install'', ''-m'', ''600'', ''src'', ''dst''] world_stale)) ''dst'') =
     Some ''abyz''"
proof -
  let ?st = "(defaults world_stale)\<lparr>mode := 384\<rparr>"
  have parse: "opts_loop ''install'' world_stale (defaults world_stale) []
      [''-m'', ''600'', ''src'', ''dst''] = Inr (?st, [''src'', ''dst''])"
    by (simp add: opts_loop.simps scan_eval)
  have m: "mode ?st \<le> 4095" by simp
  have copy: "\<not> symbolic ?st" by (simp add: defaults_def)
  have heap: "length ''dst'' + 5 + (if mkdirp ?st then heap_need ''dst'' else 0) +
      blksize world_stale \<le> heap_free world_stale"
    by (simp add: defaults_def world_stale_def world0_def)
  have len: "length ''dst'' + 4 \<le> INT_MAX" by (simp add: INT_MAX_def)
  have f: "fs world_stale ''src'' = Some (regular ''ab'')" by (simp add: world_stale_def world0_def)
  have reg: "ftype (regular ''ab'') = S_IFREG" by (simp add: regular_def)
  have st: "''src'' \<noteq> ''dst'' @ ''.tmp''" by simp
  have pr: "prepared ?st ''dst'' world_stale = world_stale\<lparr>heap_free := heap_free world_stale - 8\<rparr>"
    by (simp add: prepared_def defaults_def)
  have lks: "lookup_err (fs (prepared ?st ''dst'' world_stale)) ''src'' = None"
    unfolding pr by (simp add: fs_eval)
  have lkd: "lookup_err (fs (prepared ?st ''dst'' world_stale)) ''dst'' = None"
    unfolding pr by (simp add: fs_eval)
  have old: "fs world_stale (''dst'' @ ''.tmp'') = Some (regular ''wxyz'')"
    by (simp add: world_stale_def)
  have oldreg: "ftype (regular ''wxyz'') = S_IFREG" by (simp add: regular_def)
  have dstnd: "\<forall>d. fs world_stale ''dst'' = Some d \<longrightarrow> ftype d \<noteq> S_IFDIR"
    by (simp add: world_stale_def world0_def)
  have nofault: "\<forall>c. fault world_stale c = None" by (simp add: world_stale_def world0_def)
  have blk: "0 < blksize world_stale" by (simp add: world_stale_def world0_def)
  have priv: "euid world_stale = 0 \<or>
       (euid world_stale = fuid (regular ''wxyz'') \<and>
        (owner ?st = - 1 \<or> owner ?st = fuid (regular ''wxyz'')) \<and>
        (group ?st = - 1 \<or> group ?st = fgid (regular ''wxyz'') \<or>
         group ?st \<in> set (egid world_stale # supp_gids world_stale)))"
    by (simp add: defaults_def world_stale_def world0_def regular_def)
  from temporary_not_truncated [OF parse m copy heap len f reg st lks lkd old oldreg dstnd nofault
      blk priv] f old
  show ?thesis by (simp add: regular_def)
qed

section \<open>The mode option\<close>




section \<open>What the code does not do\<close>

text \<open>
  Claim C1 does not hold of the code. In \<open>world_stale\<close> the source holds \<^verbatim>\<open>ab\<close> and the
  temporary path holds \<^verbatim>\<open>wxyz\<close>. \<^verbatim>\<open>install src dst\<close> exits with status 0 and the
  destination holds \<^verbatim>\<open>abyz\<close>: the temporary file is opened without \<^verbatim>\<open>O_TRUNC\<close>, so the
  bytes after the copied ones stay.
\<close>

theorem stale_temporary_bytes_installed:
  "map_option bytes (fs world_stale ''src'') = Some ''ab'' \<and>
   map_option bytes (fs world_stale ''dst.tmp'') = Some ''wxyz'' \<and>
   exit_status (main [''install'', ''src'', ''dst''] world_stale) = 0 \<and>
   map_option bytes (fs (final (main [''install'', ''src'', ''dst''] world_stale)) ''dst'') = Some ''abyz''"
proof -
  have parse: "opts_loop ''install'' world_stale (defaults world_stale) [] [''src'', ''dst''] =
      Inr (defaults world_stale, [''src'', ''dst''])"
    by (simp add: opts_loop.simps)
  have m: "mode (defaults world_stale) \<le> 4095" by (simp add: defaults_def)
  have heap: "length ''dst'' + 5 + (if mkdirp (defaults world_stale) then heap_need ''dst'' else 0)
      \<le> heap_free world_stale"
    by (simp add: defaults_def world_stale_def world0_def)
  have len: "length ''dst'' + 4 \<le> INT_MAX" by (simp add: INT_MAX_def)
  have run: "main [''install'', ''src'', ''dst''] world_stale = install (defaults world_stale) ''src'' ''dst'' world_stale"
    by (rule main_parsed [OF parse m])
  show ?thesis
    unfolding run install_eq [OF heap len]
    by (simp add: run_eval defaults_def world_stale_def world0_def regular_def)
qed

text \<open>
  Claim C2 does not hold of the code. In \<open>world_noperm\<close>, \<^verbatim>\<open>mkdir("a")\<close> fails with
  \<^verbatim>\<open>EACCES\<close>; \<^verbatim>\<open>mkparents\<close> drops the result and returns 0, and \<^verbatim>\<open>install -D src a/dst\<close>
  ends later, when the temporary file cannot be created, with a message that names the
  temporary path and \<^verbatim>\<open>ENOENT\<close>, not the destination and the error of \<^verbatim>\<open>mkdir\<close>.
\<close>

theorem mkdir_failure_not_reported:
  "sys_mkdir ''a'' 511 world_noperm = Inl EACCES \<and>
   mkparents ''a/dst'' world_noperm = (0, world_noperm) \<and>
   main [''install'', ''-D'', ''src'', ''a/dst''] world_noperm =
     fatal ''failed to create temporary file: %s (%s)'' [S ''a/dst.tmp'', E ENOENT]
       (world_noperm\<lparr>heap_free := heap_free world_noperm - 10\<rparr>)"
proof -
  have parse: "opts_loop ''install'' world_noperm (defaults world_noperm) [] [''-D'', ''src'', ''a/dst''] =
      Inr ((defaults world_noperm)\<lparr>mkdirp := True\<rparr>, [''src'', ''a/dst''])"
    by (simp add: opts_loop.simps scan_eval)
  have m: "mode ((defaults world_noperm)\<lparr>mkdirp := True\<rparr>) \<le> 4095" by (simp add: defaults_def)
  have anc: "spec_ancestors ''a/dst'' = [''a'']" by (simp add: spec_ancestors_def)
  have heap: "length ''a/dst'' + 5 +
      (if mkdirp ((defaults world_noperm)\<lparr>mkdirp := True\<rparr>) then heap_need ''a/dst'' else 0)
      \<le> heap_free world_noperm"
    by (simp add: heap_need_def anc world_noperm_def world0_def)
  have len: "length ''a/dst'' + 4 \<le> INT_MAX" by (simp add: INT_MAX_def)
  have run: "main [''install'', ''-D'', ''src'', ''a/dst''] world_noperm =
      install ((defaults world_noperm)\<lparr>mkdirp := True\<rparr>) ''src'' ''a/dst'' world_noperm"
    by (rule main_parsed [OF parse m])
  have mk: "sys_mkdir ''a'' 511 world_noperm = Inl EACCES"
    by (simp add: sys_mkdir_def world_noperm_def)
  have "heap_need ''a/dst'' \<le> heap_free world_noperm"
    by (simp add: heap_need_def anc world_noperm_def world0_def)
  then have mp: "mkparents ''a/dst'' world_noperm = (0, world_noperm)"
    by (simp add: mkparents_eq anc mkdir_unchecked_def mk)
  have "install ((defaults world_noperm)\<lparr>mkdirp := True\<rparr>) ''src'' ''a/dst'' world_noperm =
     fatal ''failed to create temporary file: %s (%s)'' [S ''a/dst.tmp'', E ENOENT]
       (world_noperm\<lparr>heap_free := heap_free world_noperm - 10\<rparr>)"
    unfolding install_eq [OF heap len]
    by (simp add: copy_file_def fs_eval prepared_def anc mkdir_unchecked_def Let_def
        defaults_def world_noperm_def world0_def regular_def)
  with mk mp run show ?thesis by simp
qed



end
